(* ===== verification/Rust_Prelude.thy ===== *)
theory Rust_Prelude
  imports
    Main
    "HOL-Library.Word"
    "HOL-Library.Sublist"
    "HOL-Library.Char_ord"
    "HOL-Library.List_Lexorder"
    "HOL-Library.Product_Lexorder"
    "HOL-Library.Option_ord"
begin

section \<open>Prelude: the fragment of Rust's standard library the runtime uses\<close>

text \<open>
  Shared vocabulary of the development.

  \<^item> \<open>Result<T, E>\<close> is the sum type \<open>'e + 'a\<close>, with \<open>Err\<close> and \<open>Ok\<close> for the two
    injections; the \<open>?\<close> operator is \<open>and_then\<close>, an early return on a condition is
    \<open>ensure\<close>, a \<open>for\<close> loop whose body may fail is \<open>try_each\<close> or \<open>try_fold\<close>.
  \<^item> \<open>String\<close> and \<open>&str\<close> are their UTF-8 byte sequences (a \<open>char\<close> of HOL is one byte), so
    \<open>length\<close> is \<open>str::len\<close> and the lexicographic order of lists is \<open>Ord for String\<close>.
  \<^item> \<open>BTreeMap<K, V>\<close> is an association list kept in strictly ascending key order, so that
    \<open>into_values\<close> enumerates as the source does; the laws its clients use are the locale
    \<open>ordered_map\<close>, interpreted below on that representation.
  \<^item> \<open>u64\<close> counters are \<open>nat\<close> and \<open>i64\<close> time stamps are \<open>int\<close>, with every saturating
    operation written out; identities such as \<open>uid\<close> are \<open>32 word\<close>.
\<close>

named_theorems result_simps \<open>rewriting of fallible pipelines\<close>
named_theorems btree_simps \<open>lookup and order facts of ordered maps\<close>
named_theorems inv_intros \<open>operations that keep a component's invariant\<close>

type_synonym u8 = "8 word"
type_synonym u16 = "16 word"
type_synonym u32 = "32 word"
type_synonym u64 = "64 word"

subsection \<open>Results\<close>

abbreviation Ok :: "'a \<Rightarrow> 'e + 'a" where
  "Ok \<equiv> Inr"

abbreviation Err :: "'e \<Rightarrow> 'e + 'a" where
  "Err \<equiv> Inl"

definition and_then :: "'e + 'a \<Rightarrow> ('a \<Rightarrow> 'e + 'b) \<Rightarrow> 'e + 'b" where
  "and_then m f = (case m of Inl e \<Rightarrow> Inl e | Inr x \<Rightarrow> f x)"

definition ensure :: "bool \<Rightarrow> 'e \<Rightarrow> 'e + unit" where
  "ensure b e = (if b then Ok () else Err e)"

definition ok_or :: "'a option \<Rightarrow> 'e \<Rightarrow> 'e + 'a" where
  "ok_or opt e = (case opt of None \<Rightarrow> Err e | Some x \<Rightarrow> Ok x)"

definition map_err :: "('e \<Rightarrow> 'f) \<Rightarrow> 'e + 'a \<Rightarrow> 'f + 'a" where
  "map_err g m = (case m of Inl e \<Rightarrow> Err (g e) | Inr x \<Rightarrow> Ok x)"

definition is_ok :: "'e + 'a \<Rightarrow> bool" where
  "is_ok m = (case m of Inl _ \<Rightarrow> False | Inr _ \<Rightarrow> True)"

fun try_each :: "('a \<Rightarrow> 'e + unit) \<Rightarrow> 'a list \<Rightarrow> 'e + unit" where
  "try_each f [] = Ok ()"
| "try_each f (x # xs) = and_then (f x) (\<lambda>_. try_each f xs)"

fun try_fold :: "('s \<Rightarrow> 'a \<Rightarrow> 'e + 's) \<Rightarrow> 's \<Rightarrow> 'a list \<Rightarrow> 'e + 's" where
  "try_fold f s [] = Ok s"
| "try_fold f s (x # xs) = and_then (f s x) (\<lambda>s'. try_fold f s' xs)"

fun try_map :: "('a \<Rightarrow> 'e + 'b) \<Rightarrow> 'a list \<Rightarrow> 'e + 'b list" where
  "try_map f [] = Ok []"
| "try_map f (x # xs) =
     and_then (f x) (\<lambda>y. and_then (try_map f xs) (\<lambda>ys. Ok (y # ys)))"

lemma and_then_simps [simp]:
  "and_then (Ok x) f = f x"
  "and_then (Err e) f = Err e"
  by (simp_all add: and_then_def)

lemma ensure_simps [simp]:
  "ensure True e = Ok ()"
  "ensure False e = Err e"
  by (simp_all add: ensure_def)

lemma and_then_eq_Ok [result_simps]:
  "and_then m f = Ok y \<longleftrightarrow> (\<exists>x. m = Ok x \<and> f x = Ok y)"
  by (cases m) auto

lemma and_then_eq_Err [result_simps]:
  "and_then m f = Err e \<longleftrightarrow> m = Err e \<or> (\<exists>x. m = Ok x \<and> f x = Err e)"
  by (cases m) auto

lemma ensure_eq_Ok [result_simps]: "ensure b e = Ok u \<longleftrightarrow> b"
  by (auto simp: ensure_def)

lemma ensure_eq_Err [result_simps]: "ensure b e = Err e' \<longleftrightarrow> \<not> b \<and> e' = e"
  by (auto simp: ensure_def)

lemma ok_or_simps [simp]:
  "ok_or None e = Err e"
  "ok_or (Some x) e = Ok x"
  by (simp_all add: ok_or_def)

lemma ok_or_eq_Ok [result_simps]: "ok_or opt e = Ok x \<longleftrightarrow> opt = Some x"
  by (cases opt) auto

lemma ok_or_eq_Err [result_simps]: "ok_or opt e = Err e' \<longleftrightarrow> opt = None \<and> e' = e"
  by (cases opt) auto

lemma map_err_simps [simp]:
  "map_err g (Ok x) = Ok x"
  "map_err g (Err e) = Err (g e)"
  by (simp_all add: map_err_def)

lemma map_err_eq_Ok [result_simps]: "map_err g m = Ok x \<longleftrightarrow> m = Ok x"
  by (cases m) auto

lemma map_err_eq_Err [result_simps]: "map_err g m = Err e' \<longleftrightarrow> (\<exists>e. m = Err e \<and> e' = g e)"
  by (cases m) auto

lemma is_ok_iff: "is_ok m \<longleftrightarrow> (\<exists>x. m = Ok x)"
  by (cases m) (auto simp: is_ok_def)

lemma and_then_cong [fundef_cong]:
  "m = m' \<Longrightarrow> (\<And>x. m' = Ok x \<Longrightarrow> f x = g x) \<Longrightarrow> and_then m f = and_then m' g"
  by (cases m') auto

lemma try_each_eq_Ok [result_simps]:
  "try_each f xs = Ok u \<longleftrightarrow> (\<forall>x\<in>set xs. f x = Ok ())"
  by (induction xs) (auto simp: result_simps)

lemma try_fold_invariant:
  assumes "try_fold f s xs = Ok t" and "I s"
    and "\<And>s x s'. x \<in> set xs \<Longrightarrow> I s \<Longrightarrow> f s x = Ok s' \<Longrightarrow> I s'"
  shows "I t"
  using assms by (induction xs arbitrary: s) (auto simp: result_simps)

lemma try_fold_snoc:
  "try_fold f s (xs @ [x]) = and_then (try_fold f s xs) (\<lambda>s'. f s' x)"
  by (induction xs arbitrary: s) (auto simp: and_then_def split: sum.splits)

lemma try_map_eq_Ok [result_simps]:
  "try_map f xs = Ok ys \<longleftrightarrow> list_all2 (\<lambda>x y. f x = Ok y) xs ys"
  by (induction xs arbitrary: ys) (auto simp: result_simps list_all2_Cons1)

subsection \<open>State and result\<close>

text \<open>
  A method that changes state and returns a \<open>Result\<close> is a function to a pair of the new state and
  the result: an early return keeps the changes made before it. \<open>st_then\<close> is \<open>?\<close> there,
  \<open>st_each\<close> a loop whose body may return early.
\<close>

definition st_then ::
  "'s \<times> ('e + 'a) \<Rightarrow> ('s \<Rightarrow> 'a \<Rightarrow> 's \<times> ('e + 'b)) \<Rightarrow> 's \<times> ('e + 'b)" where
  "st_then m f = (case m of (s, Inl e) \<Rightarrow> (s, Inl e) | (s, Inr x) \<Rightarrow> f s x)"

definition st_map_err :: "('e \<Rightarrow> 'f) \<Rightarrow> 's \<times> ('e + 'a) \<Rightarrow> 's \<times> ('f + 'a)" where
  "st_map_err g m = (fst m, map_err g (snd m))"

fun st_each :: "('s \<Rightarrow> 'a \<Rightarrow> 's \<times> ('e + unit)) \<Rightarrow> 's \<Rightarrow> 'a list \<Rightarrow> 's \<times> ('e + unit)" where
  "st_each f s [] = (s, Ok ())"
| "st_each f s (x # xs) = st_then (f s x) (\<lambda>s' _. st_each f s' xs)"

lemma st_then_simps [simp]:
  "st_then (s, Ok x) f = f s x"
  "st_then (s, Err e) f = (s, Err e)"
  by (simp_all add: st_then_def)

lemma st_then_eq_Ok [result_simps]:
  "st_then m f = (t, Ok y) \<longleftrightarrow> (\<exists>s x. m = (s, Ok x) \<and> f s x = (t, Ok y))"
  by (cases m; cases "snd m") auto

lemma st_then_eq_Err [result_simps]:
  "st_then m f = (t, Err e) \<longleftrightarrow> m = (t, Err e) \<or> (\<exists>s x. m = (s, Ok x) \<and> f s x = (t, Err e))"
  by (cases m; cases "snd m") auto

lemma st_then_cong [fundef_cong]:
  "m = m' \<Longrightarrow> (\<And>s x. m' = (s, Ok x) \<Longrightarrow> f s x = g s x) \<Longrightarrow> st_then m f = st_then m' g"
  by (cases m'; cases "snd m'") auto

lemma st_then_fst:
  "P (fst m) \<Longrightarrow> (\<And>s x. m = (s, Ok x) \<Longrightarrow> P s \<Longrightarrow> P (fst (f s x))) \<Longrightarrow> P (fst (st_then m f))"
  by (cases m; cases "snd m") auto

lemma st_map_err_simps [simp]:
  "st_map_err g (s, Ok x) = (s, Ok x)"
  "st_map_err g (s, Err e) = (s, Err (g e))"
  "fst (st_map_err g m) = fst m"
  by (simp_all add: st_map_err_def)

lemma st_map_err_eq_Ok [result_simps]: "st_map_err g m = (s, Ok x) \<longleftrightarrow> m = (s, Ok x)"
  by (cases m) (auto simp: st_map_err_def result_simps)

lemma st_map_err_eq_Err [result_simps]:
  "st_map_err g m = (s, Err e') \<longleftrightarrow> (\<exists>e. m = (s, Err e) \<and> e' = g e)"
  by (cases m) (auto simp: st_map_err_def result_simps)

lemma st_each_fst:
  assumes "P s" and "\<And>s x. x \<in> set xs \<Longrightarrow> P s \<Longrightarrow> P (fst (f s x))"
  shows "P (fst (st_each f s xs))"
  using assms
proof (induction xs arbitrary: s)
  case (Cons x xs)
  show ?case
    unfolding st_each.simps
    by (rule st_then_fst) (use Cons.prems in \<open>auto intro!: Cons.IH\<close>)
qed simp

subsection \<open>Strings\<close>

text \<open>
  \<open>str::trim\<close> removes the characters with the Unicode property White_Space. On the bytes of
  a valid UTF-8 string these are the six ASCII ones, U+0085 and U+00A0 (two bytes, lead C2)
  and the three-byte ones U+1680, U+2000..U+200A, U+2028, U+2029, U+202F, U+205F, U+3000.
  \<open>trim_is_empty s\<close> is \<open>s.trim().is_empty()\<close>.
\<close>

definition byte :: "char \<Rightarrow> nat" where
  "byte c = of_char c"

definition ascii_white_space :: "char \<Rightarrow> bool" where
  "ascii_white_space c \<longleftrightarrow> byte c \<in> {9, 10, 11, 12, 13, 32}"

definition white_space2 :: "char \<Rightarrow> char \<Rightarrow> bool" where
  "white_space2 c d \<longleftrightarrow> byte c = 0xC2 \<and> byte d \<in> {0x85, 0xA0}"

definition white_space3 :: "char \<Rightarrow> char \<Rightarrow> char \<Rightarrow> bool" where
  "white_space3 c d e \<longleftrightarrow>
     byte c = 0xE1 \<and> byte d = 0x9A \<and> byte e = 0x80
   \<or> byte c = 0xE2 \<and> byte d = 0x80 \<and>
       (0x80 \<le> byte e \<and> byte e \<le> 0x8A \<or> byte e \<in> {0xA8, 0xA9, 0xAF})
   \<or> byte c = 0xE2 \<and> byte d = 0x81 \<and> byte e = 0x9F
   \<or> byte c = 0xE3 \<and> byte d = 0x80 \<and> byte e = 0x80"

fun trim_is_empty :: "string \<Rightarrow> bool" where
  "trim_is_empty [] = True"
| "trim_is_empty (c # cs) =
     (if ascii_white_space c then trim_is_empty cs
      else case cs of
        [] \<Rightarrow> False
      | d # ds \<Rightarrow>
          if white_space2 c d then trim_is_empty ds
          else case ds of
            [] \<Rightarrow> False
          | e # es \<Rightarrow> if white_space3 c d e then trim_is_empty es else False)"

definition ascii_lower :: "char \<Rightarrow> char" where
  "ascii_lower c = (if 65 \<le> byte c \<and> byte c \<le> 90 then char_of (byte c + 32) else c)"

definition to_ascii_lowercase :: "string \<Rightarrow> string" where
  "to_ascii_lowercase s = map ascii_lower s"

definition contains_str :: "string \<Rightarrow> string \<Rightarrow> bool" where
  "contains_str s needle \<longleftrightarrow> sublist needle s"

definition contains_char :: "string \<Rightarrow> string \<Rightarrow> bool" where
  "contains_char s cs \<longleftrightarrow> list_ex (\<lambda>c. c \<in> set cs) s"

definition is_ascii_lowercase :: "char \<Rightarrow> bool" where
  "is_ascii_lowercase c \<longleftrightarrow> 97 \<le> byte c \<and> byte c \<le> 122"

definition is_ascii_digit :: "char \<Rightarrow> bool" where
  "is_ascii_digit c \<longleftrightarrow> 48 \<le> byte c \<and> byte c \<le> 57"

definition line_breaks :: string where
  "line_breaks = [CHR 0x00, CHR 0x0A, CHR 0x0D]"

fun show_nat :: "nat \<Rightarrow> string" where
  "show_nat n =
     (if n < 10 then [char_of (48 + n)] else show_nat (n div 10) @ [char_of (48 + n mod 10)])"

declare show_nat.simps [simp del]

definition show_word :: "'a::len word \<Rightarrow> string" where
  "show_word w = show_nat (unat w)"

lemma show_nat_nonempty: "show_nat n \<noteq> []"
  by (subst show_nat.simps) simp

fun digits_value :: "string \<Rightarrow> nat \<Rightarrow> nat" where
  "digits_value [] acc = acc"
| "digits_value (c # cs) acc = digits_value cs (10 * acc + (byte c - 48))"

lemma digits_value_append:
  "digits_value (xs @ ys) acc = digits_value ys (digits_value xs acc)"
  by (induction xs arbitrary: acc) auto

lemma byte_char_of [simp]: "n < 256 \<Longrightarrow> byte (char_of n) = n"
  by (simp add: byte_def)

lemma digits_value_show_nat: "digits_value (show_nat n) 0 = n"
proof (induction n rule: show_nat.induct)
  case (1 n)
  show ?case
  proof (cases "n < 10")
    case True
    then show ?thesis by (subst show_nat.simps) simp
  next
    case False
    have small: "byte (char_of (48 + n mod 10)) - 48 = n mod 10"
      using mod_less_divisor [of 10 n] by simp
    have "digits_value (show_nat n) 0 = 10 * digits_value (show_nat (n div 10)) 0 + n mod 10"
      using False small by (subst show_nat.simps) (simp add: digits_value_append)
    with 1 [OF False] show ?thesis by simp
  qed
qed

lemma show_nat_inject [simp]: "show_nat m = show_nat n \<longleftrightarrow> m = n"
  by (metis digits_value_show_nat)

lemma show_word_inject [simp]: "show_word v = show_word w \<longleftrightarrow> v = w"
  by (simp add: show_word_def word_unat_eq_iff)

subsection \<open>Saturating arithmetic\<close>

definition u64_max :: nat where
  "u64_max = 2 ^ 64 - 1"

definition i64_max :: int where
  "i64_max = 2 ^ 63 - 1"

definition i64_min :: int where
  "i64_min = - (2 ^ 63)"

definition sat_add_u64 :: "nat \<Rightarrow> nat \<Rightarrow> nat" where
  "sat_add_u64 a b = min u64_max (a + b)"

definition sat_i64 :: "int \<Rightarrow> int" where
  "sat_i64 x = max i64_min (min i64_max x)"

definition sat_sub_i64 :: "int \<Rightarrow> int \<Rightarrow> int" where
  "sat_sub_i64 a b = sat_i64 (a - b)"

definition i64_of_u64 :: "nat \<Rightarrow> nat" where
  "i64_of_u64 n = min n (nat i64_max)"

text \<open>Executable forms that compare in \<open>int\<close>, whose numerals are binary.\<close>

lemma i64_of_u64_code [code]: "i64_of_u64 n = (if int n \<le> i64_max then n else nat i64_max)"
  by (auto simp: i64_of_u64_def i64_max_def)

lemma sat_add_u64_code [code]:
  "sat_add_u64 a b = (if int a + int b \<le> 2 ^ 64 - 1 then a + b else u64_max)"
  by (auto simp: sat_add_u64_def u64_max_def)

lemma sat_add_u64_ge: "a \<le> u64_max \<Longrightarrow> a \<le> sat_add_u64 a b"
  by (simp add: sat_add_u64_def)

lemma sat_add_u64_bound [simp]: "sat_add_u64 a b \<le> u64_max"
  by (simp add: sat_add_u64_def)

lemma sat_sub_i64_bounds: "i64_min \<le> sat_sub_i64 a b \<and> sat_sub_i64 a b \<le> i64_max"
  by (simp add: sat_sub_i64_def sat_i64_def i64_min_def i64_max_def)

subsection \<open>Ordered maps\<close>

type_synonym ('k, 'v) btree = "('k \<times> 'v) list"

definition bt_empty :: "('k, 'v) btree" where
  "bt_empty = []"

definition bt_get :: "('k, 'v) btree \<Rightarrow> 'k \<Rightarrow> 'v option" where
  "bt_get m k = map_of m k"

fun bt_insert :: "'k::linorder \<Rightarrow> 'v \<Rightarrow> ('k, 'v) btree \<Rightarrow> ('k, 'v) btree" where
  "bt_insert k v [] = [(k, v)]"
| "bt_insert k v (e # m) =
     (if fst e < k then e # bt_insert k v m
      else if fst e = k then (k, v) # m
      else (k, v) # e # m)"

definition bt_contains_key :: "('k, 'v) btree \<Rightarrow> 'k \<Rightarrow> bool" where
  "bt_contains_key m k \<longleftrightarrow> bt_get m k \<noteq> None"

definition bt_values :: "('k, 'v) btree \<Rightarrow> 'v list" where
  "bt_values m = map snd m"

definition bt_sorted :: "('k::linorder, 'v) btree \<Rightarrow> bool" where
  "bt_sorted m \<longleftrightarrow> sorted_wrt (<) (map fst m)"

text \<open>
  The loop \<open>for x in xs { check(x)?; if map.insert(key(x), x).is_some() { return Err(dup) } }\<close>
  occurs for actions, bundles and subjects alike.
\<close>

fun bt_collect ::
  "('a \<Rightarrow> 'k::linorder) \<Rightarrow> ('a \<Rightarrow> 'e + unit) \<Rightarrow> 'e \<Rightarrow> ('k, 'a) btree \<Rightarrow> 'a list
    \<Rightarrow> 'e + ('k, 'a) btree" where
  "bt_collect key check dup m [] = Ok m"
| "bt_collect key check dup m (x # xs) =
     and_then (check x) (\<lambda>_.
       if bt_contains_key m (key x) then Err dup
       else bt_collect key check dup (bt_insert (key x) x m) xs)"

lemma bt_get_empty [btree_simps]: "bt_get bt_empty k = None"
  by (simp add: bt_empty_def bt_get_def)

lemma bt_sorted_tail_gt: "bt_sorted ((k, v) # m) \<Longrightarrow> (k', v') \<in> set m \<Longrightarrow> k < k'"
  by (force simp: bt_sorted_def)

lemma bt_get_above_None:
  "bt_sorted (e # m) \<Longrightarrow> k < fst e \<Longrightarrow> bt_get (e # m) k = None"
  by (cases e) (force simp: bt_sorted_def bt_get_def map_of_eq_None_iff)

lemma bt_get_insert [btree_simps]:
  "bt_get (bt_insert k v m) k' = (if k' = k then Some v else bt_get m k')"
  by (induction m) (auto simp: bt_get_def)

lemma fst_set_bt_insert: "fst ` set (bt_insert k v m) = insert k (fst ` set m)"
  by (induction m) auto

lemma bt_sorted_insert [btree_simps]: "bt_sorted m \<Longrightarrow> bt_sorted (bt_insert k v m)"
proof (induction m)
  case Nil
  then show ?case by (simp add: bt_sorted_def)
next
  case (Cons e m)
  then have "\<forall>x \<in> fst ` set (bt_insert k v m). x = k \<or> fst e < x"
    by (auto simp: bt_sorted_def fst_set_bt_insert)
  moreover have "bt_sorted (bt_insert k v m)" and "\<forall>x \<in> fst ` set m. fst e < x"
    using Cons by (auto simp: bt_sorted_def)
  ultimately show ?case
    using Cons.prems by (auto simp: bt_sorted_def)
qed

lemma bt_get_in_set: "bt_sorted m \<Longrightarrow> bt_get m k = Some v \<longleftrightarrow> (k, v) \<in> set m"
  unfolding bt_get_def bt_sorted_def by (simp add: strict_sorted_iff)

lemma alist_eqI:
  assumes "map fst xs = map fst ys" and "distinct (map fst xs)" and "set xs = set ys"
  shows "xs = ys"
proof (rule nth_equalityI)
  show len: "length xs = length ys"
    using assms(1) by (metis length_map)
  fix i assume i: "i < length xs"
  then have "fst (xs ! i) = fst (ys ! i)"
    using assms(1) len by (metis nth_map)
  moreover have "ys ! i \<in> set xs"
    using i len assms(3) nth_mem by metis
  moreover have "xs ! i \<in> set xs"
    using i by (rule nth_mem)
  ultimately show "xs ! i = ys ! i"
    using assms(2) by (metis eq_key_imp_eq_value prod.collapse)
qed

text \<open>The interface: what a client of a \<open>BTreeMap\<close> relies on.\<close>

locale ordered_map =
  fixes empty :: 'm
    and get :: "'m \<Rightarrow> 'k::linorder \<Rightarrow> 'v option"
    and put :: "'k \<Rightarrow> 'v \<Rightarrow> 'm \<Rightarrow> 'm"
    and entries :: "'m \<Rightarrow> ('k \<times> 'v) list"
    and wf :: "'m \<Rightarrow> bool"
  assumes get_empty: "get empty k = None"
    and wf_empty: "wf empty"
    and get_put: "get (put k v m) k' = (if k' = k then Some v else get m k')"
    and wf_put: "wf m \<Longrightarrow> wf (put k v m)"
    and get_entries: "wf m \<Longrightarrow> get m k = Some v \<longleftrightarrow> (k, v) \<in> set (entries m)"
    and entries_sorted: "wf m \<Longrightarrow> sorted_wrt (<) (map fst (entries m))"
begin

lemma put_all_get:
  "get (fold (\<lambda>(k, v). put k v) kvs m) k =
     (case map_of (rev kvs) k of None \<Rightarrow> get m k | Some v \<Rightarrow> Some v)"
proof (induction kvs rule: rev_induct)
  case Nil
  then show ?case by simp
next
  case (snoc kv kvs)
  then show ?case by (cases kv) (simp add: get_put)
qed

lemma put_all_wf: "wf m \<Longrightarrow> wf (fold (\<lambda>(k, v). put k v) kvs m)"
  by (induction kvs arbitrary: m) (auto simp: wf_put)

lemma entries_distinct: "wf m \<Longrightarrow> distinct (map fst (entries m))"
  using entries_sorted by (simp add: strict_sorted_iff)

lemma entries_determined:
  assumes "wf m" and "wf n" and "\<And>k. get m k = get n k"
  shows "entries m = entries n"
proof -
  have "set (entries m) = set (entries n)"
    using assms get_entries by (metis surj_pair subsetI subset_antisym)
  moreover have "distinct (map fst (entries m))" and "distinct (map fst (entries n))"
    using assms entries_distinct by auto
  moreover have "sorted (map fst (entries m))" and "sorted (map fst (entries n))"
    using assms entries_sorted by (simp_all add: strict_sorted_iff)
  ultimately have "map fst (entries m) = map fst (entries n)"
    by (metis list.set_map sorted_distinct_set_unique)
  then show ?thesis
    using \<open>set (entries m) = set (entries n)\<close> \<open>distinct (map fst (entries m))\<close>
    by (intro alist_eqI)
qed

end

interpretation bt: ordered_map bt_empty bt_get bt_insert "\<lambda>m. m" bt_sorted
proof unfold_locales
  show "bt_sorted bt_empty"
    by (simp add: bt_sorted_def bt_empty_def)
qed (simp_all add: btree_simps bt_get_in_set, simp add: bt_sorted_def)

text \<open>What the collecting loop computes: it fails unless every element passes the check and
  the keys are new and pairwise distinct, and then maps each key to its element.\<close>

lemma bt_collect_Ok:
  assumes "bt_collect key check dup m xs = Ok m'"
  shows "(\<forall>x\<in>set xs. check x = Ok ()) \<and> distinct (map key xs)
    \<and> (\<forall>x\<in>set xs. bt_get m (key x) = None)
    \<and> (\<forall>k. bt_get m' k = (case find (\<lambda>x. key x = k) xs of None \<Rightarrow> bt_get m k | Some x \<Rightarrow> Some x))"
  using assms
proof (induction xs arbitrary: m)
  case Nil
  then show ?case by simp
next
  case (Cons x xs)
  from Cons.prems have c: "check x = Ok ()" and new: "bt_get m (key x) = None"
    and rest: "bt_collect key check dup (bt_insert (key x) x m) xs = Ok m'"
    by (auto simp: result_simps bt_contains_key_def split: if_splits)
  note ih = Cons.IH [OF rest]
  then have "key x \<notin> set (map key xs)"
    by (auto simp: btree_simps)
  moreover from this have "find (\<lambda>y. key y = key x) xs = None"
    by (metis (mono_tags, lifting) find_None_iff image_eqI image_set)
  ultimately show ?case
    using ih c new by (auto simp: btree_simps split: if_splits option.split)
qed

lemma bt_collect_wf:
  "bt_sorted m \<Longrightarrow> bt_collect key check dup m xs = Ok m' \<Longrightarrow> bt_sorted m'"
proof (induction xs arbitrary: m)
  case (Cons x xs)
  from Cons.prems(2) have "bt_collect key check dup (bt_insert (key x) x m) xs = Ok m'"
    by (auto simp: result_simps split: if_splits)
  with Cons.prems(1) show ?case
    by (intro Cons.IH) (simp_all add: bt_sorted_insert)
qed simp

end
