(* ===== verification/Protocol_Enums.thy ===== *)
theory Protocol_Enums
  imports Rust_Prelude
begin

section \<open>Closed vocabularies of the wire and of the database\<close>

text \<open>
  The enumerations of \<^verbatim>\<open>portus-protocol/src/{task,policy,event,health,semantics}.rs\<close>. Each source
  macro (\<^verbatim>\<open>task_string_enum!\<close> and its siblings) expands one list of variants into a type, a
  printer \<open>as_str\<close> and a parser \<open>from_str\<close>; here they are a datatype, a function and a
  definition per enumeration. A constructor carries a prefix where two enumerations share a
  variant name. The locale \<open>string_enum\<close> is the contract between printer and parser that the
  state database relies on when it stores a variant as text and reads it back.
\<close>

definition match_str :: "(string \<times> 'a) list \<Rightarrow> 'e + 'a \<Rightarrow> string \<Rightarrow> 'e + 'a" where
  "match_str arms other v = (case map_of arms v of Some x \<Rightarrow> Ok x | None \<Rightarrow> other)"

lemma match_str_simps [simp]:
  "match_str [] other v = other"
  "match_str ((s, x) # arms) other v = (if v = s then Ok x else match_str arms other v)"
  by (simp_all add: match_str_def)

subsection \<open>The enumerations\<close>

datatype TaskState =
    TaskCreated
  | TaskQueued
  | TaskStarting
  | TaskRunning
  | TaskWaiting
  | TaskPaused
  | TaskReconciling
  | TaskCancelling
  | TaskSucceeded
  | TaskFailed
  | TaskCancelled
  | TaskInterrupted

fun task_state_as_str :: "TaskState \<Rightarrow> string" where
  "task_state_as_str TaskCreated = ''created''"
| "task_state_as_str TaskQueued = ''queued''"
| "task_state_as_str TaskStarting = ''starting''"
| "task_state_as_str TaskRunning = ''running''"
| "task_state_as_str TaskWaiting = ''waiting''"
| "task_state_as_str TaskPaused = ''paused''"
| "task_state_as_str TaskReconciling = ''reconciling''"
| "task_state_as_str TaskCancelling = ''cancelling''"
| "task_state_as_str TaskSucceeded = ''succeeded''"
| "task_state_as_str TaskFailed = ''failed''"
| "task_state_as_str TaskCancelled = ''cancelled''"
| "task_state_as_str TaskInterrupted = ''interrupted''"

definition task_state_from_str :: "string \<Rightarrow> string + TaskState" where
  "task_state_from_str v = match_str
     [(''created'', TaskCreated),
      (''queued'', TaskQueued),
      (''starting'', TaskStarting),
      (''running'', TaskRunning),
      (''waiting'', TaskWaiting),
      (''paused'', TaskPaused),
      (''reconciling'', TaskReconciling),
      (''cancelling'', TaskCancelling),
      (''succeeded'', TaskSucceeded),
      (''failed'', TaskFailed),
      (''cancelled'', TaskCancelled),
      (''interrupted'', TaskInterrupted)]
     (Err ''unknown TaskState value'') v"

datatype WaitingReason =
    WaitApproval
  | WaitUserInput
  | WaitProvider
  | WaitResource
  | WaitDependency
  | WaitRateLimit
  | WaitExternalCondition

fun waiting_reason_as_str :: "WaitingReason \<Rightarrow> string" where
  "waiting_reason_as_str WaitApproval = ''approval''"
| "waiting_reason_as_str WaitUserInput = ''user_input''"
| "waiting_reason_as_str WaitProvider = ''provider''"
| "waiting_reason_as_str WaitResource = ''resource''"
| "waiting_reason_as_str WaitDependency = ''dependency''"
| "waiting_reason_as_str WaitRateLimit = ''rate_limit''"
| "waiting_reason_as_str WaitExternalCondition = ''external_condition''"

definition waiting_reason_from_str :: "string \<Rightarrow> string + WaitingReason" where
  "waiting_reason_from_str v = match_str
     [(''approval'', WaitApproval),
      (''user_input'', WaitUserInput),
      (''provider'', WaitProvider),
      (''resource'', WaitResource),
      (''dependency'', WaitDependency),
      (''rate_limit'', WaitRateLimit),
      (''external_condition'', WaitExternalCondition)]
     (Err ''unknown WaitingReason value'') v"

datatype ExecutionRelationshipMode =
    ModeManaged
  | ModeAssociated

fun execution_relationship_mode_as_str :: "ExecutionRelationshipMode \<Rightarrow> string" where
  "execution_relationship_mode_as_str ModeManaged = ''managed''"
| "execution_relationship_mode_as_str ModeAssociated = ''associated''"

definition execution_relationship_mode_from_str :: "string \<Rightarrow> string + ExecutionRelationshipMode" where
  "execution_relationship_mode_from_str v = match_str
     [(''managed'', ModeManaged),
      (''associated'', ModeAssociated)]
     (Err ''unknown ExecutionRelationshipMode value'') v"

datatype TaskBackendKind =
    BackendNativeProcess
  | BackendCodexRoot
  | BackendCodexSubagent
  | BackendProvider
  | BackendOpenRcService
  | BackendApplication
  | BackendChildTask

fun task_backend_kind_as_str :: "TaskBackendKind \<Rightarrow> string" where
  "task_backend_kind_as_str BackendNativeProcess = ''native_process''"
| "task_backend_kind_as_str BackendCodexRoot = ''codex_root''"
| "task_backend_kind_as_str BackendCodexSubagent = ''codex_subagent''"
| "task_backend_kind_as_str BackendProvider = ''provider''"
| "task_backend_kind_as_str BackendOpenRcService = ''openrc_service''"
| "task_backend_kind_as_str BackendApplication = ''application''"
| "task_backend_kind_as_str BackendChildTask = ''child_task''"

definition task_backend_kind_from_str :: "string \<Rightarrow> string + TaskBackendKind" where
  "task_backend_kind_from_str v = match_str
     [(''native_process'', BackendNativeProcess),
      (''codex_root'', BackendCodexRoot),
      (''codex_subagent'', BackendCodexSubagent),
      (''provider'', BackendProvider),
      (''openrc_service'', BackendOpenRcService),
      (''application'', BackendApplication),
      (''child_task'', BackendChildTask)]
     (Err ''unknown TaskBackendKind value'') v"

datatype ExecutionRelationshipStatus =
    RelStarting
  | RelRunning
  | RelStopped
  | RelLost
  | RelUnknown

fun execution_relationship_status_as_str :: "ExecutionRelationshipStatus \<Rightarrow> string" where
  "execution_relationship_status_as_str RelStarting = ''starting''"
| "execution_relationship_status_as_str RelRunning = ''running''"
| "execution_relationship_status_as_str RelStopped = ''stopped''"
| "execution_relationship_status_as_str RelLost = ''lost''"
| "execution_relationship_status_as_str RelUnknown = ''unknown''"

definition execution_relationship_status_from_str :: "string \<Rightarrow> string + ExecutionRelationshipStatus" where
  "execution_relationship_status_from_str v = match_str
     [(''starting'', RelStarting),
      (''running'', RelRunning),
      (''stopped'', RelStopped),
      (''lost'', RelLost),
      (''unknown'', RelUnknown)]
     (Err ''unknown ExecutionRelationshipStatus value'') v"

datatype RetrySafety =
    RetryNever
  | RetryIdempotent
  | RetryContractSafe

fun retry_safety_as_str :: "RetrySafety \<Rightarrow> string" where
  "retry_safety_as_str RetryNever = ''never''"
| "retry_safety_as_str RetryIdempotent = ''idempotent''"
| "retry_safety_as_str RetryContractSafe = ''contract_safe''"

definition retry_safety_from_str :: "string \<Rightarrow> string + RetrySafety" where
  "retry_safety_from_str v = match_str
     [(''never'', RetryNever),
      (''idempotent'', RetryIdempotent),
      (''contract_safe'', RetryContractSafe)]
     (Err ''unknown RetrySafety value'') v"

datatype TaskResultKind =
    ResultSuccess
  | ResultFailure
  | ResultCancelled
  | ResultInterrupted

fun task_result_kind_as_str :: "TaskResultKind \<Rightarrow> string" where
  "task_result_kind_as_str ResultSuccess = ''success''"
| "task_result_kind_as_str ResultFailure = ''failure''"
| "task_result_kind_as_str ResultCancelled = ''cancelled''"
| "task_result_kind_as_str ResultInterrupted = ''interrupted''"

definition task_result_kind_from_str :: "string \<Rightarrow> string + TaskResultKind" where
  "task_result_kind_from_str v = match_str
     [(''success'', ResultSuccess),
      (''failure'', ResultFailure),
      (''cancelled'', ResultCancelled),
      (''interrupted'', ResultInterrupted)]
     (Err ''unknown TaskResultKind value'') v"

datatype PolicyEffect =
    Allow
  | Prompt
  | Reject

fun policy_effect_as_str :: "PolicyEffect \<Rightarrow> string" where
  "policy_effect_as_str Allow = ''allow''"
| "policy_effect_as_str Prompt = ''prompt''"
| "policy_effect_as_str Reject = ''reject''"

definition policy_effect_from_str :: "string \<Rightarrow> string + PolicyEffect" where
  "policy_effect_from_str v = match_str
     [(''allow'', Allow),
      (''prompt'', Prompt),
      (''reject'', Reject)]
     (Err ''unknown PolicyEffect value'') v"

datatype PolicyEnforcementClass =
    UserNative
  | ResourceGrant
  | PortusProviderPolicy
  | PrivilegedTypedOperation
  | RootEquivalent

fun policy_enforcement_class_as_str :: "PolicyEnforcementClass \<Rightarrow> string" where
  "policy_enforcement_class_as_str UserNative = ''user_native''"
| "policy_enforcement_class_as_str ResourceGrant = ''resource_grant''"
| "policy_enforcement_class_as_str PortusProviderPolicy = ''portus_provider_policy''"
| "policy_enforcement_class_as_str PrivilegedTypedOperation = ''privileged_typed_operation''"
| "policy_enforcement_class_as_str RootEquivalent = ''root_equivalent''"

definition policy_enforcement_class_from_str :: "string \<Rightarrow> string + PolicyEnforcementClass" where
  "policy_enforcement_class_from_str v = match_str
     [(''user_native'', UserNative),
      (''resource_grant'', ResourceGrant),
      (''portus_provider_policy'', PortusProviderPolicy),
      (''privileged_typed_operation'', PrivilegedTypedOperation),
      (''root_equivalent'', RootEquivalent)]
     (Err ''unknown PolicyEnforcementClass value'') v"

datatype EventObjectKind =
    ObjTask
  | ObjProvider
  | ObjPolicy
  | ObjRuntime
  | ObjIndex
  | ObjArtifact
  | ObjHealth
  | ObjPrivilege
  | ObjProtectedApi

fun event_object_kind_as_str :: "EventObjectKind \<Rightarrow> string" where
  "event_object_kind_as_str ObjTask = ''task''"
| "event_object_kind_as_str ObjProvider = ''provider''"
| "event_object_kind_as_str ObjPolicy = ''policy''"
| "event_object_kind_as_str ObjRuntime = ''runtime''"
| "event_object_kind_as_str ObjIndex = ''index''"
| "event_object_kind_as_str ObjArtifact = ''artifact''"
| "event_object_kind_as_str ObjHealth = ''health''"
| "event_object_kind_as_str ObjPrivilege = ''privilege''"
| "event_object_kind_as_str ObjProtectedApi = ''protected_api''"

definition event_object_kind_from_str :: "string \<Rightarrow> string + EventObjectKind" where
  "event_object_kind_from_str v = match_str
     [(''task'', ObjTask),
      (''provider'', ObjProvider),
      (''policy'', ObjPolicy),
      (''runtime'', ObjRuntime),
      (''index'', ObjIndex),
      (''artifact'', ObjArtifact),
      (''health'', ObjHealth),
      (''privilege'', ObjPrivilege),
      (''protected_api'', ObjProtectedApi)]
     (Err ''unknown EventObjectKind value'') v"

datatype AuditActorKind =
    ActorPrincipal
  | ActorSystem

fun audit_actor_kind_as_str :: "AuditActorKind \<Rightarrow> string" where
  "audit_actor_kind_as_str ActorPrincipal = ''principal''"
| "audit_actor_kind_as_str ActorSystem = ''system''"

definition audit_actor_kind_from_str :: "string \<Rightarrow> string + AuditActorKind" where
  "audit_actor_kind_from_str v = match_str
     [(''principal'', ActorPrincipal),
      (''system'', ActorSystem)]
     (Err ''unknown AuditActorKind value'') v"

datatype AuditDomain =
    DomainTask
  | DomainProvider
  | DomainPolicy
  | DomainRuntime
  | DomainIndex
  | DomainArtifact
  | DomainHealth
  | DomainPrivilege
  | DomainProtectedApi
  | DomainVisual

fun audit_domain_as_str :: "AuditDomain \<Rightarrow> string" where
  "audit_domain_as_str DomainTask = ''task''"
| "audit_domain_as_str DomainProvider = ''provider''"
| "audit_domain_as_str DomainPolicy = ''policy''"
| "audit_domain_as_str DomainRuntime = ''runtime''"
| "audit_domain_as_str DomainIndex = ''index''"
| "audit_domain_as_str DomainArtifact = ''artifact''"
| "audit_domain_as_str DomainHealth = ''health''"
| "audit_domain_as_str DomainPrivilege = ''privilege''"
| "audit_domain_as_str DomainProtectedApi = ''protected_api''"
| "audit_domain_as_str DomainVisual = ''visual''"

definition audit_domain_from_str :: "string \<Rightarrow> string + AuditDomain" where
  "audit_domain_from_str v = match_str
     [(''task'', DomainTask),
      (''provider'', DomainProvider),
      (''policy'', DomainPolicy),
      (''runtime'', DomainRuntime),
      (''index'', DomainIndex),
      (''artifact'', DomainArtifact),
      (''health'', DomainHealth),
      (''privilege'', DomainPrivilege),
      (''protected_api'', DomainProtectedApi),
      (''visual'', DomainVisual)]
     (Err ''unknown AuditDomain value'') v"

datatype AuditResult =
    AuditSucceeded
  | AuditFailed
  | AuditDenied
  | AuditApprovalRequired
  | AuditCancelled
  | AuditInterrupted

fun audit_result_as_str :: "AuditResult \<Rightarrow> string" where
  "audit_result_as_str AuditSucceeded = ''succeeded''"
| "audit_result_as_str AuditFailed = ''failed''"
| "audit_result_as_str AuditDenied = ''denied''"
| "audit_result_as_str AuditApprovalRequired = ''approval_required''"
| "audit_result_as_str AuditCancelled = ''cancelled''"
| "audit_result_as_str AuditInterrupted = ''interrupted''"

definition audit_result_from_str :: "string \<Rightarrow> string + AuditResult" where
  "audit_result_from_str v = match_str
     [(''succeeded'', AuditSucceeded),
      (''failed'', AuditFailed),
      (''denied'', AuditDenied),
      (''approval_required'', AuditApprovalRequired),
      (''cancelled'', AuditCancelled),
      (''interrupted'', AuditInterrupted)]
     (Err ''unknown AuditResult value'') v"

datatype TaskEventStreamFrameKind =
    FrameEvent
  | FrameEnd
  | FrameError

fun task_event_stream_frame_kind_as_str :: "TaskEventStreamFrameKind \<Rightarrow> string" where
  "task_event_stream_frame_kind_as_str FrameEvent = ''event''"
| "task_event_stream_frame_kind_as_str FrameEnd = ''end''"
| "task_event_stream_frame_kind_as_str FrameError = ''error''"

definition task_event_stream_frame_kind_from_str :: "string \<Rightarrow> string + TaskEventStreamFrameKind" where
  "task_event_stream_frame_kind_from_str v = match_str
     [(''event'', FrameEvent),
      (''end'', FrameEnd),
      (''error'', FrameError)]
     (Err ''unknown TaskEventStreamFrameKind value'') v"

datatype HealthComponentType =
    ComponentRuntime
  | ComponentState
  | ComponentIndex
  | ComponentIndexSource
  | ComponentProviderRegistry
  | ComponentProvider
  | ComponentPolicy
  | ComponentAudit
  | ComponentTaskRuntime
  | ComponentPrivilege
  | ComponentProtectedApi
  | ComponentStorage
  | ComponentMemory
  | ComponentService
  | ComponentCodex

fun health_component_type_as_str :: "HealthComponentType \<Rightarrow> string" where
  "health_component_type_as_str ComponentRuntime = ''runtime''"
| "health_component_type_as_str ComponentState = ''state''"
| "health_component_type_as_str ComponentIndex = ''index''"
| "health_component_type_as_str ComponentIndexSource = ''index_source''"
| "health_component_type_as_str ComponentProviderRegistry = ''provider_registry''"
| "health_component_type_as_str ComponentProvider = ''provider''"
| "health_component_type_as_str ComponentPolicy = ''policy''"
| "health_component_type_as_str ComponentAudit = ''audit''"
| "health_component_type_as_str ComponentTaskRuntime = ''task_runtime''"
| "health_component_type_as_str ComponentPrivilege = ''privilege''"
| "health_component_type_as_str ComponentProtectedApi = ''protected_api''"
| "health_component_type_as_str ComponentStorage = ''storage''"
| "health_component_type_as_str ComponentMemory = ''memory''"
| "health_component_type_as_str ComponentService = ''service''"
| "health_component_type_as_str ComponentCodex = ''codex''"

definition health_component_type_from_str :: "string \<Rightarrow> (string \<times> string) + HealthComponentType" where
  "health_component_type_from_str v = match_str
     [(''runtime'', ComponentRuntime),
      (''state'', ComponentState),
      (''index'', ComponentIndex),
      (''index_source'', ComponentIndexSource),
      (''provider_registry'', ComponentProviderRegistry),
      (''provider'', ComponentProvider),
      (''policy'', ComponentPolicy),
      (''audit'', ComponentAudit),
      (''task_runtime'', ComponentTaskRuntime),
      (''privilege'', ComponentPrivilege),
      (''protected_api'', ComponentProtectedApi),
      (''storage'', ComponentStorage),
      (''memory'', ComponentMemory),
      (''service'', ComponentService),
      (''codex'', ComponentCodex)]
     (Err (''health component type'', v)) v"

datatype HealthReasonCode =
    ReasonReady
  | ReasonStarting
  | ReasonStopping
  | ReasonNotProbed
  | ReasonStatusUnavailable
  | ReasonServiceNotRunning
  | ReasonServiceRestartExhausted
  | ReasonSocketUnavailable
  | ReasonIpcFailed
  | ReasonStateUnavailable
  | ReasonStateIntegrityFailed
  | ReasonSourceDisconnected
  | ReasonSourceStale
  | ReasonProviderDegraded
  | ReasonProviderUnavailable
  | ReasonUpstreamUnreachable
  | ReasonTlsFailure
  | ReasonPolicyUnavailable
  | ReasonAuditWriteFailed
  | ReasonResourceLow
  | ReasonResourceCritical
  | ReasonResourceUnavailable
  | ReasonReconciliationRequired
  | ReasonReconciliationFailed
  | ReasonRebuildRequired
  | ReasonRebuildFailed
  | ReasonConfigurationInvalid
  | ReasonIncompatible
  | ReasonRecoveryExhausted
  | ReasonManualRecoveryRequired

fun health_reason_code_as_str :: "HealthReasonCode \<Rightarrow> string" where
  "health_reason_code_as_str ReasonReady = ''ready''"
| "health_reason_code_as_str ReasonStarting = ''starting''"
| "health_reason_code_as_str ReasonStopping = ''stopping''"
| "health_reason_code_as_str ReasonNotProbed = ''not_probed''"
| "health_reason_code_as_str ReasonStatusUnavailable = ''status_unavailable''"
| "health_reason_code_as_str ReasonServiceNotRunning = ''service_not_running''"
| "health_reason_code_as_str ReasonServiceRestartExhausted = ''service_restart_exhausted''"
| "health_reason_code_as_str ReasonSocketUnavailable = ''socket_unavailable''"
| "health_reason_code_as_str ReasonIpcFailed = ''ipc_failed''"
| "health_reason_code_as_str ReasonStateUnavailable = ''state_unavailable''"
| "health_reason_code_as_str ReasonStateIntegrityFailed = ''state_integrity_failed''"
| "health_reason_code_as_str ReasonSourceDisconnected = ''source_disconnected''"
| "health_reason_code_as_str ReasonSourceStale = ''source_stale''"
| "health_reason_code_as_str ReasonProviderDegraded = ''provider_degraded''"
| "health_reason_code_as_str ReasonProviderUnavailable = ''provider_unavailable''"
| "health_reason_code_as_str ReasonUpstreamUnreachable = ''upstream_unreachable''"
| "health_reason_code_as_str ReasonTlsFailure = ''tls_failure''"
| "health_reason_code_as_str ReasonPolicyUnavailable = ''policy_unavailable''"
| "health_reason_code_as_str ReasonAuditWriteFailed = ''audit_write_failed''"
| "health_reason_code_as_str ReasonResourceLow = ''resource_low''"
| "health_reason_code_as_str ReasonResourceCritical = ''resource_critical''"
| "health_reason_code_as_str ReasonResourceUnavailable = ''resource_unavailable''"
| "health_reason_code_as_str ReasonReconciliationRequired = ''reconciliation_required''"
| "health_reason_code_as_str ReasonReconciliationFailed = ''reconciliation_failed''"
| "health_reason_code_as_str ReasonRebuildRequired = ''rebuild_required''"
| "health_reason_code_as_str ReasonRebuildFailed = ''rebuild_failed''"
| "health_reason_code_as_str ReasonConfigurationInvalid = ''configuration_invalid''"
| "health_reason_code_as_str ReasonIncompatible = ''incompatible''"
| "health_reason_code_as_str ReasonRecoveryExhausted = ''recovery_exhausted''"
| "health_reason_code_as_str ReasonManualRecoveryRequired = ''manual_recovery_required''"

definition health_reason_code_from_str :: "string \<Rightarrow> (string \<times> string) + HealthReasonCode" where
  "health_reason_code_from_str v = match_str
     [(''ready'', ReasonReady),
      (''starting'', ReasonStarting),
      (''stopping'', ReasonStopping),
      (''not_probed'', ReasonNotProbed),
      (''status_unavailable'', ReasonStatusUnavailable),
      (''service_not_running'', ReasonServiceNotRunning),
      (''service_restart_exhausted'', ReasonServiceRestartExhausted),
      (''socket_unavailable'', ReasonSocketUnavailable),
      (''ipc_failed'', ReasonIpcFailed),
      (''state_unavailable'', ReasonStateUnavailable),
      (''state_integrity_failed'', ReasonStateIntegrityFailed),
      (''source_disconnected'', ReasonSourceDisconnected),
      (''source_stale'', ReasonSourceStale),
      (''provider_degraded'', ReasonProviderDegraded),
      (''provider_unavailable'', ReasonProviderUnavailable),
      (''upstream_unreachable'', ReasonUpstreamUnreachable),
      (''tls_failure'', ReasonTlsFailure),
      (''policy_unavailable'', ReasonPolicyUnavailable),
      (''audit_write_failed'', ReasonAuditWriteFailed),
      (''resource_low'', ReasonResourceLow),
      (''resource_critical'', ReasonResourceCritical),
      (''resource_unavailable'', ReasonResourceUnavailable),
      (''reconciliation_required'', ReasonReconciliationRequired),
      (''reconciliation_failed'', ReasonReconciliationFailed),
      (''rebuild_required'', ReasonRebuildRequired),
      (''rebuild_failed'', ReasonRebuildFailed),
      (''configuration_invalid'', ReasonConfigurationInvalid),
      (''incompatible'', ReasonIncompatible),
      (''recovery_exhausted'', ReasonRecoveryExhausted),
      (''manual_recovery_required'', ReasonManualRecoveryRequired)]
     (Err (''health reason code'', v)) v"

datatype RecoveryActionKind =
    ActionProbe
  | ActionReconcile
  | ActionRestart
  | ActionRepair

fun recovery_action_kind_as_str :: "RecoveryActionKind \<Rightarrow> string" where
  "recovery_action_kind_as_str ActionProbe = ''probe''"
| "recovery_action_kind_as_str ActionReconcile = ''reconcile''"
| "recovery_action_kind_as_str ActionRestart = ''restart''"
| "recovery_action_kind_as_str ActionRepair = ''repair''"

definition recovery_action_kind_from_str :: "string \<Rightarrow> (string \<times> string) + RecoveryActionKind" where
  "recovery_action_kind_from_str v = match_str
     [(''probe'', ActionProbe),
      (''reconcile'', ActionReconcile),
      (''restart'', ActionRestart),
      (''repair'', ActionRepair)]
     (Err (''recovery action kind'', v)) v"

datatype RecoveryAttemptOutcome =
    AttemptSucceeded
  | AttemptFailed
  | AttemptExhausted
  | AttemptSkipped

fun recovery_attempt_outcome_as_str :: "RecoveryAttemptOutcome \<Rightarrow> string" where
  "recovery_attempt_outcome_as_str AttemptSucceeded = ''succeeded''"
| "recovery_attempt_outcome_as_str AttemptFailed = ''failed''"
| "recovery_attempt_outcome_as_str AttemptExhausted = ''exhausted''"
| "recovery_attempt_outcome_as_str AttemptSkipped = ''skipped''"

definition recovery_attempt_outcome_from_str :: "string \<Rightarrow> (string \<times> string) + RecoveryAttemptOutcome" where
  "recovery_attempt_outcome_from_str v = match_str
     [(''succeeded'', AttemptSucceeded),
      (''failed'', AttemptFailed),
      (''exhausted'', AttemptExhausted),
      (''skipped'', AttemptSkipped)]
     (Err (''recovery attempt outcome'', v)) v"

datatype HealthState =
    Healthy
  | Degraded
  | Unavailable
  | Unknown

fun health_state_as_str :: "HealthState \<Rightarrow> string" where
  "health_state_as_str Healthy = ''healthy''"
| "health_state_as_str Degraded = ''degraded''"
| "health_state_as_str Unavailable = ''unavailable''"
| "health_state_as_str Unknown = ''unknown''"

datatype RecoveryDisposition =
    DisposeObserve
  | DisposeReconcile
  | DisposeRestart
  | DisposeRepair
  | DisposeAdministratorRequired
  | DisposeTerminal

fun recovery_disposition_as_str :: "RecoveryDisposition \<Rightarrow> string" where
  "recovery_disposition_as_str DisposeObserve = ''observe''"
| "recovery_disposition_as_str DisposeReconcile = ''reconcile''"
| "recovery_disposition_as_str DisposeRestart = ''restart''"
| "recovery_disposition_as_str DisposeRepair = ''repair''"
| "recovery_disposition_as_str DisposeAdministratorRequired = ''administrator_required''"
| "recovery_disposition_as_str DisposeTerminal = ''terminal''"

datatype SemanticErrorCode =
    CodeInvalidArgument
  | CodeInvalidRequest
  | CodeUnsupportedOutputMode
  | CodeDaemonUnavailable
  | CodeProtocolError
  | CodeIncompatibleProtocol
  | CodeNotFound
  | CodeStaleResource
  | CodePreconditionFailed
  | CodeConflict
  | CodePermissionDenied
  | CodeApprovalRequired
  | CodeUnavailable
  | CodeProviderUnavailable
  | CodeSourceUnavailable
  | CodeUnsupported
  | CodeTimeout
  | CodeCancelled
  | CodeInterrupted
  | CodeInternal

fun semantic_error_code_as_str :: "SemanticErrorCode \<Rightarrow> string" where
  "semantic_error_code_as_str CodeInvalidArgument = ''invalid_argument''"
| "semantic_error_code_as_str CodeInvalidRequest = ''invalid_request''"
| "semantic_error_code_as_str CodeUnsupportedOutputMode = ''unsupported_output_mode''"
| "semantic_error_code_as_str CodeDaemonUnavailable = ''daemon_unavailable''"
| "semantic_error_code_as_str CodeProtocolError = ''protocol_error''"
| "semantic_error_code_as_str CodeIncompatibleProtocol = ''incompatible_protocol''"
| "semantic_error_code_as_str CodeNotFound = ''not_found''"
| "semantic_error_code_as_str CodeStaleResource = ''stale_resource''"
| "semantic_error_code_as_str CodePreconditionFailed = ''precondition_failed''"
| "semantic_error_code_as_str CodeConflict = ''conflict''"
| "semantic_error_code_as_str CodePermissionDenied = ''permission_denied''"
| "semantic_error_code_as_str CodeApprovalRequired = ''approval_required''"
| "semantic_error_code_as_str CodeUnavailable = ''unavailable''"
| "semantic_error_code_as_str CodeProviderUnavailable = ''provider_unavailable''"
| "semantic_error_code_as_str CodeSourceUnavailable = ''source_unavailable''"
| "semantic_error_code_as_str CodeUnsupported = ''unsupported''"
| "semantic_error_code_as_str CodeTimeout = ''timeout''"
| "semantic_error_code_as_str CodeCancelled = ''cancelled''"
| "semantic_error_code_as_str CodeInterrupted = ''interrupted''"
| "semantic_error_code_as_str CodeInternal = ''internal''"

subsection \<open>Printer and parser agree\<close>

locale string_enum =
  fixes as_str :: "'a \<Rightarrow> string"
    and from_str :: "string \<Rightarrow> 'e + 'a"
  assumes from_as: "from_str (as_str x) = Ok x"
    and from_sound: "from_str s = Ok x \<Longrightarrow> as_str x = s"
begin

lemma as_str_inject: "as_str x = as_str y \<longleftrightarrow> x = y"
  by (metis from_as sum.inject(2))

lemma from_str_iff: "from_str s = Ok x \<longleftrightarrow> s = as_str x"
  using from_as from_sound by blast

lemma from_str_rejects: "(\<exists>e. from_str s = Err e) \<longleftrightarrow> s \<notin> range as_str"
  by (cases "from_str s") (auto simp: from_as dest: from_sound)

end

interpretation task_state: string_enum task_state_as_str task_state_from_str
proof unfold_locales
  fix x show "task_state_from_str (task_state_as_str x) = Ok x"
    by (cases x) (simp_all add: task_state_from_str_def)
next
  fix s x assume "task_state_from_str s = Ok x"
  then show "task_state_as_str x = s"
    by (auto simp: task_state_from_str_def split: if_splits)
qed

interpretation waiting_reason: string_enum waiting_reason_as_str waiting_reason_from_str
proof unfold_locales
  fix x show "waiting_reason_from_str (waiting_reason_as_str x) = Ok x"
    by (cases x) (simp_all add: waiting_reason_from_str_def)
next
  fix s x assume "waiting_reason_from_str s = Ok x"
  then show "waiting_reason_as_str x = s"
    by (auto simp: waiting_reason_from_str_def split: if_splits)
qed

interpretation execution_relationship_mode: string_enum execution_relationship_mode_as_str execution_relationship_mode_from_str
proof unfold_locales
  fix x show "execution_relationship_mode_from_str (execution_relationship_mode_as_str x) = Ok x"
    by (cases x) (simp_all add: execution_relationship_mode_from_str_def)
next
  fix s x assume "execution_relationship_mode_from_str s = Ok x"
  then show "execution_relationship_mode_as_str x = s"
    by (auto simp: execution_relationship_mode_from_str_def split: if_splits)
qed

interpretation task_backend_kind: string_enum task_backend_kind_as_str task_backend_kind_from_str
proof unfold_locales
  fix x show "task_backend_kind_from_str (task_backend_kind_as_str x) = Ok x"
    by (cases x) (simp_all add: task_backend_kind_from_str_def)
next
  fix s x assume "task_backend_kind_from_str s = Ok x"
  then show "task_backend_kind_as_str x = s"
    by (auto simp: task_backend_kind_from_str_def split: if_splits)
qed

interpretation execution_relationship_status: string_enum execution_relationship_status_as_str execution_relationship_status_from_str
proof unfold_locales
  fix x show "execution_relationship_status_from_str (execution_relationship_status_as_str x) = Ok x"
    by (cases x) (simp_all add: execution_relationship_status_from_str_def)
next
  fix s x assume "execution_relationship_status_from_str s = Ok x"
  then show "execution_relationship_status_as_str x = s"
    by (auto simp: execution_relationship_status_from_str_def split: if_splits)
qed

interpretation retry_safety: string_enum retry_safety_as_str retry_safety_from_str
proof unfold_locales
  fix x show "retry_safety_from_str (retry_safety_as_str x) = Ok x"
    by (cases x) (simp_all add: retry_safety_from_str_def)
next
  fix s x assume "retry_safety_from_str s = Ok x"
  then show "retry_safety_as_str x = s"
    by (auto simp: retry_safety_from_str_def split: if_splits)
qed

interpretation task_result_kind: string_enum task_result_kind_as_str task_result_kind_from_str
proof unfold_locales
  fix x show "task_result_kind_from_str (task_result_kind_as_str x) = Ok x"
    by (cases x) (simp_all add: task_result_kind_from_str_def)
next
  fix s x assume "task_result_kind_from_str s = Ok x"
  then show "task_result_kind_as_str x = s"
    by (auto simp: task_result_kind_from_str_def split: if_splits)
qed

interpretation policy_effect: string_enum policy_effect_as_str policy_effect_from_str
proof unfold_locales
  fix x show "policy_effect_from_str (policy_effect_as_str x) = Ok x"
    by (cases x) (simp_all add: policy_effect_from_str_def)
next
  fix s x assume "policy_effect_from_str s = Ok x"
  then show "policy_effect_as_str x = s"
    by (auto simp: policy_effect_from_str_def split: if_splits)
qed

interpretation policy_enforcement_class: string_enum policy_enforcement_class_as_str policy_enforcement_class_from_str
proof unfold_locales
  fix x show "policy_enforcement_class_from_str (policy_enforcement_class_as_str x) = Ok x"
    by (cases x) (simp_all add: policy_enforcement_class_from_str_def)
next
  fix s x assume "policy_enforcement_class_from_str s = Ok x"
  then show "policy_enforcement_class_as_str x = s"
    by (auto simp: policy_enforcement_class_from_str_def split: if_splits)
qed

interpretation event_object_kind: string_enum event_object_kind_as_str event_object_kind_from_str
proof unfold_locales
  fix x show "event_object_kind_from_str (event_object_kind_as_str x) = Ok x"
    by (cases x) (simp_all add: event_object_kind_from_str_def)
next
  fix s x assume "event_object_kind_from_str s = Ok x"
  then show "event_object_kind_as_str x = s"
    by (auto simp: event_object_kind_from_str_def split: if_splits)
qed

interpretation audit_actor_kind: string_enum audit_actor_kind_as_str audit_actor_kind_from_str
proof unfold_locales
  fix x show "audit_actor_kind_from_str (audit_actor_kind_as_str x) = Ok x"
    by (cases x) (simp_all add: audit_actor_kind_from_str_def)
next
  fix s x assume "audit_actor_kind_from_str s = Ok x"
  then show "audit_actor_kind_as_str x = s"
    by (auto simp: audit_actor_kind_from_str_def split: if_splits)
qed

interpretation audit_domain: string_enum audit_domain_as_str audit_domain_from_str
proof unfold_locales
  fix x show "audit_domain_from_str (audit_domain_as_str x) = Ok x"
    by (cases x) (simp_all add: audit_domain_from_str_def)
next
  fix s x assume "audit_domain_from_str s = Ok x"
  then show "audit_domain_as_str x = s"
    by (auto simp: audit_domain_from_str_def split: if_splits)
qed

interpretation audit_result: string_enum audit_result_as_str audit_result_from_str
proof unfold_locales
  fix x show "audit_result_from_str (audit_result_as_str x) = Ok x"
    by (cases x) (simp_all add: audit_result_from_str_def)
next
  fix s x assume "audit_result_from_str s = Ok x"
  then show "audit_result_as_str x = s"
    by (auto simp: audit_result_from_str_def split: if_splits)
qed

interpretation task_event_stream_frame_kind: string_enum task_event_stream_frame_kind_as_str task_event_stream_frame_kind_from_str
proof unfold_locales
  fix x show "task_event_stream_frame_kind_from_str (task_event_stream_frame_kind_as_str x) = Ok x"
    by (cases x) (simp_all add: task_event_stream_frame_kind_from_str_def)
next
  fix s x assume "task_event_stream_frame_kind_from_str s = Ok x"
  then show "task_event_stream_frame_kind_as_str x = s"
    by (auto simp: task_event_stream_frame_kind_from_str_def split: if_splits)
qed

interpretation health_component_type: string_enum health_component_type_as_str health_component_type_from_str
proof unfold_locales
  fix x show "health_component_type_from_str (health_component_type_as_str x) = Ok x"
    by (cases x) (simp_all add: health_component_type_from_str_def)
next
  fix s x assume "health_component_type_from_str s = Ok x"
  then show "health_component_type_as_str x = s"
    by (auto simp: health_component_type_from_str_def split: if_splits)
qed

interpretation health_reason_code: string_enum health_reason_code_as_str health_reason_code_from_str
proof unfold_locales
  fix x show "health_reason_code_from_str (health_reason_code_as_str x) = Ok x"
    by (cases x) (simp_all add: health_reason_code_from_str_def)
next
  fix s x assume "health_reason_code_from_str s = Ok x"
  then show "health_reason_code_as_str x = s"
    by (auto simp: health_reason_code_from_str_def split: if_splits)
qed

interpretation recovery_action_kind: string_enum recovery_action_kind_as_str recovery_action_kind_from_str
proof unfold_locales
  fix x show "recovery_action_kind_from_str (recovery_action_kind_as_str x) = Ok x"
    by (cases x) (simp_all add: recovery_action_kind_from_str_def)
next
  fix s x assume "recovery_action_kind_from_str s = Ok x"
  then show "recovery_action_kind_as_str x = s"
    by (auto simp: recovery_action_kind_from_str_def split: if_splits)
qed

interpretation recovery_attempt_outcome: string_enum recovery_attempt_outcome_as_str recovery_attempt_outcome_from_str
proof unfold_locales
  fix x show "recovery_attempt_outcome_from_str (recovery_attempt_outcome_as_str x) = Ok x"
    by (cases x) (simp_all add: recovery_attempt_outcome_from_str_def)
next
  fix s x assume "recovery_attempt_outcome_from_str s = Ok x"
  then show "recovery_attempt_outcome_as_str x = s"
    by (auto simp: recovery_attempt_outcome_from_str_def split: if_splits)
qed

end
