(* ===== verification/Protocol.thy ===== *)
theory Protocol
  imports Protocol_Enums
begin

section \<open>The shared protocol: principals, errors, envelopes, pages, frames\<close>

text \<open>
  \<^verbatim>\<open>portus-protocol/src/{principal,semantics,wire,pagination,ids,event}.rs\<close>: the types every daemon
  and client exchange, with their constructors and validators. A \<open>serde_json::Value\<close> is the
  datatype \<open>json\<close>; the text encoder and the typed decoder of \<open>serde_json\<close> are parameters of the
  definitions that call them. An identifier (\<open>TaskId\<close>, \<open>RequestId\<close>, ...) is represented by
  its canonical text, which \<open>Display\<close> prints; the section on identifiers gives the parser the source
  runs on such text, over the \<open>uuid\<close> crate's parser, printer and version as parameters.
\<close>

subsection \<open>JSON values\<close>

datatype json_number = PosInt u64 | NegInt int | Float u64

datatype json =
    JNull
  | JBool bool
  | JNumber json_number
  | JString string
  | JArray "json list"
  | JObject "(string \<times> json) list"

definition json_empty_object :: json where
  "json_empty_object = JObject []"

fun json_get :: "json \<Rightarrow> string \<Rightarrow> json option" where
  "json_get (JObject fields) key = map_of fields key"
| "json_get _ key = None"

fun json_as_str :: "json \<Rightarrow> string option" where
  "json_as_str (JString s) = Some s"
| "json_as_str _ = None"

fun json_as_u64 :: "json \<Rightarrow> u64 option" where
  "json_as_u64 (JNumber (PosInt n)) = Some n"
| "json_as_u64 _ = None"

subsection \<open>Principals\<close>

record Principal =
  uid :: u32
  gid :: u32

definition principal_new :: "u32 \<Rightarrow> u32 \<Rightarrow> Principal" where
  "principal_new u g = \<lparr>uid = u, gid = g\<rparr>"

definition is_root :: "Principal \<Rightarrow> bool" where
  "is_root p \<longleftrightarrow> uid p = 0"

subsection \<open>Semantic errors and exit codes\<close>

fun exit_code :: "SemanticErrorCode \<Rightarrow> u8" where
  "exit_code CodeInvalidArgument = 2"
| "exit_code CodeInvalidRequest = 2"
| "exit_code CodeUnsupportedOutputMode = 2"
| "exit_code CodeDaemonUnavailable = 3"
| "exit_code CodeProtocolError = 3"
| "exit_code CodeIncompatibleProtocol = 3"
| "exit_code CodeNotFound = 4"
| "exit_code CodePermissionDenied = 5"
| "exit_code CodeApprovalRequired = 5"
| "exit_code CodeStaleResource = 6"
| "exit_code CodePreconditionFailed = 6"
| "exit_code CodeConflict = 6"
| "exit_code CodeUnavailable = 7"
| "exit_code CodeProviderUnavailable = 7"
| "exit_code CodeSourceUnavailable = 7"
| "exit_code CodeUnsupported = 7"
| "exit_code CodeTimeout = 8"
| "exit_code CodeCancelled = 9"
| "exit_code CodeInterrupted = 9"
| "exit_code CodeInternal = 10"

record SemanticError =
  se_code :: SemanticErrorCode
  se_message :: string
  se_retryable :: bool
  se_details :: "(string, json) btree"

definition semantic_error_new :: "SemanticErrorCode \<Rightarrow> string \<Rightarrow> SemanticError" where
  "semantic_error_new code message =
     \<lparr>se_code = code, se_message = message, se_retryable = False, se_details = bt_empty\<rparr>"

definition semantic_error_retryable :: "SemanticError \<Rightarrow> bool \<Rightarrow> SemanticError" where
  "semantic_error_retryable e r = e\<lparr>se_retryable := r\<rparr>"

definition semantic_error_with_detail :: "SemanticError \<Rightarrow> string \<Rightarrow> json \<Rightarrow> SemanticError" where
  "semantic_error_with_detail e key v = e\<lparr>se_details := bt_insert key v (se_details e)\<rparr>"

subsection \<open>Envelopes\<close>

type_synonym RequestId = string
type_synonym ProtocolVersion = u32

definition CURRENT_PROTOCOL_VERSION :: ProtocolVersion where
  "CURRENT_PROTOCOL_VERSION = 1"

datatype ProtocolError =
    IncompatibleVersion ProtocolVersion ProtocolVersion
  | EmptyMethod
  | InvalidResponseShape

fun protocol_error_semantic_code :: "ProtocolError \<Rightarrow> SemanticErrorCode" where
  "protocol_error_semantic_code (IncompatibleVersion _ _) = CodeIncompatibleProtocol"
| "protocol_error_semantic_code EmptyMethod = CodeProtocolError"
| "protocol_error_semantic_code InvalidResponseShape = CodeProtocolError"

fun protocol_error_to_string :: "ProtocolError \<Rightarrow> string" where
  "protocol_error_to_string (IncompatibleVersion expected received) =
     ''incompatible protocol version: expected '' @ show_word expected @
     '', received '' @ show_word received"
| "protocol_error_to_string EmptyMethod = ''runtime request method must not be empty''"
| "protocol_error_to_string InvalidResponseShape =
     ''runtime response must contain exactly one success result or error''"

definition ensure_compatible :: "ProtocolVersion \<Rightarrow> ProtocolError + unit" where
  "ensure_compatible v =
     (if v = CURRENT_PROTOCOL_VERSION then Ok ()
      else Err (IncompatibleVersion CURRENT_PROTOCOL_VERSION v))"

record 'p RequestEnvelope =
  rq_version :: ProtocolVersion
  rq_request_id :: RequestId
  rq_method :: string
  rq_params :: 'p

definition request_new :: "RequestId \<Rightarrow> string \<Rightarrow> 'p \<Rightarrow> 'p RequestEnvelope" where
  "request_new fresh_id meth params =
     \<lparr>rq_version = CURRENT_PROTOCOL_VERSION, rq_request_id = fresh_id,
      rq_method = meth, rq_params = params\<rparr>"

definition request_validate :: "'p RequestEnvelope \<Rightarrow> ProtocolError + unit" where
  "request_validate r =
     and_then (ensure_compatible (rq_version r)) (\<lambda>_.
       if rq_method r = [] then Err EmptyMethod else Ok ())"

record 't ResponseEnvelope =
  rs_version :: ProtocolVersion
  rs_request_id :: RequestId
  rs_ok :: bool
  rs_result :: "'t option"
  rs_error :: "SemanticError option"

definition response_success :: "RequestId \<Rightarrow> 't \<Rightarrow> 't ResponseEnvelope" where
  "response_success request_id res =
     \<lparr>rs_version = CURRENT_PROTOCOL_VERSION, rs_request_id = request_id, rs_ok = True,
      rs_result = Some res, rs_error = None\<rparr>"

definition response_failure :: "RequestId \<Rightarrow> SemanticError \<Rightarrow> 't ResponseEnvelope" where
  "response_failure request_id err =
     \<lparr>rs_version = CURRENT_PROTOCOL_VERSION, rs_request_id = request_id, rs_ok = False,
      rs_result = None, rs_error = Some err\<rparr>"

definition response_validate :: "'t ResponseEnvelope \<Rightarrow> ProtocolError + unit" where
  "response_validate r =
     and_then (ensure_compatible (rs_version r)) (\<lambda>_.
       case (rs_ok r, rs_result r \<noteq> None, rs_error r \<noteq> None) of
         (True, True, False) \<Rightarrow> Ok ()
       | (False, False, True) \<Rightarrow> Ok ()
       | _ \<Rightarrow> Err InvalidResponseShape)"

subsection \<open>Pagination\<close>

datatype PaginationError = EmptyCursor | ZeroLimit

definition opaque_cursor_new :: "string \<Rightarrow> PaginationError + string" where
  "opaque_cursor_new v = (if v = [] then Err EmptyCursor else Ok v)"

definition page_limit_new :: "u32 \<Rightarrow> PaginationError + u32" where
  "page_limit_new v = (if v = 0 then Err ZeroLimit else Ok v)"

record PageRequest =
  pr_limit :: u32
  pr_cursor :: "string option"

subsection \<open>Identifiers\<close>

datatype IdParseError =
    InvalidPrefix string
  | InvalidUuid
  | WrongUuidVersion u8 "nat option"

definition strip_prefix_str :: "string \<Rightarrow> string \<Rightarrow> string option" where
  "strip_prefix_str p s = (if prefix p s then Some (drop (length p) s) else None)"

definition parse_prefixed_uuid ::
  "(string \<Rightarrow> 'u option) \<Rightarrow> ('u \<Rightarrow> nat) \<Rightarrow> string \<Rightarrow> string \<Rightarrow> IdParseError + 'u" where
  "parse_prefixed_uuid parse_str get_version_num v p =
     and_then (ok_or (strip_prefix_str p v) (InvalidPrefix p)) (\<lambda>raw.
     and_then (ok_or (parse_str raw) InvalidUuid) (\<lambda>uuid.
       let version = get_version_num uuid in
       if version \<noteq> 7 then Err (WrongUuidVersion 7 (Some version)) else Ok uuid))"

definition display_prefixed_uuid :: "('u \<Rightarrow> string) \<Rightarrow> string \<Rightarrow> 'u \<Rightarrow> string" where
  "display_prefixed_uuid display p u = p @ display u"

subsection \<open>Audit records\<close>

type_synonym TaskId = string

record AuditActor =
  actor_kind :: AuditActorKind
  actor_principal :: "Principal option"

definition audit_actor_principal :: "Principal \<Rightarrow> AuditActor" where
  "audit_actor_principal p = \<lparr>actor_kind = ActorPrincipal, actor_principal = Some p\<rparr>"

definition audit_actor_system :: AuditActor where
  "audit_actor_system = \<lparr>actor_kind = ActorSystem, actor_principal = None\<rparr>"

definition audit_actor_is_valid :: "AuditActor \<Rightarrow> bool" where
  "audit_actor_is_valid a =
     (case (actor_kind a, actor_principal a) of
        (ActorPrincipal, Some _) \<Rightarrow> True
      | (ActorSystem, None) \<Rightarrow> True
      | _ \<Rightarrow> False)"

record AuditRecord =
  ar_schema_version :: u32
  ar_actor :: AuditActor
  ar_domain :: AuditDomain
  ar_action :: string
  ar_result :: AuditResult
  ar_reason_code :: string
  ar_target_ref :: "string option"
  ar_task_id :: "TaskId option"
  ar_request_id :: "RequestId option"
  ar_occurred_at_ms :: int

definition AUDIT_SCHEMA_VERSION :: u32 where
  "AUDIT_SCHEMA_VERSION = 1"

definition audit_record_new ::
  "AuditActor \<Rightarrow> AuditDomain \<Rightarrow> string \<Rightarrow> AuditResult \<Rightarrow> string \<Rightarrow> int \<Rightarrow> AuditRecord" where
  "audit_record_new actor domain act res reason occurred =
     \<lparr>ar_schema_version = AUDIT_SCHEMA_VERSION, ar_actor = actor, ar_domain = domain,
      ar_action = act, ar_result = res, ar_reason_code = reason, ar_target_ref = None,
      ar_task_id = None, ar_request_id = None, ar_occurred_at_ms = occurred\<rparr>"

subsection \<open>Task events and their stream frames\<close>

record TaskEvent =
  te_task_id :: TaskId
  te_sequence :: nat
  te_event_kind :: string
  te_source_ref :: "string option"
  te_safe_summary :: "string option"
  te_safe_data :: json
  te_occurred_at_ms :: int

record TaskEventStreamFrame =
  fr_version :: ProtocolVersion
  fr_request_id :: RequestId
  fr_stream :: string
  fr_frame :: TaskEventStreamFrameKind
  fr_event :: "TaskEvent option"
  fr_terminal_state :: "string option"
  fr_error :: "SemanticError option"

definition frame_event :: "RequestId \<Rightarrow> TaskEvent \<Rightarrow> TaskEventStreamFrame" where
  "frame_event request_id ev =
     \<lparr>fr_version = CURRENT_PROTOCOL_VERSION, fr_request_id = request_id,
      fr_stream = ''task.events'', fr_frame = FrameEvent, fr_event = Some ev,
      fr_terminal_state = None, fr_error = None\<rparr>"

definition frame_end :: "RequestId \<Rightarrow> string \<Rightarrow> TaskEventStreamFrame" where
  "frame_end request_id terminal_state =
     \<lparr>fr_version = CURRENT_PROTOCOL_VERSION, fr_request_id = request_id,
      fr_stream = ''task.events'', fr_frame = FrameEnd, fr_event = None,
      fr_terminal_state = Some terminal_state, fr_error = None\<rparr>"

definition frame_error :: "RequestId \<Rightarrow> SemanticError \<Rightarrow> TaskEventStreamFrame" where
  "frame_error request_id err =
     \<lparr>fr_version = CURRENT_PROTOCOL_VERSION, fr_request_id = request_id,
      fr_stream = ''task.events'', fr_frame = FrameError, fr_event = None,
      fr_terminal_state = None, fr_error = Some err\<rparr>"

definition frame_validate :: "TaskEventStreamFrame \<Rightarrow> string + unit" where
  "frame_validate f =
     and_then (map_err (\<lambda>_. ''incompatible stream protocol version'')
       (ensure_compatible (fr_version f))) (\<lambda>_.
     if fr_stream f \<noteq> ''task.events'' then Err ''unexpected stream identifier''
     else case (fr_frame f, fr_event f \<noteq> None, fr_terminal_state f \<noteq> None, fr_error f \<noteq> None) of
         (FrameEvent, True, False, False) \<Rightarrow> Ok ()
       | (FrameEnd, False, True, False) \<Rightarrow> Ok ()
       | (FrameError, False, False, True) \<Rightarrow> Ok ()
       | _ \<Rightarrow> Err ''invalid task event stream frame shape'')"

subsection \<open>Facts about the envelopes\<close>

lemma ensure_compatible_Ok [result_simps]:
  "ensure_compatible v = Ok u \<longleftrightarrow> v = CURRENT_PROTOCOL_VERSION"
  by (simp add: ensure_compatible_def)

lemma response_validate_success [simp]: "response_validate (response_success i x) = Ok ()"
  by (simp add: response_validate_def response_success_def ensure_compatible_def)

lemma response_validate_failure [simp]: "response_validate (response_failure i e) = Ok ()"
  by (simp add: response_validate_def response_failure_def ensure_compatible_def)

lemma response_validate_Ok_iff:
  "response_validate r = Ok u \<longleftrightarrow>
     rs_version r = CURRENT_PROTOCOL_VERSION \<and>
     ((\<exists>x. r = response_success (rs_request_id r) x) \<or>
      (\<exists>e. r = response_failure (rs_request_id r) e))"
  by (cases r)
    (auto simp: response_validate_def response_success_def response_failure_def result_simps
      split: bool.splits)

lemma frame_validate_Ok_iff:
  "frame_validate f = Ok u \<longleftrightarrow>
     (\<exists>i. (\<exists>ev. f = frame_event i ev) \<or> (\<exists>t. f = frame_end i t) \<or> (\<exists>e. f = frame_error i e))"
  by (cases f, cases "fr_frame f")
    (auto simp: frame_validate_def frame_event_def frame_end_def frame_error_def result_simps
      ensure_compatible_def split: bool.splits if_splits)

lemma parse_display_prefixed:
  assumes "parse_str (display u) = Some u" and "get_version_num u = 7"
  shows "parse_prefixed_uuid parse_str get_version_num (display_prefixed_uuid display p u) p = Ok u"
  using assms
  by (simp add: parse_prefixed_uuid_def display_prefixed_uuid_def strip_prefix_str_def)

lemma audit_actor_valid_iff:
  "audit_actor_is_valid a \<longleftrightarrow> (actor_kind a = ActorPrincipal) = (actor_principal a \<noteq> None)"
  by (cases "actor_kind a"; cases "actor_principal a") (simp_all add: audit_actor_is_valid_def)

end
