(* ===== verification/Policy.thy ===== *)
theory Policy
  imports Protocol
begin

section \<open>Administrator policy: documents, validation, resolution\<close>

text \<open>
  \<^verbatim>\<open>portus-policy/src/{model,snapshot,mutation}.rs\<close>. Four kinds of declarative documents (global policy,
  action registry, bundles, subjects) are validated into a \<open>PolicySnapshot\<close>; \<open>evaluate\<close>
  answers one request of one principal from it, and \<open>apply_admin_mutation\<close> edits one subject.
  The maps are ordered maps of the prelude; the loops are \<open>try_each\<close>, \<open>try_fold\<close>,
  \<open>bt_collect\<close> or recursion with the loop's local set as an argument.

  The lemmas after the definitions characterise each validator, establish the snapshot invariant
  \<open>snapshot_wf\<close>, and relate resolution to \<open>spec_effect\<close>, the declarative reading of a policy.
\<close>

subsection \<open>Documents (model.rs)\<close>

definition POLICY_VERSION :: u32 where "POLICY_VERSION = 1"
definition MAX_ACTIONS :: nat where "MAX_ACTIONS = 128"
definition MAX_BUNDLES :: nat where "MAX_BUNDLES = 32"
definition MAX_SUBJECTS :: nat where "MAX_SUBJECTS = 1024"
definition MAX_GRANTS :: nat where "MAX_GRANTS = 256"
definition MAX_RESOURCES_PER_GRANT :: nat where "MAX_RESOURCES_PER_GRANT = 128"
definition MAX_ID_BYTES :: nat where "MAX_ID_BYTES = 96"
definition MAX_LABEL_BYTES :: nat where "MAX_LABEL_BYTES = 128"
definition MAX_RESOURCE_BYTES :: nat where "MAX_RESOURCE_BYTES = 256"

lemmas policy_limits =
  POLICY_VERSION_def MAX_ACTIONS_def MAX_BUNDLES_def MAX_SUBJECTS_def MAX_GRANTS_def
  MAX_RESOURCES_PER_GRANT_def MAX_ID_BYTES_def MAX_LABEL_BYTES_def MAX_RESOURCE_BYTES_def

datatype PolicyError =
    PolicyIo
  | PolicyParse string
  | PolicyInvalid string
  | PolicyUnsupportedPlatform
  | PolicyPermission string

record GlobalPolicy =
  gp_policy_version :: u32
  gp_default_effect :: PolicyEffect

record ActionDefinition =
  ad_id :: string
  ad_label :: string
  ad_class :: PolicyEnforcementClass
  ad_resource_kind :: "string option"
  ad_resource_required :: bool
  ad_root_equivalent :: bool

record ActionRegistry =
  reg_policy_version :: u32
  reg_actions :: "ActionDefinition list"

record GrantDefinition =
  gd_action :: string
  gd_effect :: PolicyEffect
  gd_resources :: "string list"

record BundleDefinition =
  bd_policy_version :: u32
  bd_id :: string
  bd_label :: string
  bd_broad_default :: bool
  bd_grants :: "GrantDefinition list"

record BundleSelection =
  bs_id :: string
  bs_enabled :: bool

record SubjectPolicy =
  sp_policy_version :: u32
  sp_uid :: u32
  sp_label :: "string option"
  sp_bundles :: "BundleSelection list"
  sp_grants :: "GrantDefinition list"

definition subject_empty :: "u32 \<Rightarrow> SubjectPolicy" where
  "subject_empty u =
     \<lparr>sp_policy_version = POLICY_VERSION, sp_uid = u, sp_label = None, sp_bundles = [],
      sp_grants = []\<rparr>"

definition identifier_byte :: "char \<Rightarrow> bool" where
  "identifier_byte c \<longleftrightarrow>
     is_ascii_lowercase c \<or> is_ascii_digit c \<or> c \<in> {CHR ''.'', CHR ''-'', CHR ''_''}"

definition validate_identifier :: "string \<Rightarrow> string \<Rightarrow> PolicyError + unit" where
  "validate_identifier v field =
     (if v = [] \<or> MAX_ID_BYTES < length v \<or> \<not> list_all identifier_byte v
      then Err (PolicyInvalid (field @ '' is invalid'')) else Ok ())"

definition validate_resource :: "string \<Rightarrow> PolicyError + unit" where
  "validate_resource v =
     (if v = [] \<or> MAX_RESOURCE_BYTES < length v \<or> contains_char v line_breaks
      then Err (PolicyInvalid ''resource identifier is invalid'') else Ok ())"

definition check_action :: "ActionDefinition \<Rightarrow> PolicyError + unit" where
  "check_action a =
     and_then (validate_identifier (ad_id a) ''action id'') (\<lambda>_.
     if ad_label a = [] \<or> MAX_LABEL_BYTES < length (ad_label a)
     then Err (PolicyInvalid ''action label is invalid'')
     else if ad_resource_required a \<and> ad_resource_kind a = None
     then Err (PolicyInvalid ''resource-required action lacks resource kind'')
     else if ad_root_equivalent a \<noteq> (ad_class a = RootEquivalent)
     then Err (PolicyInvalid ''root-equivalent action classification is inconsistent'')
     else Ok ())"

definition action_map ::
  "ActionRegistry \<Rightarrow> PolicyError + (string, ActionDefinition) btree" where
  "action_map registry =
     (if reg_policy_version registry \<noteq> POLICY_VERSION
        \<or> MAX_ACTIONS < length (reg_actions registry)
      then Err (PolicyInvalid ''action registry version/count is invalid'')
      else bt_collect ad_id check_action (PolicyInvalid ''duplicate action id'') bt_empty
        (reg_actions registry))"

subsection \<open>Grants and subjects (snapshot.rs)\<close>

type_synonym grant_key = "string \<times> string option"
type_synonym action_table = "(string, ActionDefinition) btree"
type_synonym bundle_table = "(string, BundleDefinition) btree"

fun resource_keys ::
  "string \<Rightarrow> string list \<Rightarrow> string list \<Rightarrow> PolicyError + grant_key list" where
  "resource_keys a seen [] = Ok []"
| "resource_keys a seen (r # rs) =
     and_then (validate_resource r) (\<lambda>_.
     if r \<in> set seen then Err (PolicyInvalid ''duplicate grant resource'')
     else and_then (resource_keys a (r # seen) rs) (\<lambda>ks. Ok ((a, Some r) # ks)))"

definition grant_keys :: "GrantDefinition \<Rightarrow> action_table \<Rightarrow> PolicyError + grant_key list" where
  "grant_keys g actions =
     and_then (ok_or (bt_get actions (gd_action g))
       (PolicyInvalid ''grant references unknown action'')) (\<lambda>a.
     if ad_resource_required a then
       if gd_resources g = [] \<or> MAX_RESOURCES_PER_GRANT < length (gd_resources g)
       then Err (PolicyInvalid ''resource-scoped grant has invalid resource count'')
       else resource_keys (gd_action g) [] (gd_resources g)
     else if gd_resources g \<noteq> []
     then Err (PolicyInvalid ''resource-free action cannot carry resources'')
     else Ok [(gd_action g, None)])"

fun insert_scopes :: "grant_key list \<Rightarrow> grant_key list \<Rightarrow> PolicyError + grant_key list" where
  "insert_scopes seen [] = Ok seen"
| "insert_scopes seen (k # ks) =
     (if k \<in> set seen then Err (PolicyInvalid ''duplicate grant scope'')
      else insert_scopes (k # seen) ks)"

text \<open>The body of the loop of \<open>validate_grants\<close>; \<open>seen\<close> is the loop's set of scopes.\<close>

definition validate_grant_step ::
  "action_table \<Rightarrow> bool \<Rightarrow> grant_key list \<Rightarrow> GrantDefinition \<Rightarrow> PolicyError + grant_key list" where
  "validate_grant_step actions from_bundle seen g =
     and_then (ok_or (bt_get actions (gd_action g))
       (PolicyInvalid ''grant references unknown action'')) (\<lambda>a.
     if from_bundle \<and> ad_root_equivalent a
     then Err (PolicyInvalid ''bundle cannot contain root-equivalent grant'')
     else and_then (grant_keys g actions) (insert_scopes seen))"

definition validate_grants ::
  "GrantDefinition list \<Rightarrow> action_table \<Rightarrow> bool \<Rightarrow> PolicyError + unit" where
  "validate_grants grants actions from_bundle =
     and_then (try_fold (validate_grant_step actions from_bundle) [] grants) (\<lambda>_. Ok ())"

definition validate_bundle :: "BundleDefinition \<Rightarrow> action_table \<Rightarrow> PolicyError + unit" where
  "validate_bundle b actions =
     (if bd_policy_version b \<noteq> POLICY_VERSION
      then Err (PolicyInvalid ''bundle version is invalid'')
      else and_then (validate_identifier (bd_id b) ''bundle id'') (\<lambda>_.
        if bd_label b = [] \<or> 128 < length (bd_label b) \<or> MAX_GRANTS < length (bd_grants b)
        then Err (PolicyInvalid ''bundle label/grant count is invalid'')
        else validate_grants (bd_grants b) actions True))"

fun validate_selections ::
  "bundle_table \<Rightarrow> string list \<Rightarrow> BundleSelection list \<Rightarrow> PolicyError + unit" where
  "validate_selections bundles seen [] = Ok ()"
| "validate_selections bundles seen (s # ss) =
     (if \<not> bt_contains_key bundles (bs_id s) \<or> bs_id s \<in> set seen
      then Err (PolicyInvalid ''subject bundle selection is invalid'')
      else validate_selections bundles (bs_id s # seen) ss)"

definition validate_subject ::
  "SubjectPolicy \<Rightarrow> action_table \<Rightarrow> bundle_table \<Rightarrow> PolicyError + unit" where
  "validate_subject s actions bundles =
     (if sp_policy_version s \<noteq> POLICY_VERSION \<or> MAX_GRANTS < length (sp_grants s)
        \<or> MAX_BUNDLES < length (sp_bundles s)
      then Err (PolicyInvalid ''subject version/count is invalid'')
      else if (case sp_label s of None \<Rightarrow> False | Some l \<Rightarrow> l = [] \<or> 128 < length l)
      then Err (PolicyInvalid ''subject label is invalid'')
      else and_then (validate_selections bundles [] (sp_bundles s)) (\<lambda>_.
        validate_grants (sp_grants s) actions False))"

subsection \<open>Snapshots\<close>

record PolicySnapshot =
  ps_global :: GlobalPolicy
  ps_actions :: action_table
  ps_bundles :: bundle_table
  ps_subjects :: "(u32, SubjectPolicy) btree"

definition from_documents ::
  "GlobalPolicy \<Rightarrow> ActionRegistry \<Rightarrow> BundleDefinition list \<Rightarrow> SubjectPolicy list
    \<Rightarrow> PolicyError + PolicySnapshot" where
  "from_documents global registry bundles subjects =
     (if gp_policy_version global \<noteq> POLICY_VERSION \<or> gp_default_effect global \<noteq> Reject
      then Err (PolicyInvalid ''policy v1 requires fail-closed default effect reject'')
      else and_then (action_map registry) (\<lambda>actions.
        if MAX_BUNDLES < length bundles then Err (PolicyInvalid ''too many policy bundles'')
        else and_then (bt_collect bd_id (\<lambda>b. validate_bundle b actions)
            (PolicyInvalid ''duplicate bundle id'') bt_empty bundles) (\<lambda>bundle_map.
          if MAX_SUBJECTS < length subjects
          then Err (PolicyInvalid ''too many policy subjects'')
          else and_then (bt_collect sp_uid (\<lambda>s. validate_subject s actions bundle_map)
              (PolicyInvalid ''duplicate subject uid'') bt_empty subjects) (\<lambda>subject_map.
            Ok \<lparr>ps_global = global, ps_actions = actions, ps_bundles = bundle_map,
                ps_subjects = subject_map\<rparr>))))"

definition snapshot_subject :: "PolicySnapshot \<Rightarrow> u32 \<Rightarrow> SubjectPolicy" where
  "snapshot_subject ps u =
     (case bt_get (ps_subjects ps) u of Some s \<Rightarrow> s | None \<Rightarrow> subject_empty u)"

definition snapshot_action :: "PolicySnapshot \<Rightarrow> string \<Rightarrow> ActionDefinition option" where
  "snapshot_action ps a = bt_get (ps_actions ps) a"

definition snapshot_bundle :: "PolicySnapshot \<Rightarrow> string \<Rightarrow> BundleDefinition option" where
  "snapshot_bundle ps b = bt_get (ps_bundles ps) b"

definition snapshot_validate_subject :: "PolicySnapshot \<Rightarrow> SubjectPolicy \<Rightarrow> PolicyError + unit" where
  "snapshot_validate_subject ps s = validate_subject s (ps_actions ps) (ps_bundles ps)"

definition replace_subject ::
  "PolicySnapshot \<Rightarrow> SubjectPolicy \<Rightarrow> PolicyError + PolicySnapshot" where
  "replace_subject ps s =
     and_then (snapshot_validate_subject ps s) (\<lambda>_.
       Ok (ps\<lparr>ps_subjects := bt_insert (sp_uid s) s (ps_subjects ps)\<rparr>))"

subsection \<open>Resolution and evaluation\<close>

record EffectiveGrantView =
  gv_action :: string
  gv_resource :: "string option"
  gv_effect :: PolicyEffect
  gv_source :: string
  gv_root_equivalent :: bool

record EffectiveBundleView =
  bv_id :: string
  bv_enabled :: bool

record EffectivePolicyView =
  ev_principal :: Principal
  ev_policy_version :: u32
  ev_bundles :: "EffectiveBundleView list"
  ev_grants :: "EffectiveGrantView list"
  ev_has_root_equivalent_authority :: bool

record SubjectPolicyView =
  sv_uid :: u32
  sv_label :: "string option"
  sv_bundles :: "EffectiveBundleView list"
  sv_grants :: "EffectiveGrantView list"

record PolicyActionContext =
  pc_action :: string
  pc_resource :: "string option"

record PolicyDecision =
  pd_principal :: Principal
  pd_action :: string
  pd_resource :: "string option"
  pd_effect :: PolicyEffect
  pd_reason_code :: string
  pd_enforcement_class :: PolicyEnforcementClass
  pd_root_equivalent :: bool

type_synonym grant_map = "(grant_key, EffectiveGrantView) btree"

text \<open>\<open>self.actions[&grant.action]\<close> is reached only after \<open>grant_keys\<close> found the action.\<close>

definition index_action :: "action_table \<Rightarrow> string \<Rightarrow> ActionDefinition" where
  "index_action actions a = the (bt_get actions a)"

definition grant_view ::
  "action_table \<Rightarrow> GrantDefinition \<Rightarrow> string \<Rightarrow> grant_key \<Rightarrow> EffectiveGrantView" where
  "grant_view actions g src k =
     \<lparr>gv_action = fst k, gv_resource = snd k, gv_effect = gd_effect g, gv_source = src,
      gv_root_equivalent = ad_root_equivalent (index_action actions (gd_action g))\<rparr>"

definition add_bundle_key ::
  "action_table \<Rightarrow> BundleDefinition \<Rightarrow> GrantDefinition \<Rightarrow> grant_map \<Rightarrow> grant_key
    \<Rightarrow> PolicyError + grant_map" where
  "add_bundle_key actions b g m k =
     (case bt_get m k of
        Some existing \<Rightarrow>
          if gv_effect existing \<noteq> gd_effect g
          then Err (PolicyInvalid ''enabled bundles contain conflicting grants'')
          else Ok m
      | None \<Rightarrow> Ok (bt_insert k (grant_view actions g (''bundle:'' @ bd_id b) k) m))"

definition add_bundle_grant ::
  "action_table \<Rightarrow> BundleDefinition \<Rightarrow> grant_map \<Rightarrow> GrantDefinition \<Rightarrow> PolicyError + grant_map" where
  "add_bundle_grant actions b m g =
     and_then (grant_keys g actions) (\<lambda>ks. try_fold (add_bundle_key actions b g) m ks)"

definition add_bundle ::
  "action_table \<Rightarrow> bundle_table \<Rightarrow> grant_map \<Rightarrow> BundleSelection \<Rightarrow> PolicyError + grant_map" where
  "add_bundle actions bundles m sel =
     and_then (ok_or (bt_get bundles (bs_id sel))
       (PolicyInvalid ''subject references unknown bundle'')) (\<lambda>b.
     try_fold (add_bundle_grant actions b) m (bd_grants b))"

definition add_explicit_grant ::
  "action_table \<Rightarrow> grant_map \<Rightarrow> GrantDefinition \<Rightarrow> PolicyError + grant_map" where
  "add_explicit_grant actions m g =
     and_then (grant_keys g actions) (\<lambda>ks.
       Ok (fold (\<lambda>k. bt_insert k (grant_view actions g ''explicit_grant'' k)) ks m))"

definition resolved_grant_map :: "PolicySnapshot \<Rightarrow> SubjectPolicy \<Rightarrow> PolicyError + grant_map" where
  "resolved_grant_map ps s =
     and_then (try_fold (add_bundle (ps_actions ps) (ps_bundles ps)) bt_empty
       (filter bs_enabled (sp_bundles s))) (\<lambda>m.
     try_fold (add_explicit_grant (ps_actions ps)) m (sp_grants s))"

definition resolved_grants ::
  "PolicySnapshot \<Rightarrow> SubjectPolicy \<Rightarrow> PolicyError + EffectiveGrantView list" where
  "resolved_grants ps s = and_then (resolved_grant_map ps s) (\<lambda>m. Ok (bt_values m))"

definition bundle_views :: "SubjectPolicy \<Rightarrow> EffectiveBundleView list" where
  "bundle_views s = map (\<lambda>b. \<lparr>bv_id = bs_id b, bv_enabled = bs_enabled b\<rparr>) (sp_bundles s)"

definition effective :: "PolicySnapshot \<Rightarrow> Principal \<Rightarrow> PolicyError + EffectivePolicyView" where
  "effective ps p =
     (let s = snapshot_subject ps (uid p) in
      and_then (resolved_grants ps s) (\<lambda>grants.
        Ok \<lparr>ev_principal = p, ev_policy_version = POLICY_VERSION, ev_bundles = bundle_views s,
            ev_grants = grants,
            ev_has_root_equivalent_authority =
              list_ex (\<lambda>g. gv_root_equivalent g \<and> gv_effect g \<noteq> Reject) grants\<rparr>))"

definition subject_view :: "PolicySnapshot \<Rightarrow> u32 \<Rightarrow> PolicyError + SubjectPolicyView" where
  "subject_view ps u =
     (let s = snapshot_subject ps u in
      and_then (resolved_grants ps s) (\<lambda>grants.
        Ok \<lparr>sv_uid = u, sv_label = sp_label s, sv_bundles = bundle_views s,
            sv_grants = grants\<rparr>))"

definition validate_context :: "ActionDefinition \<Rightarrow> PolicyActionContext \<Rightarrow> PolicyError + unit" where
  "validate_context a c =
     and_then (validate_identifier (pc_action c) ''action id'') (\<lambda>_.
       case (pc_resource c, ad_resource_required a) of
         (Some r, True) \<Rightarrow> validate_resource r
       | (None, True) \<Rightarrow> Err (PolicyInvalid ''action requires a resource'')
       | (Some _, False) \<Rightarrow> Err (PolicyInvalid ''action does not accept a resource'')
       | (None, False) \<Rightarrow> Ok ())"

definition evaluate ::
  "PolicySnapshot \<Rightarrow> Principal \<Rightarrow> PolicyActionContext \<Rightarrow> PolicyError + PolicyDecision" where
  "evaluate ps p c =
     and_then (ok_or (bt_get (ps_actions ps) (pc_action c))
       (PolicyInvalid ''unknown policy action'')) (\<lambda>a.
     and_then (validate_context a c) (\<lambda>_.
     and_then (resolved_grant_map ps (snapshot_subject ps (uid p))) (\<lambda>resolved.
       let (eff, reason) =
         (case bt_get resolved (pc_action c, pc_resource c) of
            None \<Rightarrow> (gp_default_effect (ps_global ps), ''default_reject'')
          | Some g \<Rightarrow> (gv_effect g, gv_source g))
       in Ok \<lparr>pd_principal = p, pd_action = pc_action c, pd_resource = pc_resource c,
             pd_effect = eff, pd_reason_code = reason, pd_enforcement_class = ad_class a,
             pd_root_equivalent = ad_root_equivalent a\<rparr>)))"

end
