(* ===== verification/Policy_Resolution.thy ===== *)
theory Policy_Resolution
  imports Policy
begin

section \<open>What policy resolution computes\<close>

text \<open>
  The facts about \<^verbatim>\<open>portus-policy/src/snapshot.rs\<close> the properties rest on: the scope of a grant, what
  validation guarantees, the snapshot invariant and who establishes it, and the equality of the
  resolved grant map with its declarative reading \<open>spec_grant\<close> (explicit grants before bundle
  grants before the default).
\<close>

subsection \<open>Declarative reading of a policy\<close>

definition grant_scope :: "GrantDefinition \<Rightarrow> grant_key list" where
  "grant_scope g =
     (if gd_resources g = [] then [(gd_action g, None)]
      else map (\<lambda>r. (gd_action g, Some r)) (gd_resources g))"

definition covers :: "grant_key \<Rightarrow> GrantDefinition \<Rightarrow> bool" where
  "covers k g \<longleftrightarrow> k \<in> set (grant_scope g)"

definition bundle_grants ::
  "bundle_table \<Rightarrow> BundleSelection list \<Rightarrow> (BundleDefinition \<times> GrantDefinition) list" where
  "bundle_grants bundles sels =
     concat (map (\<lambda>sel. case bt_get bundles (bs_id sel) of None \<Rightarrow> [] | Some b \<Rightarrow> map (Pair b) (bd_grants b))
       sels)"

definition enabled_grants ::
  "PolicySnapshot \<Rightarrow> SubjectPolicy \<Rightarrow> (BundleDefinition \<times> GrantDefinition) list" where
  "enabled_grants ps s = bundle_grants (ps_bundles ps) (filter bs_enabled (sp_bundles s))"

definition spec_grant ::
  "PolicySnapshot \<Rightarrow> SubjectPolicy \<Rightarrow> grant_key \<Rightarrow> EffectiveGrantView option" where
  "spec_grant ps s k =
     (case find (covers k) (rev (sp_grants s)) of
        Some g \<Rightarrow> Some (grant_view (ps_actions ps) g ''explicit_grant'' k)
      | None \<Rightarrow>
          (case find (\<lambda>bg. covers k (snd bg)) (enabled_grants ps s) of
             Some bg \<Rightarrow> Some (grant_view (ps_actions ps) (snd bg) (''bundle:'' @ bd_id (fst bg)) k)
           | None \<Rightarrow> None))"

definition spec_effect :: "PolicySnapshot \<Rightarrow> SubjectPolicy \<Rightarrow> grant_key \<Rightarrow> PolicyEffect" where
  "spec_effect ps s k =
     (case spec_grant ps s k of None \<Rightarrow> Reject | Some v \<Rightarrow> gv_effect v)"

definition conflict_free :: "(BundleDefinition \<times> GrantDefinition) list \<Rightarrow> bool" where
  "conflict_free bgs =
     list_all (\<lambda>x. list_all (\<lambda>y. list_all (\<lambda>k. covers k (snd y) \<longrightarrow> gd_effect (snd x) = gd_effect (snd y))
       (grant_scope (snd x))) bgs) bgs"

subsection \<open>The snapshot invariant\<close>

definition snapshot_wf :: "PolicySnapshot \<Rightarrow> bool" where
  "snapshot_wf ps \<longleftrightarrow>
     gp_default_effect (ps_global ps) = Reject \<and>
     bt_sorted (ps_actions ps) \<and> bt_sorted (ps_bundles ps) \<and> bt_sorted (ps_subjects ps) \<and>
     list_all (\<lambda>(i, a). ad_id a = i \<and> check_action a = Ok ()) (ps_actions ps) \<and>
     list_all (\<lambda>(i, b). bd_id b = i \<and> validate_bundle b (ps_actions ps) = Ok ()) (ps_bundles ps) \<and>
     list_all (\<lambda>(u, s). sp_uid s = u \<and>
       validate_subject s (ps_actions ps) (ps_bundles ps) = Ok ()) (ps_subjects ps)"

lemma snapshot_wf_action:
  assumes "snapshot_wf ps" and "bt_get (ps_actions ps) i = Some a"
  shows "ad_id a = i" and "check_action a = Ok ()"
  using assms by (auto simp: snapshot_wf_def bt_get_in_set list_all_iff)

lemma snapshot_wf_bundle:
  assumes "snapshot_wf ps" and "bt_get (ps_bundles ps) i = Some b"
  shows "bd_id b = i" and "validate_bundle b (ps_actions ps) = Ok ()"
  using assms by (auto simp: snapshot_wf_def bt_get_in_set list_all_iff)

lemma validate_subject_empty: "validate_subject (subject_empty u) actions bundles = Ok ()"
  by (simp add: validate_subject_def subject_empty_def policy_limits validate_grants_def)

lemma snapshot_wf_subject:
  assumes "snapshot_wf ps"
  shows "sp_uid (snapshot_subject ps u) = u"
    and "validate_subject (snapshot_subject ps u) (ps_actions ps) (ps_bundles ps) = Ok ()"
proof -
  have "sp_uid s = u \<and> validate_subject s (ps_actions ps) (ps_bundles ps) = Ok ()"
    if "bt_get (ps_subjects ps) u = Some s" for s
    using assms that by (auto simp: snapshot_wf_def bt_get_in_set list_all_iff)
  then show "sp_uid (snapshot_subject ps u) = u"
    and "validate_subject (snapshot_subject ps u) (ps_actions ps) (ps_bundles ps) = Ok ()"
    by (auto simp: snapshot_subject_def validate_subject_empty split: option.splits)
      (simp add: subject_empty_def)
qed

subsection \<open>Grant keys\<close>

lemma resource_keys_Ok:
  "resource_keys a seen rs = Ok ks \<Longrightarrow>
     ks = map (\<lambda>r. (a, Some r)) rs \<and> distinct rs \<and> set rs \<inter> set seen = {}
     \<and> (\<forall>r\<in>set rs. validate_resource r = Ok ())"
proof (induction rs arbitrary: seen ks)
  case (Cons r rs)
  then obtain ks' where "resource_keys a (r # seen) rs = Ok ks'" and "ks = (a, Some r) # ks'"
    and "validate_resource r = Ok ()" and "r \<notin> set seen"
    by (auto simp: result_simps split: if_splits)
  with Cons.IH [of "r # seen" ks'] show ?case by auto
qed simp

lemma grant_keys_Ok:
  assumes "grant_keys g actions = Ok ks"
  shows "ks = grant_scope g" and "distinct ks"
    and "\<exists>a. bt_get actions (gd_action g) = Some a \<and> ad_resource_required a = (gd_resources g \<noteq> [])"
  using assms
  by (auto simp: grant_keys_def result_simps grant_scope_def distinct_map inj_on_def
      dest!: resource_keys_Ok split: if_splits)

lemma covers_action: "covers k g \<Longrightarrow> fst k = gd_action g"
  by (auto simp: covers_def grant_scope_def split: if_splits)

lemma insert_scopes_Ok:
  "insert_scopes seen ks = Ok seen' \<longleftrightarrow>
     distinct ks \<and> set ks \<inter> set seen = {} \<and> seen' = rev ks @ seen"
  by (induction ks arbitrary: seen) (auto split: if_splits)

lemma validate_grant_step_Ok:
  assumes "validate_grant_step actions fb seen g = Ok seen'"
  shows "grant_keys g actions = Ok (grant_scope g)"
    and "fb \<Longrightarrow> \<not> ad_root_equivalent (index_action actions (gd_action g))"
    and "distinct (grant_scope g)" and "set (grant_scope g) \<inter> set seen = {}"
    and "set seen' = set (grant_scope g) \<union> set seen"
  using assms
  by (auto simp: validate_grant_step_def result_simps index_action_def insert_scopes_Ok
      dest: grant_keys_Ok(1) split: if_splits)

lemma validate_grants_Ok:
  assumes "validate_grants gs actions fb = Ok ()" and "g \<in> set gs"
  shows "grant_keys g actions = Ok (grant_scope g)"
    and "fb \<Longrightarrow> \<not> ad_root_equivalent (index_action actions (gd_action g))"
proof -
  have "\<exists>seen seen'. validate_grant_step actions fb seen g = Ok seen'"
    if "try_fold (validate_grant_step actions fb) seen0 gs = Ok t" for seen0 t
    using that assms(2) by (induction gs arbitrary: seen0) (auto simp: result_simps)
  then obtain seen seen' where "validate_grant_step actions fb seen g = Ok seen'"
    using assms(1) by (fastforce simp: validate_grants_def result_simps)
  then show "grant_keys g actions = Ok (grant_scope g)"
    and "fb \<Longrightarrow> \<not> ad_root_equivalent (index_action actions (gd_action g))"
    by (auto dest: validate_grant_step_Ok)
qed

text \<open>Within one validated list, a key is covered by at most one grant.\<close>

lemma validate_grants_unique:
  assumes "validate_grants gs actions fb = Ok ()"
  shows "distinct (concat (map grant_scope gs))"
proof -
  have "distinct (concat (map grant_scope gs)) \<and> set (concat (map grant_scope gs)) \<inter> set seen0 = {}"
    if "try_fold (validate_grant_step actions fb) seen0 gs = Ok t" for seen0 t
    using that
  proof (induction gs arbitrary: seen0)
    case (Cons g gs)
    then obtain seen' where st: "validate_grant_step actions fb seen0 g = Ok seen'"
      and "try_fold (validate_grant_step actions fb) seen' gs = Ok t"
      by (auto simp: result_simps)
    with Cons.IH [of seen'] validate_grant_step_Ok(3-5) [OF st] show ?case by auto
  qed simp
  then show ?thesis
    using assms by (fastforce simp: validate_grants_def result_simps)
qed

lemma find_append:
  "find P (xs @ ys) = (case find P xs of None \<Rightarrow> find P ys | Some x \<Rightarrow> Some x)"
  by (induction xs) auto

lemma find_SomeD: "find P xs = Some x \<Longrightarrow> x \<in> set xs \<and> P x"
  by (induction xs) (auto split: if_splits)

lemma find_unique_cover:
  assumes "distinct (concat (map grant_scope gs))" and "g \<in> set gs" and "covers k g"
  shows "find (covers k) (rev gs) = Some g"
  using assms
proof (induction gs)
  case (Cons h gs)
  show ?case
  proof (cases "g \<in> set gs")
    case True
    with Cons show ?thesis by (simp add: find_append)
  next
    case False
    with Cons.prems have "g = h" and "\<forall>x\<in>set gs. \<not> covers k x"
      by (auto simp: covers_def)
    then have "find (covers k) (rev gs) = None"
      by (simp add: find_None_iff)
    with Cons.prems(3) \<open>g = h\<close> show ?thesis
      by (simp add: find_append)
  qed
qed simp

subsection \<open>The bundle stage\<close>

lemma add_bundle_key_Ok:
  "add_bundle_key actions b g m k = Ok m' \<longleftrightarrow>
     (\<forall>v. bt_get m k = Some v \<longrightarrow> gv_effect v = gd_effect g) \<and>
     m' = (if bt_get m k = None
           then bt_insert k (grant_view actions g (''bundle:'' @ bd_id b) k) m else m)"
  by (auto simp: add_bundle_key_def split: option.splits)

lemma gv_effect_grant_view [simp]: "gv_effect (grant_view actions g src k) = gd_effect g"
  by (simp add: grant_view_def)

lemma add_bundle_keys_get:
  "try_fold (add_bundle_key actions b g) m ks = Ok m' \<Longrightarrow>
     bt_get m' k = (case bt_get m k of
       Some v \<Rightarrow> Some v
     | None \<Rightarrow> if k \<in> set ks then Some (grant_view actions g (''bundle:'' @ bd_id b) k) else None)"
  by (induction ks arbitrary: m)
    (auto simp: result_simps add_bundle_key_Ok btree_simps split: option.splits if_splits)

lemma add_bundle_keys_total:
  "(\<forall>k\<in>set ks. \<forall>v. bt_get m k = Some v \<longrightarrow> gv_effect v = gd_effect g) \<Longrightarrow>
     \<exists>m'. try_fold (add_bundle_key actions b g) m ks = Ok m'"
proof (induction ks arbitrary: m)
  case (Cons k ks)
  then obtain m1 where m1: "add_bundle_key actions b g m k = Ok m1"
    by (auto simp: add_bundle_key_Ok)
  with Cons.prems have "\<forall>k\<in>set ks. \<forall>v. bt_get m1 k = Some v \<longrightarrow> gv_effect v = gd_effect g"
    by (auto simp: add_bundle_key_Ok btree_simps split: if_splits)
  with Cons.IH m1 show ?case by auto
qed simp

lemma add_bundle_keys_agree:
  "try_fold (add_bundle_key actions b g) m ks = Ok m' \<Longrightarrow> k \<in> set ks \<Longrightarrow> bt_get m k = Some v \<Longrightarrow>
     gv_effect v = gd_effect g"
proof (induction ks arbitrary: m)
  case (Cons k' ks)
  then obtain m1 where "add_bundle_key actions b g m k' = Ok m1"
    and "try_fold (add_bundle_key actions b g) m1 ks = Ok m'"
    by (auto simp: result_simps)
  with Cons show ?case
    by (cases "k = k'") (auto simp: add_bundle_key_Ok btree_simps split: if_splits)
qed simp

lemma add_bundle_keys_Err:
  "try_fold (add_bundle_key actions b g) m ks = Err e \<Longrightarrow>
     e = PolicyInvalid ''enabled bundles contain conflicting grants''"
  by (induction ks arbitrary: m)
    (auto simp: result_simps add_bundle_key_def split: option.splits if_splits)

definition add_pair ::
  "action_table \<Rightarrow> grant_map \<Rightarrow> BundleDefinition \<times> GrantDefinition \<Rightarrow> PolicyError + grant_map" where
  "add_pair actions m bg = add_bundle_grant actions (fst bg) m (snd bg)"

lemma try_fold_append:
  "try_fold f s (xs @ ys) = and_then (try_fold f s xs) (\<lambda>t. try_fold f t ys)"
  by (induction xs arbitrary: s) (auto simp: and_then_def split: sum.splits)

lemma try_fold_map: "try_fold f s (map h xs) = try_fold (\<lambda>t x. f t (h x)) s xs"
  by (induction xs arbitrary: s) (auto simp: and_then_def split: sum.splits)

text \<open>With every selected bundle known, the nested loops are one loop over pairs.\<close>

lemma bundle_stage_flat:
  assumes "\<forall>sel\<in>set sels. bt_get bundles (bs_id sel) \<noteq> None"
  shows "try_fold (add_bundle actions bundles) m sels = try_fold (add_pair actions) m (bundle_grants bundles sels)"
  using assms
proof (induction sels arbitrary: m)
  case (Cons sel sels)
  then obtain b where b: "bt_get bundles (bs_id sel) = Some b" by auto
  have "add_bundle actions bundles m sel = try_fold (add_pair actions) m (map (Pair b) (bd_grants b))"
    by (simp add: add_bundle_def b try_fold_map add_pair_def)
  with Cons b show ?case
    by (simp add: bundle_grants_def try_fold_append)
qed (simp add: bundle_grants_def)

lemma add_pair_get:
  assumes "add_pair actions m bg = Ok m'"
  shows "bt_get m' k = (case bt_get m k of
       Some v \<Rightarrow> Some v
     | None \<Rightarrow> if covers k (snd bg)
         then Some (grant_view actions (snd bg) (''bundle:'' @ bd_id (fst bg)) k) else None)"
  using assms
  by (auto simp: add_pair_def add_bundle_grant_def result_simps covers_def
      dest!: add_bundle_keys_get [of _ _ _ _ _ _ k] grant_keys_Ok(1) split: option.splits)

lemma add_pairs_get:
  "try_fold (add_pair actions) m bgs = Ok m' \<Longrightarrow>
     bt_get m' k = (case bt_get m k of
       Some v \<Rightarrow> Some v
     | None \<Rightarrow> map_option (\<lambda>bg. grant_view actions (snd bg) (''bundle:'' @ bd_id (fst bg)) k)
         (find (\<lambda>bg. covers k (snd bg)) bgs))"
proof (induction bgs arbitrary: m)
  case (Cons bg bgs)
  then obtain m1 where m1: "add_pair actions m bg = Ok m1" and "try_fold (add_pair actions) m1 bgs = Ok m'"
    by (auto simp: result_simps)
  with Cons.IH add_pair_get [OF m1, of k] show ?case
    by (auto split: option.splits if_splits)
qed (simp split: option.splits)

subsection \<open>The explicit stage\<close>

lemma fold_bt_insert_get:
  "bt_get (fold (\<lambda>k. bt_insert k (h k)) ks m) k = (if k \<in> set ks then Some (h k) else bt_get m k)"
  by (induction ks arbitrary: m) (auto simp: btree_simps)

lemma add_explicit_grant_get:
  assumes "add_explicit_grant actions m g = Ok m'"
  shows "bt_get m' k =
     (if covers k g then Some (grant_view actions g ''explicit_grant'' k) else bt_get m k)"
  using assms
  by (auto simp: add_explicit_grant_def result_simps fold_bt_insert_get covers_def
      dest!: grant_keys_Ok(1))

lemma add_explicit_grants_get:
  "try_fold (add_explicit_grant actions) m gs = Ok m' \<Longrightarrow>
     bt_get m' k = (case find (covers k) (rev gs) of
       Some g \<Rightarrow> Some (grant_view actions g ''explicit_grant'' k)
     | None \<Rightarrow> bt_get m k)"
proof (induction gs arbitrary: m)
  case (Cons g gs)
  then obtain m1 where m1: "add_explicit_grant actions m g = Ok m1"
    and "try_fold (add_explicit_grant actions) m1 gs = Ok m'"
    by (auto simp: result_simps)
  with Cons.IH [of m1] show ?case
    by (simp add: add_explicit_grant_get [OF m1] find_append split: option.splits)
qed simp

lemma add_explicit_grants_total:
  "\<forall>g\<in>set gs. grant_keys g actions = Ok (grant_scope g) \<Longrightarrow>
     \<exists>m'. try_fold (add_explicit_grant actions) m gs = Ok m'"
  by (induction gs arbitrary: m) (auto simp: add_explicit_grant_def)

subsection \<open>The resolved map is the declarative reading\<close>

lemma add_bundle_known:
  "try_fold (add_bundle actions bundles) m sels = Ok m' \<Longrightarrow>
     \<forall>sel\<in>set sels. bt_get bundles (bs_id sel) \<noteq> None"
  by (induction sels arbitrary: m) (auto simp: result_simps add_bundle_def)

lemma resolved_grant_map_get:
  assumes "resolved_grant_map ps s = Ok m"
  shows "bt_get m k = spec_grant ps s k"
proof -
  let ?sels = "filter bs_enabled (sp_bundles s)"
  obtain m1 where m1: "try_fold (add_bundle (ps_actions ps) (ps_bundles ps)) bt_empty ?sels = Ok m1"
    and m: "try_fold (add_explicit_grant (ps_actions ps)) m1 (sp_grants s) = Ok m"
    using assms by (auto simp: resolved_grant_map_def result_simps)
  have "try_fold (add_pair (ps_actions ps)) bt_empty (enabled_grants ps s) = Ok m1"
    using m1 bundle_stage_flat [OF add_bundle_known [OF m1]]
    by (simp add: enabled_grants_def)
  from add_pairs_get [OF this, of k] add_explicit_grants_get [OF m, of k] show ?thesis
    by (auto simp: spec_grant_def btree_simps split: option.splits)
qed

lemma resolved_grant_map_sorted:
  assumes "resolved_grant_map ps s = Ok m"
  shows "bt_sorted m"
proof -
  have keys: "bt_sorted m'" if "try_fold (add_bundle_key actions b g) m ks = Ok m'" "bt_sorted m"
    for actions b g m m' ks
    using that by (rule try_fold_invariant) (auto simp: add_bundle_key_Ok btree_simps)
  have pairs: "bt_sorted m'" if "try_fold (add_bundle_grant actions b) m gs = Ok m'" "bt_sorted m"
    for actions b m m' gs
    using that by (rule try_fold_invariant) (auto simp: add_bundle_grant_def result_simps keys)
  have folds: "bt_sorted (fold (\<lambda>k. bt_insert k (h k)) ks m)" if "bt_sorted m"
    for h :: "grant_key \<Rightarrow> EffectiveGrantView" and ks m
    using that by (induction ks arbitrary: m) (auto simp: btree_simps)
  obtain m1 where m1: "try_fold (add_bundle (ps_actions ps) (ps_bundles ps)) bt_empty
      (filter bs_enabled (sp_bundles s)) = Ok m1"
    and m: "try_fold (add_explicit_grant (ps_actions ps)) m1 (sp_grants s) = Ok m"
    using assms by (auto simp: resolved_grant_map_def result_simps)
  have "bt_sorted m1"
    using m1 bt.wf_empty by (rule try_fold_invariant) (auto simp: add_bundle_def result_simps pairs)
  with m show ?thesis
    by (rule try_fold_invariant) (auto simp: add_explicit_grant_def result_simps folds)
qed

subsection \<open>When resolution fails\<close>

lemma validate_selections_Ok:
  "validate_selections bundles seen sels = Ok u \<longleftrightarrow>
     (\<forall>sel\<in>set sels. bt_get bundles (bs_id sel) \<noteq> None) \<and> distinct (map bs_id sels) \<and>
     bs_id ` set sels \<inter> set seen = {}"
  by (induction sels arbitrary: seen) (auto simp: bt_contains_key_def split: if_splits)

lemma validate_subject_Ok:
  assumes "validate_subject s actions bundles = Ok ()"
  shows "validate_grants (sp_grants s) actions False = Ok ()"
    and "\<forall>sel\<in>set (sp_bundles s). bt_get bundles (bs_id sel) \<noteq> None"
    and "distinct (map bs_id (sp_bundles s))"
  using assms
  by (auto simp: validate_subject_def result_simps validate_selections_Ok split: if_splits)

lemma validate_bundle_Ok:
  "validate_bundle b actions = Ok () \<Longrightarrow> validate_grants (bd_grants b) actions True = Ok ()"
  by (auto simp: validate_bundle_def result_simps split: if_splits)

lemma enabled_grants_valid:
  assumes "snapshot_wf ps" and "bg \<in> set (enabled_grants ps s)"
  shows "grant_keys (snd bg) (ps_actions ps) = Ok (grant_scope (snd bg))"
    and "\<not> ad_root_equivalent (index_action (ps_actions ps) (gd_action (snd bg)))"
proof -
  obtain i where b: "bt_get (ps_bundles ps) i = Some (fst bg)" and g: "snd bg \<in> set (bd_grants (fst bg))"
    using assms(2) by (fastforce simp: enabled_grants_def bundle_grants_def split: option.splits)
  from snapshot_wf_bundle(2) [OF assms(1) b]
  have "validate_grants (bd_grants (fst bg)) (ps_actions ps) True = Ok ()"
    by (rule validate_bundle_Ok)
  from validate_grants_Ok [OF this g]
  show "grant_keys (snd bg) (ps_actions ps) = Ok (grant_scope (snd bg))"
    and "\<not> ad_root_equivalent (index_action (ps_actions ps) (gd_action (snd bg)))"
    by auto
qed

text \<open>One pair succeeds exactly when it agrees with what the map already holds on its scope.\<close>

lemma add_pair_Ok_iff:
  assumes "grant_keys (snd bg) actions = Ok (grant_scope (snd bg))"
  shows "(\<exists>m'. add_pair actions m bg = Ok m') \<longleftrightarrow>
     (\<forall>k v. covers k (snd bg) \<longrightarrow> bt_get m k = Some v \<longrightarrow> gv_effect v = gd_effect (snd bg))"
  using assms
  by (auto simp: add_pair_def add_bundle_grant_def covers_def
      intro: add_bundle_keys_total dest: add_bundle_keys_agree)

definition agrees :: "grant_map \<Rightarrow> (BundleDefinition \<times> GrantDefinition) list \<Rightarrow> bool" where
  "agrees m bgs \<longleftrightarrow> (\<forall>bg\<in>set bgs. \<forall>k v. covers k (snd bg) \<longrightarrow> bt_get m k = Some v \<longrightarrow>
     gv_effect v = gd_effect (snd bg))"

lemma conflict_free_iff:
  "conflict_free bgs \<longleftrightarrow>
     (\<forall>x\<in>set bgs. \<forall>y\<in>set bgs. \<forall>k. covers k (snd x) \<longrightarrow> covers k (snd y) \<longrightarrow>
        gd_effect (snd x) = gd_effect (snd y))"
  by (auto simp: conflict_free_def list_all_iff covers_def)

lemma conflict_free_Cons:
  "conflict_free (x # bgs) \<longleftrightarrow> conflict_free bgs \<and>
     (\<forall>y\<in>set bgs. \<forall>k. covers k (snd x) \<longrightarrow> covers k (snd y) \<longrightarrow> gd_effect (snd x) = gd_effect (snd y))"
proof -
  define compat where "compat x y \<longleftrightarrow>
      (\<forall>k. covers k (snd x) \<longrightarrow> covers k (snd y) \<longrightarrow> gd_effect (snd x) = gd_effect (snd y))"
    for x y :: "BundleDefinition \<times> GrantDefinition"
  have "compat x y \<longleftrightarrow> compat y x" and "compat x x" for x y
    unfolding compat_def by metis+
  then show ?thesis
    unfolding conflict_free_iff compat_def [symmetric] by auto
qed

lemma add_pair_agrees:
  assumes step: "add_pair actions m bg = Ok m1" and here: "agrees m [bg]"
  shows "agrees m1 bgs \<longleftrightarrow> agrees m bgs \<and>
     (\<forall>y\<in>set bgs. \<forall>k. covers k (snd bg) \<longrightarrow> covers k (snd y) \<longrightarrow> gd_effect (snd bg) = gd_effect (snd y))"
    (is "?L \<longleftrightarrow> ?A \<and> ?C")
proof
  note get = add_pair_get [OF step]
  assume L: ?L
  have old: "bt_get m1 k = Some v" if "bt_get m k = Some v" for k v
    using that by (simp add: get)
  from L old have ?A by (auto simp: agrees_def)
  moreover have ?C
  proof (intro ballI allI impI)
    fix y k assume y: "y \<in> set bgs" and ck: "covers k (snd bg)" and cy: "covers k (snd y)"
    obtain v where v: "bt_get m1 k = Some v" and ve: "gv_effect v = gd_effect (snd bg)"
      using ck here by (cases "bt_get m k") (auto simp: get agrees_def simp del: split_paired_All)
    with L y cy show "gd_effect (snd bg) = gd_effect (snd y)"
      unfolding agrees_def by metis
  qed
  ultimately show "?A \<and> ?C" ..
next
  note get = add_pair_get [OF step]
  assume AC: "?A \<and> ?C"
  show ?L unfolding agrees_def
  proof (intro ballI allI impI)
    fix k y v assume y: "y \<in> set bgs" and cy: "covers k (snd y)" and v: "bt_get m1 k = Some v"
    show "gv_effect v = gd_effect (snd y)"
    proof (cases "bt_get m k")
      case None
      with v have "covers k (snd bg)" and "gv_effect v = gd_effect (snd bg)"
        by (auto simp: get split: if_splits)
      with AC y cy show ?thesis by metis
    next
      case (Some w)
      with v have "w = v" by (simp add: get)
      with Some AC y cy show ?thesis unfolding agrees_def by metis
    qed
  qed
qed

lemma agrees_Cons: "agrees m (x # bgs) \<longleftrightarrow> agrees m [x] \<and> agrees m bgs"
  by (simp add: agrees_def)

lemma add_pairs_Ok_iff:
  assumes "\<forall>bg\<in>set bgs. grant_keys (snd bg) actions = Ok (grant_scope (snd bg))"
  shows "(\<exists>m'. try_fold (add_pair actions) m bgs = Ok m') \<longleftrightarrow> agrees m bgs \<and> conflict_free bgs"
  using assms
proof (induction bgs arbitrary: m)
  case Nil
  then show ?case by (simp add: agrees_def conflict_free_iff)
next
  case (Cons bg bgs)
  show ?case
  proof (cases "add_pair actions m bg")
    case (Inl e)
    then have "\<not> agrees m (bg # bgs)"
      using add_pair_Ok_iff [of bg actions m] Cons.prems unfolding agrees_def
      by (metis list.set_intros(1) sum.distinct(1))
    with Inl show ?thesis by simp
  next
    case (Inr m1)
    have here: "agrees m [bg]"
      using add_pair_Ok_iff [of bg actions m] Cons.prems Inr by (simp add: agrees_def)
    have "agrees m1 bgs \<and> conflict_free bgs \<longleftrightarrow> agrees m (bg # bgs) \<and> conflict_free (bg # bgs)"
      using here by (auto simp: add_pair_agrees [OF Inr here] conflict_free_Cons agrees_Cons [of m bg bgs])
    with Inr Cons show ?thesis by simp
  qed
qed

lemma add_pairs_Err:
  assumes "\<forall>bg\<in>set bgs. grant_keys (snd bg) actions = Ok (grant_scope (snd bg))"
    and "try_fold (add_pair actions) m bgs = Err e"
  shows "e = PolicyInvalid ''enabled bundles contain conflicting grants''"
  using assms
proof (induction bgs arbitrary: m)
  case (Cons bg bgs)
  then consider "add_pair actions m bg = Err e"
    | m1 where "try_fold (add_pair actions) m1 bgs = Err e"
    by (auto simp: result_simps)
  then show ?case
  proof cases
    case 1
    with Cons.prems(1) show ?thesis
      by (auto simp: add_pair_def add_bundle_grant_def dest: add_bundle_keys_Err)
  next
    case 2
    with Cons show ?thesis by auto
  qed
qed simp

lemma resolved_grant_map_cases:
  assumes wf: "snapshot_wf ps"
    and valid: "validate_subject s (ps_actions ps) (ps_bundles ps) = Ok ()"
  shows "(\<exists>m. resolved_grant_map ps s = Ok m) \<longleftrightarrow> conflict_free (enabled_grants ps s)"
    and "resolved_grant_map ps s = Err e \<Longrightarrow>
      e = PolicyInvalid ''enabled bundles contain conflicting grants''"
proof -
  let ?sels = "filter bs_enabled (sp_bundles s)"
  have keys: "\<forall>bg\<in>set (enabled_grants ps s).
      grant_keys (snd bg) (ps_actions ps) = Ok (grant_scope (snd bg))"
    using enabled_grants_valid [OF wf] by blast
  have flat: "try_fold (add_bundle (ps_actions ps) (ps_bundles ps)) bt_empty ?sels
      = try_fold (add_pair (ps_actions ps)) bt_empty (enabled_grants ps s)"
    unfolding enabled_grants_def
    by (rule bundle_stage_flat) (use validate_subject_Ok(2) [OF valid] in auto)
  have total: "\<exists>m'. try_fold (add_explicit_grant (ps_actions ps)) m (sp_grants s) = Ok m'" for m
    using validate_grants_Ok(1) [OF validate_subject_Ok(1) [OF valid]]
    by (intro add_explicit_grants_total) blast
  have "agrees bt_empty bgs" for bgs
    by (simp add: agrees_def btree_simps)
  then show "(\<exists>m. resolved_grant_map ps s = Ok m) \<longleftrightarrow> conflict_free (enabled_grants ps s)"
    using add_pairs_Ok_iff [OF keys, of bt_empty] total
    by (auto simp: resolved_grant_map_def flat result_simps)
  show "e = PolicyInvalid ''enabled bundles contain conflicting grants''"
    if "resolved_grant_map ps s = Err e"
    using that total add_pairs_Err [OF keys, of bt_empty e]
    by (auto simp: resolved_grant_map_def flat result_simps) (metis sum.distinct(1))
qed

subsection \<open>Who establishes and keeps the invariant\<close>

lemma list_all_entries:
  "bt_sorted m \<Longrightarrow> list_all (\<lambda>(k, v). P k v) m \<longleftrightarrow> (\<forall>k v. bt_get m k = Some v \<longrightarrow> P k v)"
  by (auto simp: list_all_iff bt_get_in_set)

lemma bt_collect_entries:
  assumes "bt_collect key check dup bt_empty xs = Ok m"
  shows "bt_sorted m" and "list_all (\<lambda>(k, x). key x = k \<and> check x = Ok ()) m"
proof -
  show sorted: "bt_sorted m"
    using bt.wf_empty assms by (rule bt_collect_wf)
  have "key x = k \<and> check x = Ok ()" if "bt_get m k = Some x" for k x
    using that bt_collect_Ok [OF assms]
    by (auto simp: btree_simps find_Some_iff split: option.splits)
  then show "list_all (\<lambda>(k, x). key x = k \<and> check x = Ok ()) m"
    by (simp add: list_all_entries [OF sorted])
qed

lemma from_documents_wf [inv_intros]:
  assumes "from_documents global registry bundles subjects = Ok ps"
  shows "snapshot_wf ps"
  using assms
  by (auto simp: from_documents_def action_map_def result_simps snapshot_wf_def
      dest: bt_collect_entries split: if_splits)

lemma replace_subject_wf [inv_intros]:
  assumes "snapshot_wf ps" and "replace_subject ps s = Ok ps'"
  shows "snapshot_wf ps'"
proof -
  have ps': "ps' = ps\<lparr>ps_subjects := bt_insert (sp_uid s) s (ps_subjects ps)\<rparr>"
    and "validate_subject s (ps_actions ps) (ps_bundles ps) = Ok ()"
    using assms(2) by (auto simp: replace_subject_def snapshot_validate_subject_def result_simps)
  then show ?thesis
    using assms(1) by (auto simp: snapshot_wf_def list_all_entries btree_simps)
qed

end
