(* ===== verification/Policy_Mutation.thy ===== *)
theory Policy_Mutation
  imports Policy_Resolution
begin

section \<open>Administrator mutations of a subject\<close>

text \<open>
  \<^verbatim>\<open>portus-policy/src/mutation.rs\<close>. The source mutates a \<open>&mut SubjectPolicy\<close> and validates it last, so
  the candidate is returned beside the result: an early return leaves it as it was, a failed
  validation leaves it edited. The lemmas give the effect of each mutation on the declarative
  reading of the policy.
\<close>

datatype AdminMutation =
    Grant string PolicyEffect "string option" bool
  | Revoke string "string option"
  | BundleSet string bool

definition same_scope :: "GrantDefinition \<Rightarrow> string \<Rightarrow> string option \<Rightarrow> bool" where
  "same_scope g a res =
     (if gd_action g \<noteq> a then False
      else case res of
        Some r \<Rightarrow> length (gd_resources g) = 1 \<and> gd_resources g ! 0 = r
      | None \<Rightarrow> gd_resources g = [])"

definition retain_other_scopes ::
  "GrantDefinition list \<Rightarrow> string \<Rightarrow> string option \<Rightarrow> GrantDefinition list" where
  "retain_other_scopes gs a res = filter (\<lambda>g. \<not> same_scope g a res) gs"

fun set_selection :: "string \<Rightarrow> bool \<Rightarrow> BundleSelection list \<Rightarrow> BundleSelection list" where
  "set_selection b en [] = [\<lparr>bs_id = b, bs_enabled = en\<rparr>]"
| "set_selection b en (s # ss) =
     (if bs_id s = b then s\<lparr>bs_enabled := en\<rparr> # ss else s # set_selection b en ss)"

fun apply_admin_mutation ::
  "PolicySnapshot \<Rightarrow> SubjectPolicy \<Rightarrow> AdminMutation \<Rightarrow> SubjectPolicy \<times> (PolicyError + unit)" where
  "apply_admin_mutation ps s (Grant a eff res ack) =
     (case snapshot_action ps a of
        None \<Rightarrow> (s, Err (PolicyInvalid ''unknown policy action''))
      | Some d \<Rightarrow>
          if ad_root_equivalent d \<and> eff \<noteq> Reject \<and> \<not> ack
          then (s, Err (PolicyInvalid ''root-equivalent grant requires explicit acknowledgement''))
          else if ad_resource_required d \<noteq> (res \<noteq> None)
          then (s, Err (PolicyInvalid ''grant resource shape does not match action''))
          else
            let s' = s\<lparr>sp_grants := retain_other_scopes (sp_grants s) a res @
                  [\<lparr>gd_action = a, gd_effect = eff,
                    gd_resources = (case res of None \<Rightarrow> [] | Some r \<Rightarrow> [r])\<rparr>]\<rparr>
            in (s', snapshot_validate_subject ps s'))"
| "apply_admin_mutation ps s (Revoke a res) =
     (if snapshot_action ps a = None
      then (s, Err (PolicyInvalid ''unknown policy action''))
      else
        let s' = s\<lparr>sp_grants := retain_other_scopes (sp_grants s) a res\<rparr>
        in (s', snapshot_validate_subject ps s'))"
| "apply_admin_mutation ps s (BundleSet b en) =
     (if snapshot_bundle ps b = None
      then (s, Err (PolicyInvalid ''unknown policy bundle''))
      else
        let s' = s\<lparr>sp_bundles := set_selection b en (sp_bundles s)\<rparr>
        in (s', snapshot_validate_subject ps s'))"

subsection \<open>Scopes\<close>

lemma same_scope_iff: "same_scope g a res \<longleftrightarrow> grant_scope g = [(a, res)]"
  by (cases res) (auto simp: same_scope_def grant_scope_def length_Suc_conv map_eq_Cons_conv)

lemma same_scope_covers: "same_scope g a res \<Longrightarrow> covers k g \<longleftrightarrow> k = (a, res)"
  by (simp add: same_scope_iff covers_def)

lemma find_filter_other:
  "(\<And>x. x \<in> set xs \<Longrightarrow> \<not> Q x \<Longrightarrow> \<not> P x) \<Longrightarrow> find P (filter Q xs) = find P xs"
  by (induction xs) auto

lemma find_cover_retain:
  "k \<noteq> (a, res) \<Longrightarrow>
     find (covers k) (rev (retain_other_scopes gs a res)) = find (covers k) (rev gs)"
  unfolding retain_other_scopes_def rev_filter
  by (rule find_filter_other) (simp add: same_scope_covers)

subsection \<open>The effect of a mutation on the declarative reading\<close>

lemma mutation_validates:
  "apply_admin_mutation ps s mu = (s', Ok ()) \<Longrightarrow> snapshot_validate_subject ps s' = Ok ()"
  by (cases mu) (auto simp: Let_def split: option.splits if_splits)

lemma set_selection_ids: "bs_id ` set (set_selection b en ss) = insert b (bs_id ` set ss)"
  by (induction ss) auto

lemma mutation_uid: "apply_admin_mutation ps s mu = (s', r) \<Longrightarrow> sp_uid s' = sp_uid s"
  by (cases mu) (auto simp: Let_def split: option.splits if_splits)

lemma mutation_label_version:
  "apply_admin_mutation ps s mu = (s', r) \<Longrightarrow>
     sp_label s' = sp_label s \<and> sp_policy_version s' = sp_policy_version s"
  by (cases mu) (auto simp: Let_def split: option.splits if_splits)

lemma spec_grant_granted:
  assumes "apply_admin_mutation ps s (Grant a eff res ack) = (s', Ok ())"
  shows "\<exists>g. spec_grant ps s' (a, res) = Some (grant_view (ps_actions ps) g ''explicit_grant'' (a, res))
     \<and> gd_effect g = eff"
proof -
  let ?g = "\<lparr>gd_action = a, gd_effect = eff, gd_resources = (case res of None \<Rightarrow> [] | Some r \<Rightarrow> [r])\<rparr>"
  have "sp_grants s' = retain_other_scopes (sp_grants s) a res @ [?g]"
    using assms by (auto simp: Let_def split: option.splits if_splits)
  moreover have "covers (a, res) ?g"
    by (cases res) (simp_all add: covers_def grant_scope_def)
  ultimately have "find (covers (a, res)) (rev (sp_grants s')) = Some ?g"
    by simp
  then show ?thesis
    by (intro exI [of _ ?g]) (simp add: spec_grant_def)
qed

lemma spec_grant_other_key:
  assumes "apply_admin_mutation ps s mu = (s', r)"
    and "(\<exists>eff ack. mu = Grant a eff res ack) \<or> mu = Revoke a res" and "k \<noteq> (a, res)"
  shows "spec_grant ps s' k = spec_grant ps s k"
proof -
  have not_new: "\<not> covers k \<lparr>gd_action = a, gd_effect = e,
      gd_resources = (case res of None \<Rightarrow> [] | Some r \<Rightarrow> [r])\<rparr>" for e
    using assms(3) by (cases res) (auto simp: covers_def grant_scope_def)
  have "sp_bundles s' = sp_bundles s"
    and "find (covers k) (rev (sp_grants s')) = find (covers k) (rev (sp_grants s))"
    using assms not_new by (auto simp: Let_def find_cover_retain split: option.splits if_splits)
  then show ?thesis
    by (simp add: spec_grant_def enabled_grants_def split: option.split)
qed

lemma spec_grant_revoked:
  assumes "apply_admin_mutation ps s (Revoke a res) = (s', Ok ())"
    and "\<And>g. g \<in> set (sp_grants s) \<Longrightarrow> covers (a, res) g \<Longrightarrow> same_scope g a res"
  shows "find (covers (a, res)) (rev (sp_grants s')) = None"
  using assms
  by (auto simp: Let_def retain_other_scopes_def find_None_iff split: if_splits)

lemma replace_subject_lookup:
  assumes "replace_subject ps s = Ok ps'"
  shows "snapshot_subject ps' u = (if u = sp_uid s then s else snapshot_subject ps u)"
    and "ps_actions ps' = ps_actions ps" and "ps_bundles ps' = ps_bundles ps"
    and "ps_global ps' = ps_global ps"
  using assms
  by (auto simp: replace_subject_def result_simps snapshot_subject_def btree_simps)

lemma spec_grant_snapshot_cong:
  "ps_actions ps' = ps_actions ps \<Longrightarrow> ps_bundles ps' = ps_bundles ps \<Longrightarrow>
     spec_grant ps' s = spec_grant ps s"
  by (rule ext) (auto simp: spec_grant_def enabled_grants_def split: option.split)

subsection \<open>Evaluation\<close>

lemma let_case_option_pair:
  "(let (e, r) = (case x of None \<Rightarrow> (e0, r0) | Some g \<Rightarrow> (f g, h g)) in F e r) =
     F (case x of None \<Rightarrow> e0 | Some g \<Rightarrow> f g) (case x of None \<Rightarrow> r0 | Some g \<Rightarrow> h g)"
  by (cases x) simp_all

lemma evaluate_Ok_iff:
  "evaluate ps p c = Ok d \<longleftrightarrow>
     (\<exists>a m. bt_get (ps_actions ps) (pc_action c) = Some a \<and> validate_context a c = Ok () \<and>
        resolved_grant_map ps (snapshot_subject ps (uid p)) = Ok m \<and>
        d = \<lparr>pd_principal = p, pd_action = pc_action c, pd_resource = pc_resource c,
             pd_effect = (case bt_get m (pc_action c, pc_resource c) of
               None \<Rightarrow> gp_default_effect (ps_global ps) | Some g \<Rightarrow> gv_effect g),
             pd_reason_code = (case bt_get m (pc_action c, pc_resource c) of
               None \<Rightarrow> ''default_reject'' | Some g \<Rightarrow> gv_source g),
             pd_enforcement_class = ad_class a, pd_root_equivalent = ad_root_equivalent a\<rparr>)"
  unfolding evaluate_def let_case_option_pair by (auto simp: result_simps)

text \<open>The decision in terms of the declarative reading.\<close>

lemma evaluate_spec:
  assumes "evaluate ps p c = Ok d"
  defines "s \<equiv> snapshot_subject ps (uid p)" and "k \<equiv> (pc_action c, pc_resource c)"
  shows "pd_effect d = (case spec_grant ps s k of
      None \<Rightarrow> gp_default_effect (ps_global ps) | Some g \<Rightarrow> gv_effect g)"
    and "pd_reason_code d = (case spec_grant ps s k of
      None \<Rightarrow> ''default_reject'' | Some g \<Rightarrow> gv_source g)"
    and "\<exists>a. bt_get (ps_actions ps) (pc_action c) = Some a \<and> pd_root_equivalent d = ad_root_equivalent a
      \<and> pd_enforcement_class d = ad_class a"
    and "pd_principal d = p" and "pd_action d = pc_action c" and "pd_resource d = pc_resource c"
  using assms(1) unfolding evaluate_Ok_iff s_def k_def
  by (auto simp: resolved_grant_map_get)

lemma spec_grant_source:
  assumes "spec_grant ps s k = Some v"
  shows "(\<exists>g\<in>set (sp_grants s). covers k g \<and> v = grant_view (ps_actions ps) g ''explicit_grant'' k)
    \<or> (\<exists>bg\<in>set (enabled_grants ps s). covers k (snd bg) \<and>
         v = grant_view (ps_actions ps) (snd bg) (''bundle:'' @ bd_id (fst bg)) k)"
proof (cases "find (covers k) (rev (sp_grants s))")
  case None
  with assms obtain bg where "find (\<lambda>bg. covers k (snd bg)) (enabled_grants ps s) = Some bg"
    and "v = grant_view (ps_actions ps) (snd bg) (''bundle:'' @ bd_id (fst bg)) k"
    by (auto simp: spec_grant_def split: option.splits)
  then show ?thesis by (blast dest: find_SomeD)
next
  case (Some g)
  with assms have "v = grant_view (ps_actions ps) g ''explicit_grant'' k"
    by (simp add: spec_grant_def)
  with find_SomeD [OF Some] show ?thesis by auto
qed

end
