(* ===== verification/Policy_Properties.thy ===== *)
theory Policy_Properties
  imports Policy_Mutation
begin

section \<open>Properties of the administrator policy\<close>

text \<open>
  What makes \<^verbatim>\<open>portus-policy\<close> correct, stated over the definitions of \<open>Policy\<close> and
  \<open>Policy_Mutation\<close>, each with a witness on a small concrete policy (\<open>demo_snapshot\<close>).
\<close>

subsection \<open>A concrete policy\<close>

definition demo_global :: GlobalPolicy where
  "demo_global = \<lparr>gp_policy_version = 1, gp_default_effect = Reject\<rparr>"

definition demo_restart :: ActionDefinition where
  "demo_restart = \<lparr>ad_id = ''svc'', ad_label = ''Restart'', ad_class = PrivilegedTypedOperation,
     ad_resource_kind = Some ''openrc'', ad_resource_required = True, ad_root_equivalent = False\<rparr>"

definition demo_root :: ActionDefinition where
  "demo_root = \<lparr>ad_id = ''root'', ad_label = ''Root'', ad_class = RootEquivalent,
     ad_resource_kind = None, ad_resource_required = False, ad_root_equivalent = True\<rparr>"

definition demo_registry :: ActionRegistry where
  "demo_registry = \<lparr>reg_policy_version = 1, reg_actions = [demo_restart, demo_root]\<rparr>"

definition demo_grant :: "string \<Rightarrow> PolicyEffect \<Rightarrow> string list \<Rightarrow> GrantDefinition" where
  "demo_grant a e rs = \<lparr>gd_action = a, gd_effect = e, gd_resources = rs\<rparr>"

definition demo_ops :: BundleDefinition where
  "demo_ops = \<lparr>bd_policy_version = 1, bd_id = ''ops'', bd_label = ''Ops'', bd_broad_default = True,
     bd_grants = [demo_grant ''svc'' Allow [''nginx'', ''sshd'']]\<rparr>"

definition demo_strict :: BundleDefinition where
  "demo_strict = \<lparr>bd_policy_version = 1, bd_id = ''strict'', bd_label = ''Strict'',
     bd_broad_default = False, bd_grants = [demo_grant ''svc'' Reject [''sshd'']]\<rparr>"

definition demo_subject :: SubjectPolicy where
  "demo_subject = \<lparr>sp_policy_version = 1, sp_uid = 1000, sp_label = None,
     sp_bundles = [\<lparr>bs_id = ''ops'', bs_enabled = True\<rparr>],
     sp_grants = [demo_grant ''root'' Prompt [], demo_grant ''svc'' Allow [''a'', ''b'']]\<rparr>"

definition demo_snapshot :: PolicySnapshot where
  "demo_snapshot = \<lparr>ps_global = demo_global,
     ps_actions = [(''root'', demo_root), (''svc'', demo_restart)],
     ps_bundles = [(''ops'', demo_ops), (''strict'', demo_strict)],
     ps_subjects = [(1000, demo_subject)]\<rparr>"

definition demo_user :: Principal where
  "demo_user = \<lparr>uid = 1000, gid = 1000\<rparr>"

definition demo_context :: "string \<Rightarrow> string option \<Rightarrow> PolicyActionContext" where
  "demo_context a r = \<lparr>pc_action = a, pc_resource = r\<rparr>"

lemma demo_from_documents:
  "from_documents demo_global demo_registry [demo_ops, demo_strict] [demo_subject] = Ok demo_snapshot"
  by code_simp

lemma demo_wf: "snapshot_wf demo_snapshot"
  by (rule from_documents_wf [OF demo_from_documents])

lemma demo_eval: "evaluate demo_snapshot demo_user (demo_context ''svc'' (Some ''nginx'')) = Ok
   \<lparr>pd_principal = demo_user, pd_action = ''svc'', pd_resource = Some ''nginx'', pd_effect = Allow,
    pd_reason_code = ''bundle:ops'', pd_enforcement_class = PrivilegedTypedOperation,
    pd_root_equivalent = False\<rparr>"
  by code_simp

subsection \<open>Evaluation implements the declarative reading\<close>

definition conflict_error :: PolicyError where
  "conflict_error = PolicyInvalid ''enabled bundles contain conflicting grants''"

definition spec_decision ::
  "PolicySnapshot \<Rightarrow> Principal \<Rightarrow> PolicyActionContext \<Rightarrow> ActionDefinition \<Rightarrow> PolicyDecision" where
  "spec_decision ps p c a =
     (let s = snapshot_subject ps (uid p); k = (pc_action c, pc_resource c) in
      \<lparr>pd_principal = p, pd_action = pc_action c, pd_resource = pc_resource c,
       pd_effect = spec_effect ps s k,
       pd_reason_code = (case spec_grant ps s k of
         None \<Rightarrow> ''default_reject'' | Some g \<Rightarrow> gv_source g),
       pd_enforcement_class = ad_class a, pd_root_equivalent = ad_root_equivalent a\<rparr>)"

definition spec_evaluate ::
  "PolicySnapshot \<Rightarrow> Principal \<Rightarrow> PolicyActionContext \<Rightarrow> PolicyError + PolicyDecision" where
  "spec_evaluate ps p c =
     (case snapshot_action ps (pc_action c) of
        None \<Rightarrow> Err (PolicyInvalid ''unknown policy action'')
      | Some a \<Rightarrow>
          and_then (validate_context a c) (\<lambda>_.
          if conflict_free (enabled_grants ps (snapshot_subject ps (uid p)))
          then Ok (spec_decision ps p c a) else Err conflict_error))"

lemma wf_default_reject: "snapshot_wf ps \<Longrightarrow> gp_default_effect (ps_global ps) = Reject"
  by (simp add: snapshot_wf_def)

lemma evaluate_eq_spec:
  assumes "snapshot_wf ps"
  shows "evaluate ps p c = spec_evaluate ps p c"
proof -
  let ?s = "snapshot_subject ps (uid p)"
  note cases = resolved_grant_map_cases [OF assms snapshot_wf_subject(2) [OF assms, of "uid p"]]
  show ?thesis
  proof (cases "resolved_grant_map ps ?s")
    case (Inl e)
    with cases have "\<not> conflict_free (enabled_grants ps ?s)" and "e = conflict_error"
      by (auto simp: conflict_error_def)
    with Inl show ?thesis
      by (cases "bt_get (ps_actions ps) (pc_action c)")
        (simp_all add: evaluate_def spec_evaluate_def snapshot_action_def)
  next
    case (Inr m)
    with cases have "conflict_free (enabled_grants ps ?s)" by auto
    with Inr show ?thesis
      by (cases "bt_get (ps_actions ps) (pc_action c)"; cases "spec_grant ps ?s (pc_action c, pc_resource c)")
        (simp_all add: evaluate_def spec_evaluate_def snapshot_action_def spec_decision_def Let_def
          spec_effect_def resolved_grant_map_get [OF Inr] wf_default_reject [OF assms])
  qed
qed

lemma spec_effect_source:
  assumes "spec_effect ps s k \<noteq> Reject"
  shows "\<exists>v. spec_grant ps s k = Some v \<and> gv_effect v = spec_effect ps s k"
  using assms by (auto simp: spec_effect_def split: option.splits)

lemma spec_effect_grants:
  assumes "spec_effect ps s k \<noteq> Reject"
  shows "(\<exists>g\<in>set (sp_grants s). covers k g \<and> gd_effect g = spec_effect ps s k) \<or>
     (\<exists>bg\<in>set (enabled_grants ps s). covers k (snd bg) \<and> gd_effect (snd bg) = spec_effect ps s k)"
proof -
  from spec_effect_source [OF assms] obtain v
    where v: "spec_grant ps s k = Some v" "gv_effect v = spec_effect ps s k" by blast
  from spec_grant_source [OF v(1)] v(2) show ?thesis by fastforce
qed

text \<open>C1. On every snapshot that satisfies the validation invariant, \<open>evaluate\<close> is the declarative
  reading of the policy: an unknown action and a context of the wrong shape are refused, a
  subject whose enabled bundles contradict each other gets exactly the conflict error, and in
  every other case the decision carries the effect of the last covering explicit grant, else of
  the first covering grant of an enabled bundle, else reject, with its source as the reason.\<close>

theorem evaluate_refines_spec:
  assumes "snapshot_wf ps"
  shows "evaluate ps p c = spec_evaluate ps p c"
  using assms by (rule evaluate_eq_spec)

theorem evaluate_refines_spec_witness:
  "snapshot_wf demo_snapshot \<and>
   spec_evaluate demo_snapshot demo_user (demo_context ''svc'' (Some ''nginx'')) = Ok
   \<lparr>pd_principal = demo_user, pd_action = ''svc'', pd_resource = Some ''nginx'', pd_effect = Allow,
    pd_reason_code = ''bundle:ops'', pd_enforcement_class = PrivilegedTypedOperation,
    pd_root_equivalent = False\<rparr>"
  using evaluate_refines_spec [OF demo_wf] demo_eval demo_wf by simp

subsection \<open>Least privilege\<close>

lemma evaluate_OkD:
  assumes "snapshot_wf ps" and "evaluate ps p c = Ok d"
  shows "\<exists>a. snapshot_action ps (pc_action c) = Some a \<and> validate_context a c = Ok () \<and>
     conflict_free (enabled_grants ps (snapshot_subject ps (uid p))) \<and> d = spec_decision ps p c a"
  using assms(2) unfolding evaluate_eq_spec [OF assms(1)] spec_evaluate_def
  by (auto simp: result_simps split: option.splits if_splits)

lemma spec_decision_simps [simp]:
  "pd_effect (spec_decision ps p c a) =
     spec_effect ps (snapshot_subject ps (uid p)) (pc_action c, pc_resource c)"
  "pd_root_equivalent (spec_decision ps p c a) = ad_root_equivalent a"
  "pd_enforcement_class (spec_decision ps p c a) = ad_class a"
  "pd_reason_code (spec_decision ps p c a) =
     (case spec_grant ps (snapshot_subject ps (uid p)) (pc_action c, pc_resource c) of
        None \<Rightarrow> ''default_reject'' | Some g \<Rightarrow> gv_source g)"
  "pd_action (spec_decision ps p c a) = pc_action c"
  "pd_resource (spec_decision ps p c a) = pc_resource c"
  "pd_principal (spec_decision ps p c a) = p"
  by (simp_all add: spec_decision_def Let_def)

lemma root_equivalent_not_bundled:
  assumes "snapshot_wf ps" and "snapshot_action ps (fst k) = Some a" and "ad_root_equivalent a"
    and "bg \<in> set (enabled_grants ps s)"
  shows "\<not> covers k (snd bg)"
  using enabled_grants_valid(2) [OF assms(1,4)] assms(2,3)
  by (auto simp: snapshot_action_def index_action_def dest!: covers_action)

text \<open>C11. Fail closed: a principal obtains allow or prompt for a request only if an explicit grant of
  its own subject, or a grant of a bundle enabled for it, names exactly that action and
  resource with exactly that effect.\<close>

theorem evaluate_fail_closed:
  assumes "snapshot_wf ps" and "evaluate ps p c = Ok d" and "pd_effect d \<noteq> Reject"
  shows "(\<exists>g\<in>set (sp_grants (snapshot_subject ps (uid p))).
       covers (pc_action c, pc_resource c) g \<and> gd_effect g = pd_effect d) \<or>
     (\<exists>bg\<in>set (enabled_grants ps (snapshot_subject ps (uid p))).
       covers (pc_action c, pc_resource c) (snd bg) \<and> gd_effect (snd bg) = pd_effect d)"
proof -
  obtain a where "d = spec_decision ps p c a"
    using evaluate_OkD [OF assms(1,2)] by blast
  with assms(3) spec_effect_grants show ?thesis by simp
qed

theorem evaluate_fail_closed_witness:
  "\<exists>bg\<in>set (enabled_grants demo_snapshot (snapshot_subject demo_snapshot 1000)).
     covers (''svc'', Some ''nginx'') (snd bg) \<and> gd_effect (snd bg) = Allow"
  using evaluate_fail_closed [OF demo_wf demo_eval]
  by (simp add: demo_user_def demo_context_def demo_snapshot_def snapshot_subject_def bt_get_def
      demo_subject_def demo_grant_def covers_def grant_scope_def)

text \<open>C5. Root-equivalent authority is never inherited: a decision on a root-equivalent action that is
  not reject rests on an explicit grant of the subject itself, whatever bundles are enabled.\<close>

theorem root_equivalent_needs_explicit_grant:
  assumes "snapshot_wf ps" and "evaluate ps p c = Ok d"
    and "pd_root_equivalent d" and "pd_effect d \<noteq> Reject"
  shows "pd_reason_code d = ''explicit_grant'' \<and>
     (\<exists>g\<in>set (sp_grants (snapshot_subject ps (uid p))).
        covers (pc_action c, pc_resource c) g \<and> gd_effect g = pd_effect d)"
proof -
  let ?s = "snapshot_subject ps (uid p)" and ?k = "(pc_action c, pc_resource c)"
  obtain a where a: "snapshot_action ps (fst ?k) = Some a" and d: "d = spec_decision ps p c a"
    using evaluate_OkD [OF assms(1,2)] by auto
  obtain v where v: "spec_grant ps ?s ?k = Some v" "gv_effect v = spec_effect ps ?s ?k"
    using spec_effect_source [of ps ?s ?k] assms(4) d by auto
  have "\<not> covers ?k (snd bg)" if "bg \<in> set (enabled_grants ps ?s)" for bg
    using root_equivalent_not_bundled [OF assms(1) a _ that] assms(3) d by simp
  with spec_grant_source [OF v(1)] obtain g where "g \<in> set (sp_grants ?s)" "covers ?k g"
    and "v = grant_view (ps_actions ps) g ''explicit_grant'' ?k" by auto
  with v d show ?thesis by (auto simp: grant_view_def intro!: bexI [of _ g])
qed

lemma demo_eval_root: "evaluate demo_snapshot demo_user (demo_context ''root'' None) = Ok
   \<lparr>pd_principal = demo_user, pd_action = ''root'', pd_resource = None, pd_effect = Prompt,
    pd_reason_code = ''explicit_grant'', pd_enforcement_class = RootEquivalent,
    pd_root_equivalent = True\<rparr>"
  by code_simp

theorem root_equivalent_needs_explicit_grant_witness:
  "\<exists>g\<in>set (sp_grants (snapshot_subject demo_snapshot 1000)).
     covers (''root'', None) g \<and> gd_effect g = Prompt"
  using root_equivalent_needs_explicit_grant [OF demo_wf demo_eval_root]
  by (simp add: demo_user_def demo_context_def)

text \<open>Explicit grants are authoritative: when a grant of the subject covers the request, the
  decision is that grant's effect, also against an enabled bundle that says otherwise.\<close>

theorem explicit_grant_decides:
  assumes "snapshot_wf ps" and "evaluate ps p c = Ok d"
    and "g \<in> set (sp_grants (snapshot_subject ps (uid p)))"
    and "covers (pc_action c, pc_resource c) g"
  shows "pd_effect d = gd_effect g \<and> pd_reason_code d = ''explicit_grant''"
proof -
  let ?s = "snapshot_subject ps (uid p)" and ?k = "(pc_action c, pc_resource c)"
  have "distinct (concat (map grant_scope (sp_grants ?s)))"
    using validate_grants_unique validate_subject_Ok(1) snapshot_wf_subject(2) [OF assms(1)] by blast
  then have "find (covers ?k) (rev (sp_grants ?s)) = Some g"
    using assms(3,4) by (rule find_unique_cover)
  then have "spec_grant ps ?s ?k = Some (grant_view (ps_actions ps) g ''explicit_grant'' ?k)"
    by (simp add: spec_grant_def)
  then show ?thesis
    using evaluate_OkD [OF assms(1,2)] by (auto simp: spec_effect_def grant_view_def)
qed

theorem explicit_grant_decides_witness:
  "pd_effect (projr (evaluate demo_snapshot demo_user (demo_context ''root'' None))) = Prompt"
  using explicit_grant_decides [OF demo_wf demo_eval_root, of "demo_grant ''root'' Prompt []"]
  by (simp add: demo_user_def demo_context_def demo_snapshot_def snapshot_subject_def bt_get_def
      demo_subject_def demo_grant_def covers_def grant_scope_def demo_eval_root
        [unfolded demo_user_def demo_context_def demo_snapshot_def demo_subject_def demo_grant_def])

subsection \<open>The effective view\<close>

lemma covers_valid_context:
  assumes wf: "snapshot_wf ps" and keys: "grant_keys g (ps_actions ps) = Ok (grant_scope g)"
    and "covers (a, r) g"
  shows "\<exists>d. snapshot_action ps a = Some d \<and> ad_root_equivalent d =
       ad_root_equivalent (index_action (ps_actions ps) (gd_action g)) \<and>
     validate_context d \<lparr>pc_action = a, pc_resource = r\<rparr> = Ok ()"
proof -
  have a: "a = gd_action g" using covers_action [OF assms(3)] by simp
  obtain d where d: "bt_get (ps_actions ps) a = Some d"
    and req: "ad_resource_required d = (gd_resources g \<noteq> [])"
    using grant_keys_Ok(3) [OF keys] a by auto
  have "validate_identifier a ''action id'' = Ok ()"
    using snapshot_wf_action [OF wf d] by (auto simp: check_action_def result_simps)
  moreover have "r = (None :: string option)" if "gd_resources g = []"
    using assms(3) that by (simp add: covers_def grant_scope_def)
  moreover have "\<exists>x. r = Some x \<and> validate_resource x = Ok ()" if ne: "gd_resources g \<noteq> []"
  proof -
    obtain x where "r = Some x" "x \<in> set (gd_resources g)"
      using assms(3) ne by (auto simp: covers_def grant_scope_def)
    moreover have "resource_keys a [] (gd_resources g) = Ok (grant_scope g)"
      using keys d req ne a by (auto simp: grant_keys_def split: if_splits)
    ultimately show ?thesis using resource_keys_Ok by blast
  qed
  ultimately show ?thesis
    using d req by (cases "gd_resources g = []")
      (auto simp: validate_context_def snapshot_action_def index_action_def a)
qed

lemma spec_grant_decides:
  assumes wf: "snapshot_wf ps" and v: "spec_grant ps (snapshot_subject ps (uid p)) (a, r) = Some v"
  shows "\<exists>d. snapshot_action ps a = Some d \<and> ad_root_equivalent d = gv_root_equivalent v
     \<and> evaluate ps p \<lparr>pc_action = a, pc_resource = r\<rparr> =
         (if conflict_free (enabled_grants ps (snapshot_subject ps (uid p)))
          then Ok \<lparr>pd_principal = p, pd_action = a, pd_resource = r, pd_effect = gv_effect v,
            pd_reason_code = gv_source v, pd_enforcement_class = ad_class d,
            pd_root_equivalent = ad_root_equivalent d\<rparr>
          else Err conflict_error)"
proof -
  obtain g src where "v = grant_view (ps_actions ps) g src (a, r)" and "covers (a, r) g"
    and "grant_keys g (ps_actions ps) = Ok (grant_scope g)"
    using spec_grant_source [OF v] enabled_grants_valid(1) [OF wf]
      validate_grants_Ok(1) [OF validate_subject_Ok(1) [OF snapshot_wf_subject(2) [OF wf]]]
    by metis
  with covers_valid_context [OF wf] obtain d where "snapshot_action ps a = Some d"
    and "ad_root_equivalent d = gv_root_equivalent v"
    and "validate_context d \<lparr>pc_action = a, pc_resource = r\<rparr> = Ok ()"
    by (fastforce simp: grant_view_def)
  with v show ?thesis
    by (auto simp: evaluate_eq_spec [OF wf] spec_evaluate_def spec_decision_def spec_effect_def Let_def)
qed

lemma spec_grant_evaluates:
  assumes wf: "snapshot_wf ps" and cf: "conflict_free (enabled_grants ps (snapshot_subject ps (uid p)))"
    and v: "spec_grant ps (snapshot_subject ps (uid p)) (a, r) = Some v"
  shows "\<exists>d. evaluate ps p \<lparr>pc_action = a, pc_resource = r\<rparr> = Ok d \<and> pd_effect d = gv_effect v
     \<and> pd_root_equivalent d = gv_root_equivalent v"
  using spec_grant_decides [OF wf v] cf by auto

lemma effective_Ok:
  assumes "effective ps p = Ok v"
  shows "\<exists>m. resolved_grant_map ps (snapshot_subject ps (uid p)) = Ok m \<and> ev_grants v = bt_values m"
    and "ev_has_root_equivalent_authority v \<longleftrightarrow>
      (\<exists>g\<in>set (ev_grants v). gv_root_equivalent g \<and> gv_effect g \<noteq> Reject)"
  using assms by (auto simp: effective_def Let_def resolved_grants_def result_simps list_ex_iff)

lemma effective_grants_iff:
  assumes "effective ps p = Ok v"
  shows "g \<in> set (ev_grants v) \<longleftrightarrow>
     (\<exists>k. spec_grant ps (snapshot_subject ps (uid p)) k = Some g)"
proof -
  obtain m where m: "resolved_grant_map ps (snapshot_subject ps (uid p)) = Ok m"
    and v: "ev_grants v = bt_values m" using effective_Ok(1) [OF assms] by blast
  have "bt_sorted m" using m by (rule resolved_grant_map_sorted)
  then show ?thesis
    unfolding v bt_values_def resolved_grant_map_get [OF m, symmetric]
    by (force simp: bt_get_in_set)
qed

text \<open>The flag the effective view shows to users, \<open>has_root_equivalent_authority\<close>, is exact: it is
  set iff some request of this principal is decided on a root-equivalent action with an effect
  other than reject.\<close>

theorem root_equivalent_flag_exact:
  assumes "snapshot_wf ps" and "effective ps p = Ok v"
  shows "ev_has_root_equivalent_authority v \<longleftrightarrow>
     (\<exists>c d. evaluate ps p c = Ok d \<and> pd_root_equivalent d \<and> pd_effect d \<noteq> Reject)"
proof
  let ?s = "snapshot_subject ps (uid p)"
  have cf: "conflict_free (enabled_grants ps ?s)"
    using effective_Ok(1) [OF assms(2)] resolved_grant_map_cases(1) [OF assms(1)]
      snapshot_wf_subject(2) [OF assms(1)] by blast
  {
    assume "ev_has_root_equivalent_authority v"
    then obtain g a r where "spec_grant ps ?s (a, r) = Some g"
      and "gv_root_equivalent g" "gv_effect g \<noteq> Reject"
      using effective_Ok(2) [OF assms(2)] effective_grants_iff [OF assms(2)] by auto
    with spec_grant_evaluates [OF assms(1) cf]
    show "\<exists>c d. evaluate ps p c = Ok d \<and> pd_root_equivalent d \<and> pd_effect d \<noteq> Reject"
      by metis
  next
    assume "\<exists>c d. evaluate ps p c = Ok d \<and> pd_root_equivalent d \<and> pd_effect d \<noteq> Reject"
    then obtain c d where d: "evaluate ps p c = Ok d" "pd_root_equivalent d" "pd_effect d \<noteq> Reject"
      by blast
    let ?k = "(pc_action c, pc_resource c)"
    obtain a where da: "d = spec_decision ps p c a"
      using evaluate_OkD [OF assms(1) d(1)] by blast
    with d(3) obtain g where g: "spec_grant ps ?s ?k = Some g" "gv_effect g = pd_effect d"
      using spec_effect_source [of ps ?s ?k] by auto
    with spec_grant_evaluates [OF assms(1) cf, of "pc_action c" "pc_resource c" g] d(1,2)
    have "gv_root_equivalent g" by (cases c) auto
    moreover have "g \<in> set (ev_grants v)"
      unfolding effective_grants_iff [OF assms(2)] using g(1) by blast
    ultimately show "ev_has_root_equivalent_authority v"
      using effective_Ok(2) [OF assms(2)] g(2) d(3) by auto
  }
qed

theorem root_equivalent_flag_exact_witness:
  "\<exists>v. effective demo_snapshot demo_user = Ok v \<and> ev_has_root_equivalent_authority v"
proof -
  have "is_ok (effective demo_snapshot demo_user)" by code_simp
  then obtain v where v: "effective demo_snapshot demo_user = Ok v" by (auto simp: is_ok_iff)
  have "\<exists>c d. evaluate demo_snapshot demo_user c = Ok d \<and> pd_root_equivalent d \<and> pd_effect d \<noteq> Reject"
    using demo_eval_root by (intro exI conjI) auto
  with v root_equivalent_flag_exact [OF demo_wf v] show ?thesis by blast
qed

subsection \<open>Every snapshot of a running system\<close>

text \<open>
  A snapshot in use was built from documents and then replaced, any number of times, by
  \<open>replace_subject\<close> with a mutated subject.
\<close>

inductive snapshot_history :: "PolicySnapshot \<Rightarrow> bool" where
  loaded: "from_documents g r bs ss = Ok ps \<Longrightarrow> snapshot_history ps"
| mutated: "snapshot_history ps \<Longrightarrow>
    apply_admin_mutation ps (snapshot_subject ps u) mu = (s, Ok ()) \<Longrightarrow>
    replace_subject ps s = Ok ps' \<Longrightarrow> snapshot_history ps'"

lemma snapshot_history_wf: "snapshot_history ps \<Longrightarrow> snapshot_wf ps"
  by (induction rule: snapshot_history.induct) (blast intro: inv_intros)+

lemma replace_mutated_total:
  "apply_admin_mutation ps s mu = (s', Ok ()) \<Longrightarrow> \<exists>ps'. replace_subject ps s' = Ok ps'"
  by (auto simp: replace_subject_def dest!: mutation_validates)

text \<open>C14. The validation invariant holds of every snapshot a running system can hold, and an accepted
  mutation can always be installed: \<open>replace_subject\<close> never refuses a subject that
  \<open>apply_admin_mutation\<close> accepted.\<close>

theorem snapshot_invariant:
  assumes "snapshot_history ps"
  shows "snapshot_wf ps \<and>
     (\<forall>u mu s. apply_admin_mutation ps (snapshot_subject ps u) mu = (s, Ok ()) \<longrightarrow>
        (\<exists>ps'. replace_subject ps s = Ok ps' \<and> snapshot_wf ps'))"
  using snapshot_history_wf [OF assms]
  by (auto dest!: replace_mutated_total intro: replace_subject_wf)

lemma demo_history: "snapshot_history demo_snapshot"
  using demo_from_documents by (rule loaded)

lemma demo_grant_mutation:
  "snd (apply_admin_mutation demo_snapshot (snapshot_subject demo_snapshot 1000)
     (Grant ''svc'' Reject (Some ''sshd'') False)) = Ok ()"
  by code_simp

theorem snapshot_invariant_witness:
  "\<exists>s ps'. apply_admin_mutation demo_snapshot (snapshot_subject demo_snapshot 1000)
       (Grant ''svc'' Reject (Some ''sshd'') False) = (s, Ok ()) \<and>
     replace_subject demo_snapshot s = Ok ps' \<and> snapshot_wf ps'"
  using snapshot_invariant [OF demo_history] demo_grant_mutation by (metis prod.collapse)

subsection \<open>What a mutation changes\<close>

lemma evaluate_frame:
  assumes wf: "snapshot_wf ps" and rep: "replace_subject ps s' = Ok ps'"
    and same: "uid p \<noteq> sp_uid s' \<or>
      (enabled_grants ps s' = enabled_grants ps (snapshot_subject ps (uid p)) \<and>
       spec_grant ps s' (pc_action c, pc_resource c) =
       spec_grant ps (snapshot_subject ps (uid p)) (pc_action c, pc_resource c))"
  shows "evaluate ps' p c = evaluate ps p c"
proof -
  note look = replace_subject_lookup [OF rep]
  have wf': "snapshot_wf ps'" using wf rep by (rule replace_subject_wf)
  have "enabled_grants ps' = enabled_grants ps"
    by (rule ext) (simp add: enabled_grants_def look)
  moreover have "spec_grant ps' = spec_grant ps"
    by (rule ext spec_grant_snapshot_cong)+ (simp_all add: look)
  ultimately show ?thesis
    using same unfolding evaluate_eq_spec [OF wf] evaluate_eq_spec [OF wf']
    by (auto simp: spec_evaluate_def spec_decision_def spec_effect_def snapshot_action_def look Let_def
        split: option.split)
qed

lemma grant_mutation_bundles:
  assumes "apply_admin_mutation ps s mu = (s', r)"
    and "(\<exists>eff ack. mu = Grant a eff res ack) \<or> mu = Revoke a res"
  shows "sp_bundles s' = sp_bundles s"
  using assms by (auto simp: Let_def split: option.splits if_splits)

text \<open>C12. Granting does what it says and nothing else. After an accepted grant of an effect on one action
  and resource to one uid is installed, that request of that uid is answered with the granted effect,
  for the reason \<open>explicit_grant\<close> and with the class and the root-equivalence of the action, provided
  that the bundles enabled for the uid do not contradict each other; if they do, the request still fails
  with the conflict error. Every other request of every principal is decided exactly as before, errors
  included.\<close>

theorem grant_then_evaluate:
  assumes "snapshot_wf ps"
    and "apply_admin_mutation ps (snapshot_subject ps u) (Grant a eff res ack) = (s', Ok ())"
    and "replace_subject ps s' = Ok ps'"
  shows "(uid p = u \<and> (pc_action c, pc_resource c) = (a, res) \<longrightarrow>
       (\<exists>d. snapshot_action ps a = Some d \<and> evaluate ps' p c =
         (if conflict_free (enabled_grants ps (snapshot_subject ps u))
          then Ok \<lparr>pd_principal = p, pd_action = a, pd_resource = res, pd_effect = eff,
            pd_reason_code = ''explicit_grant'', pd_enforcement_class = ad_class d,
            pd_root_equivalent = ad_root_equivalent d\<rparr>
          else Err conflict_error))) \<and>
     (uid p \<noteq> u \<or> (pc_action c, pc_resource c) \<noteq> (a, res) \<longrightarrow> evaluate ps' p c = evaluate ps p c)"
proof (intro conjI impI)
  have wf': "snapshot_wf ps'" using assms(1,3) by (rule replace_subject_wf)
  have uid: "sp_uid s' = u"
    using mutation_uid [OF assms(2)] snapshot_wf_subject(1) [OF assms(1)] by simp
  have bundles: "sp_bundles s' = sp_bundles (snapshot_subject ps u)"
    by (rule grant_mutation_bundles [OF assms(2)]) blast
  note look = replace_subject_lookup [OF assms(3)]
  {
    assume at: "uid p = u \<and> (pc_action c, pc_resource c) = (a, res)"
    then have c: "c = \<lparr>pc_action = a, pc_resource = res\<rparr>" by simp
    have "spec_grant ps' = spec_grant ps"
      by (rule ext spec_grant_snapshot_cong)+ (simp_all add: look)
    with spec_grant_granted [OF assms(2)] at uid obtain g where "gd_effect g = eff"
      "spec_grant ps' (snapshot_subject ps' (uid p)) (a, res)
        = Some (grant_view (ps_actions ps) g ''explicit_grant'' (a, res))"
      by (auto simp: look)
    with spec_grant_decides [OF wf'] at uid bundles
    show "\<exists>d. snapshot_action ps a = Some d \<and> evaluate ps' p c =
         (if conflict_free (enabled_grants ps (snapshot_subject ps u))
          then Ok \<lparr>pd_principal = p, pd_action = a, pd_resource = res, pd_effect = eff,
            pd_reason_code = ''explicit_grant'', pd_enforcement_class = ad_class d,
            pd_root_equivalent = ad_root_equivalent d\<rparr>
          else Err conflict_error)"
      unfolding c by (fastforce simp: look enabled_grants_def snapshot_action_def grant_view_def)
  next
    assume other: "uid p \<noteq> u \<or> (pc_action c, pc_resource c) \<noteq> (a, res)"
    have "spec_grant ps s' k = spec_grant ps (snapshot_subject ps u) k" if "k \<noteq> (a, res)" for k
      by (rule spec_grant_other_key [OF assms(2) _ that]) blast
    with bundles show "evaluate ps' p c = evaluate ps p c"
      using other uid by (intro evaluate_frame [OF assms(1,3)]) (auto simp: enabled_grants_def)
  }
qed

theorem grant_then_evaluate_witness:
  "\<exists>s' ps'. apply_admin_mutation demo_snapshot (snapshot_subject demo_snapshot 1000)
       (Grant ''svc'' Reject (Some ''sshd'') False) = (s', Ok ()) \<and>
     replace_subject demo_snapshot s' = Ok ps' \<and>
     evaluate ps' demo_user (demo_context ''svc'' (Some ''sshd'')) = Ok
       \<lparr>pd_principal = demo_user, pd_action = ''svc'', pd_resource = Some ''sshd'', pd_effect = Reject,
        pd_reason_code = ''explicit_grant'', pd_enforcement_class = PrivilegedTypedOperation,
        pd_root_equivalent = False\<rparr> \<and>
     evaluate ps' demo_user (demo_context ''svc'' (Some ''nginx'')) =
     evaluate demo_snapshot demo_user (demo_context ''svc'' (Some ''nginx''))"
proof -
  obtain s' where s': "apply_admin_mutation demo_snapshot (snapshot_subject demo_snapshot 1000)
      (Grant ''svc'' Reject (Some ''sshd'') False) = (s', Ok ())"
    using demo_grant_mutation by (metis prod.collapse)
  then obtain ps' where ps': "replace_subject demo_snapshot s' = Ok ps'"
    using replace_mutated_total by blast
  have "conflict_free (enabled_grants demo_snapshot (snapshot_subject demo_snapshot 1000))"
    and "snapshot_action demo_snapshot ''svc'' = Some demo_restart"
    and "ad_class demo_restart = PrivilegedTypedOperation" "\<not> ad_root_equivalent demo_restart"
    and "uid demo_user = 1000"
    by code_simp+
  then show ?thesis
    using grant_then_evaluate [OF demo_wf s' ps', of demo_user "demo_context ''svc'' (Some ''sshd'')"]
      grant_then_evaluate [OF demo_wf s' ps', of demo_user "demo_context ''svc'' (Some ''nginx'')"]
    by (intro exI [of _ s'] exI [of _ ps'] conjI s' ps') (simp_all add: demo_context_def)
qed

lemma retain_multi:
  assumes "g \<in> set gs" and "covers (a, res) g" and "\<not> same_scope g a res"
    and "distinct (concat (map grant_scope gs))"
  shows "find (covers (a, res)) (rev (retain_other_scopes gs a res)) = find (covers (a, res)) (rev gs)"
proof -
  have "g = h" if "h \<in> set gs" "covers (a, res) h" for h
    using find_unique_cover [OF assms(4,1,2)] find_unique_cover [OF assms(4) that] by simp
  then show ?thesis
    unfolding retain_other_scopes_def rev_filter using assms(3)
    by (intro find_filter_other) (auto simp: same_scope_covers)
qed

lemma revoke_grants:
  "apply_admin_mutation ps s (Revoke a res) = (s', Ok ()) \<Longrightarrow>
     sp_grants s' = retain_other_scopes (sp_grants s) a res"
  by (auto simp: Let_def split: if_splits)

text \<open>C13. Exactly what a revocation achieves for the request it names: when an explicit grant that
  lists several resources covers it, the decision is the one from before the revocation, although the
  mutation is accepted; otherwise no explicit grant remains and the decision falls back to the
  enabled bundles, or to reject. Every other request is decided as before.\<close>

theorem revoke_then_evaluate:
  assumes "snapshot_wf ps"
    and "apply_admin_mutation ps (snapshot_subject ps u) (Revoke a res) = (s', Ok ())"
    and "replace_subject ps s' = Ok ps'"
  shows "(uid p \<noteq> u \<or> (pc_action c, pc_resource c) \<noteq> (a, res) \<or>
       (\<exists>g\<in>set (sp_grants (snapshot_subject ps u)). covers (a, res) g \<and> length (gd_resources g) > 1)
       \<longrightarrow> evaluate ps' p c = evaluate ps p c) \<and>
     (uid p = u \<and> (pc_action c, pc_resource c) = (a, res) \<and>
       \<not> (\<exists>g\<in>set (sp_grants (snapshot_subject ps u)). covers (a, res) g \<and> length (gd_resources g) > 1)
       \<longrightarrow> (\<forall>d. evaluate ps' p c = Ok d \<longrightarrow>
         pd_effect d = (case find (\<lambda>bg. covers (a, res) (snd bg)) (enabled_grants ps (snapshot_subject ps u)) of
           None \<Rightarrow> Reject | Some bg \<Rightarrow> gd_effect (snd bg))))"
proof (intro conjI impI allI)
  let ?s = "snapshot_subject ps u"
  have wf': "snapshot_wf ps'" using assms(1,3) by (rule replace_subject_wf)
  have uid: "sp_uid s' = u"
    using mutation_uid [OF assms(2)] snapshot_wf_subject(1) [OF assms(1)] by simp
  have bundles: "enabled_grants ps s' = enabled_grants ps ?s"
    using grant_mutation_bundles [OF assms(2)] by (simp add: enabled_grants_def)
  have multi: "\<not> same_scope g a res" if "covers (a, res) g" "length (gd_resources g) > 1" for g
    using that by (auto simp: same_scope_def split: option.splits)
  {
    assume "uid p \<noteq> u \<or> (pc_action c, pc_resource c) \<noteq> (a, res) \<or>
       (\<exists>g\<in>set (sp_grants ?s). covers (a, res) g \<and> length (gd_resources g) > 1)"
    then consider "uid p \<noteq> u" | "(pc_action c, pc_resource c) \<noteq> (a, res)"
      | g where "g \<in> set (sp_grants ?s)" "covers (a, res) g" "length (gd_resources g) > 1"
        "(pc_action c, pc_resource c) = (a, res)" by blast
    then have "uid p \<noteq> u \<or> spec_grant ps s' (pc_action c, pc_resource c) =
        spec_grant ps ?s (pc_action c, pc_resource c)"
    proof cases
      case 2
      then show ?thesis using spec_grant_other_key [OF assms(2)] by blast
    next
      case 3
      have "distinct (concat (map grant_scope (sp_grants ?s)))"
        using validate_grants_unique validate_subject_Ok(1) snapshot_wf_subject(2) [OF assms(1)] by blast
      from retain_multi [OF 3(1,2) multi [OF 3(2,3)] this] 3(4) show ?thesis
        by (auto simp: spec_grant_def revoke_grants [OF assms(2)] bundles split: option.split)
    qed simp
    then show "evaluate ps' p c = evaluate ps p c"
      using uid bundles by (intro evaluate_frame [OF assms(1,3)]) auto
  next
    fix d assume at: "uid p = u \<and> (pc_action c, pc_resource c) = (a, res) \<and>
       \<not> (\<exists>g\<in>set (sp_grants ?s). covers (a, res) g \<and> length (gd_resources g) > 1)"
      and "evaluate ps' p c = Ok d"
    with evaluate_OkD [OF wf'] obtain x where d: "d = spec_decision ps' p c x" by blast
    have "same_scope g a res" if "g \<in> set (sp_grants ?s)" "covers (a, res) g" for g
      using at that by (cases "gd_resources g")
        (fastforce simp: same_scope_iff covers_def grant_scope_def)+
    then have "find (covers (a, res)) (rev (sp_grants s')) = None"
      using spec_grant_revoked [OF assms(2)] by blast
    moreover have "spec_grant ps' = spec_grant ps"
      by (rule ext spec_grant_snapshot_cong)+ (simp_all add: replace_subject_lookup [OF assms(3)])
    ultimately show "pd_effect d = (case find (\<lambda>bg. covers (a, res) (snd bg)) (enabled_grants ps ?s) of
        None \<Rightarrow> Reject | Some bg \<Rightarrow> gd_effect (snd bg))"
      using at uid d
      by (auto simp: replace_subject_lookup [OF assms(3)] spec_effect_def spec_grant_def bundles
          split: option.split)
  }
qed

theorem revoke_then_evaluate_witness:
  "\<exists>s' ps' d. apply_admin_mutation demo_snapshot (snapshot_subject demo_snapshot 1000)
       (Revoke ''svc'' (Some ''a'')) = (s', Ok ()) \<and> replace_subject demo_snapshot s' = Ok ps' \<and>
     evaluate ps' demo_user (demo_context ''svc'' (Some ''a'')) = Ok d \<and> pd_effect d = Allow"
proof -
  have "snd (apply_admin_mutation demo_snapshot (snapshot_subject demo_snapshot 1000)
      (Revoke ''svc'' (Some ''a''))) = Ok ()" by code_simp
  then obtain s' where s': "apply_admin_mutation demo_snapshot (snapshot_subject demo_snapshot 1000)
      (Revoke ''svc'' (Some ''a'')) = (s', Ok ())" by (metis prod.collapse)
  then obtain ps' where ps': "replace_subject demo_snapshot s' = Ok ps'"
    using replace_mutated_total by blast
  have "demo_grant ''svc'' Allow [''a'', ''b''] \<in> set (sp_grants (snapshot_subject demo_snapshot 1000))"
    by (simp add: demo_snapshot_def snapshot_subject_def bt_get_def demo_subject_def)
  then have "\<exists>g\<in>set (sp_grants (snapshot_subject demo_snapshot 1000)).
      covers (''svc'', Some ''a'') g \<and> length (gd_resources g) > 1"
    by (rule bexI [rotated]) (simp add: demo_grant_def covers_def grant_scope_def)
  then have "evaluate ps' demo_user (demo_context ''svc'' (Some ''a'')) =
      evaluate demo_snapshot demo_user (demo_context ''svc'' (Some ''a''))"
    by (rule revoke_then_evaluate [OF demo_wf s' ps', THEN conjunct1, THEN mp, OF disjI2, OF disjI2])
  moreover have "map_sum (\<lambda>_. ()) pd_effect
      (evaluate demo_snapshot demo_user (demo_context ''svc'' (Some ''a''))) = Ok Allow"
    by code_simp
  then obtain d where "evaluate demo_snapshot demo_user (demo_context ''svc'' (Some ''a'')) = Ok d"
    "pd_effect d = Allow"
    by (cases "evaluate demo_snapshot demo_user (demo_context ''svc'' (Some ''a''))") auto
  ultimately show ?thesis using s' ps' by auto
qed

text \<open>A grant is accepted only for a known action, with a resource exactly when the action takes
  one, and a grant other than reject of a root-equivalent action only with the explicit acknowledgement;
  a refusal on these grounds leaves the candidate subject as it was.\<close>

theorem grant_requirements:
  "case apply_admin_mutation ps s (Grant a eff res ack) of
     (s', Inr _) \<Rightarrow> (\<exists>d. snapshot_action ps a = Some d \<and>
        (ad_root_equivalent d \<and> eff \<noteq> Reject \<longrightarrow> ack) \<and> (ad_resource_required d \<longleftrightarrow> res \<noteq> None)) \<and>
        snapshot_validate_subject ps s' = Ok ()
   | (s', Inl e) \<Rightarrow> (s' = s \<and>
        (snapshot_action ps a = None \<and> e = PolicyInvalid ''unknown policy action'' \<or>
         (\<exists>d. snapshot_action ps a = Some d \<and> ad_root_equivalent d \<and> eff \<noteq> Reject \<and> \<not> ack \<and>
            e = PolicyInvalid ''root-equivalent grant requires explicit acknowledgement'') \<or>
         (\<exists>d. snapshot_action ps a = Some d \<and> ad_resource_required d \<noteq> (res \<noteq> None) \<and>
            e = PolicyInvalid ''grant resource shape does not match action''))) \<or>
        snapshot_validate_subject ps s' = Err e"
  by (auto simp: Let_def split: option.splits sum.splits)

theorem grant_requirements_witness:
  "apply_admin_mutation demo_snapshot demo_subject (Grant ''root'' Allow None False) =
     (demo_subject, Err (PolicyInvalid ''root-equivalent grant requires explicit acknowledgement''))"
proof -
  have "is_ok (snd (apply_admin_mutation demo_snapshot demo_subject (Grant ''root'' Allow None False))) = False"
    and root: "snapshot_action demo_snapshot ''root'' = Some demo_root"
    by code_simp+
  with grant_requirements [where ps = demo_snapshot and s = demo_subject and a = "''root''" and
      eff = Allow and res = None and ack = False] show ?thesis
    by (simp add: demo_root_def is_ok_def)
qed

text \<open>Enabling a bundle can shut a subject out: a selection that contradicts an enabled bundle is
  accepted and installed, and from then on every well-formed request of that uid, also on actions the
  bundles do not mention, fails with the conflict error until a bundle is disabled again.\<close>

theorem conflicting_bundles_lock_out:
  assumes "snapshot_wf ps" and "replace_subject ps s = Ok ps'"
    and "\<not> conflict_free (enabled_grants ps s)" and "uid p = sp_uid s"
    and "snapshot_action ps (pc_action c) = Some a" and "validate_context a c = Ok ()"
  shows "evaluate ps' p c = Err conflict_error"
proof -
  note look = replace_subject_lookup [OF assms(2)]
  have "snapshot_wf ps'" using assms(1,2) by (rule replace_subject_wf)
  with assms(3-) show ?thesis
    by (auto simp: evaluate_eq_spec spec_evaluate_def snapshot_action_def look enabled_grants_def)
qed

theorem conflicting_bundles_lock_out_witness:
  "\<exists>s' ps'. apply_admin_mutation demo_snapshot (snapshot_subject demo_snapshot 1000)
       (BundleSet ''strict'' True) = (s', Ok ()) \<and> replace_subject demo_snapshot s' = Ok ps' \<and>
     evaluate ps' demo_user (demo_context ''root'' None) = Err conflict_error"
proof -
  let ?m = "apply_admin_mutation demo_snapshot (snapshot_subject demo_snapshot 1000) (BundleSet ''strict'' True)"
  have ok: "snd ?m = Ok ()" and cf: "\<not> conflict_free (enabled_grants demo_snapshot (fst ?m))"
    and u: "sp_uid (fst ?m) = 1000" and act: "snapshot_action demo_snapshot ''root'' = Some demo_root"
    and ctx: "validate_context demo_root (demo_context ''root'' None) = Ok ()"
    by code_simp+
  from ok have m: "?m = (fst ?m, Ok ())" by (metis prod.collapse)
  then obtain ps' where ps': "replace_subject demo_snapshot (fst ?m) = Ok ps'"
    using replace_mutated_total by blast
  with m cf u act ctx show ?thesis
    by (intro exI [of _ "fst ?m"] exI [of _ ps'] conjI
        conflicting_bundles_lock_out [OF demo_wf ps', where a = demo_root])
      (simp_all add: demo_user_def demo_context_def)
qed

end
