(* ===== verification/Filesystem.thy ===== *)
theory Filesystem
  imports Rust_Prelude
begin

unbundle bit_operations_syntax

section \<open>Paths and files\<close>

text \<open>
  What the source uses of \<open>std::path\<close> and \<open>std::fs\<close>. A path is its list of components,
  an absolute one beginning with the component \<open>/\<close> (no component list ends in a separator).
  A file system is an ordered map from paths to inodes; the links on the way to the last
  component are taken to be resolved, a final symbolic link is followed by the operations that
  follow one, at most \<open>40\<close> times as Linux does. The environment says which calls fail, how
  much of a failing write reached the file, and the user and mask new files are created with.
\<close>

type_synonym PathBuf = "string list"

definition path_parent :: "PathBuf \<Rightarrow> PathBuf option" where
  "path_parent p = (if p = [] \<or> p = [''/''] then None else Some (butlast p))"

definition path_join :: "PathBuf \<Rightarrow> string \<Rightarrow> PathBuf" where
  "path_join p name = p @ [name]"

definition path_file_name :: "PathBuf \<Rightarrow> string option" where
  "path_file_name p =
     (if p = [] \<or> last p = ''/'' \<or> last p = ''..'' then None else Some (last p))"

definition name_extension :: "string \<Rightarrow> string option" where
  "name_extension name =
     (let ext = rev (takeWhile (\<lambda>c. c \<noteq> CHR ''.'') (rev name)) in
      if length name \<le> length ext + 1 then None else Some ext)"

definition path_extension :: "PathBuf \<Rightarrow> string option" where
  "path_extension p = Option.bind (path_file_name p) name_extension"

fun path_display :: "PathBuf \<Rightarrow> string" where
  "path_display [] = []"
| "path_display [c] = c"
| "path_display (c # d # p) = (if c = ''/'' then c else c @ ''/'') @ path_display (d # p)"

datatype FileKind = RegularFile | Directory | SymbolicLink PathBuf | OtherKind

record Inode =
  in_kind :: FileKind
  in_uid :: u32
  in_mode :: u32
  in_data :: string

type_synonym Files = "(PathBuf, Inode) btree"

datatype IoOp =
    Lstat PathBuf | Stat PathBuf | ReadFile PathBuf | ReadDir PathBuf | DirEntry PathBuf
  | OpenAppend PathBuf | OpenRead PathBuf | CreateTruncate PathBuf | CreateNew PathBuf
  | WriteAll PathBuf | Flush PathBuf | SyncAll PathBuf | Rename PathBuf PathBuf | RemoveFile PathBuf

datatype io_error = IoError

record IoEnv =
  io_fails :: "IoOp \<Rightarrow> bool"
  io_partial :: "PathBuf \<Rightarrow> nat"
  io_euid :: u32
  io_umask :: u32

definition bt_remove :: "'k \<Rightarrow> ('k, 'v) btree \<Rightarrow> ('k, 'v) btree" where
  "bt_remove k m = filter (\<lambda>e. fst e \<noteq> k) m"

definition is_symlink :: "Inode \<Rightarrow> bool" where
  "is_symlink i = (case in_kind i of SymbolicLink _ \<Rightarrow> True | _ \<Rightarrow> False)"

definition is_dir :: "Inode \<Rightarrow> bool" where
  "is_dir i \<longleftrightarrow> in_kind i = Directory"

definition is_file :: "Inode \<Rightarrow> bool" where
  "is_file i \<longleftrightarrow> in_kind i = RegularFile"

fun resolve :: "nat \<Rightarrow> Files \<Rightarrow> PathBuf \<Rightarrow> PathBuf option" where
  "resolve n fs p =
     (case bt_get fs p of
        Some i \<Rightarrow>
          (case in_kind i of
             SymbolicLink q \<Rightarrow> (case n of 0 \<Rightarrow> None | Suc m \<Rightarrow> resolve m fs q)
           | _ \<Rightarrow> Some p)
      | None \<Rightarrow> Some p)"

declare resolve.simps [simp del]

definition resolve_path :: "Files \<Rightarrow> PathBuf \<Rightarrow> io_error + PathBuf" where
  "resolve_path fs p = ok_or (resolve 40 fs p) IoError"

definition fs_lstat :: "IoEnv \<Rightarrow> Files \<Rightarrow> PathBuf \<Rightarrow> io_error + Inode" where
  "fs_lstat env fs p =
     (if io_fails env (Lstat p) then Err IoError else ok_or (bt_get fs p) IoError)"

definition fs_stat :: "IoEnv \<Rightarrow> Files \<Rightarrow> PathBuf \<Rightarrow> io_error + Inode" where
  "fs_stat env fs p =
     (if io_fails env (Stat p) then Err IoError
      else and_then (resolve_path fs p) (\<lambda>q. ok_or (bt_get fs q) IoError))"

definition fs_exists :: "IoEnv \<Rightarrow> Files \<Rightarrow> PathBuf \<Rightarrow> bool" where
  "fs_exists env fs p = is_ok (fs_stat env fs p)"

definition fs_is_dir :: "IoEnv \<Rightarrow> Files \<Rightarrow> PathBuf \<Rightarrow> bool" where
  "fs_is_dir env fs p = (case fs_stat env fs p of Inl _ \<Rightarrow> False | Inr i \<Rightarrow> is_dir i)"

definition fs_read_to_string :: "IoEnv \<Rightarrow> Files \<Rightarrow> PathBuf \<Rightarrow> io_error + string" where
  "fs_read_to_string env fs p =
     (if io_fails env (ReadFile p) then Err IoError
      else and_then (resolve_path fs p) (\<lambda>q.
        and_then (ok_or (bt_get fs q) IoError) (\<lambda>i.
          if is_file i then Ok (in_data i) else Err IoError)))"

definition fs_read_dir :: "IoEnv \<Rightarrow> Files \<Rightarrow> PathBuf \<Rightarrow> io_error + PathBuf list" where
  "fs_read_dir env fs d =
     (if io_fails env (ReadDir d) then Err IoError
      else and_then (resolve_path fs d) (\<lambda>q.
        and_then (ok_or (bt_get fs q) IoError) (\<lambda>i.
          if is_dir i
          then Ok (map (\<lambda>p. d @ [last p]) (filter (\<lambda>p. path_parent p = Some q) (map fst fs)))
          else Err IoError)))"

definition parent_exists :: "Files \<Rightarrow> PathBuf \<Rightarrow> bool" where
  "parent_exists fs p =
     (case path_parent p of
        None \<Rightarrow> False
      | Some d \<Rightarrow> d = [] \<or> (case bt_get fs d of None \<Rightarrow> False | Some i \<Rightarrow> is_dir i))"

definition new_file :: "IoEnv \<Rightarrow> u32 \<Rightarrow> Inode" where
  "new_file env mode =
     \<lparr>in_kind = RegularFile, in_uid = io_euid env, in_mode = mode AND NOT (io_umask env), in_data = []\<rparr>"

definition fs_open_append :: "IoEnv \<Rightarrow> Files \<Rightarrow> PathBuf \<Rightarrow> Files \<times> (io_error + PathBuf)" where
  "fs_open_append env fs p =
     (if io_fails env (OpenAppend p) then (fs, Err IoError)
      else case resolve_path fs p of
        Inl e \<Rightarrow> (fs, Err e)
      | Inr q \<Rightarrow>
          (case bt_get fs q of
             Some i \<Rightarrow> if is_file i then (fs, Ok q) else (fs, Err IoError)
           | None \<Rightarrow>
               if parent_exists fs q then (bt_insert q (new_file env 0x1B6) fs, Ok q)
               else (fs, Err IoError)))"

definition fs_create :: "IoEnv \<Rightarrow> Files \<Rightarrow> PathBuf \<Rightarrow> Files \<times> (io_error + PathBuf)" where
  "fs_create env fs p =
     (if io_fails env (CreateTruncate p) then (fs, Err IoError)
      else case resolve_path fs p of
        Inl e \<Rightarrow> (fs, Err e)
      | Inr q \<Rightarrow>
          (case bt_get fs q of
             Some i \<Rightarrow>
               if is_file i then (bt_insert q (i\<lparr>in_data := []\<rparr>) fs, Ok q) else (fs, Err IoError)
           | None \<Rightarrow>
               if parent_exists fs q then (bt_insert q (new_file env 0x1B6) fs, Ok q)
               else (fs, Err IoError)))"

definition fs_create_new :: "IoEnv \<Rightarrow> u32 \<Rightarrow> Files \<Rightarrow> PathBuf \<Rightarrow> Files \<times> (io_error + PathBuf)" where
  "fs_create_new env mode fs p =
     (if io_fails env (CreateNew p) \<or> bt_get fs p \<noteq> None \<or> \<not> parent_exists fs p
      then (fs, Err IoError)
      else (bt_insert p (new_file env mode) fs, Ok p))"

definition append_data :: "Files \<Rightarrow> PathBuf \<Rightarrow> string \<Rightarrow> Files" where
  "append_data fs h s =
     (case bt_get fs h of
        None \<Rightarrow> fs
      | Some i \<Rightarrow> bt_insert h (i\<lparr>in_data := in_data i @ s\<rparr>) fs)"

definition fs_write_all :: "IoEnv \<Rightarrow> Files \<Rightarrow> PathBuf \<Rightarrow> string \<Rightarrow> Files \<times> (io_error + unit)" where
  "fs_write_all env fs h s =
     (if io_fails env (WriteAll h)
      then (append_data fs h (take (io_partial env h) s), Err IoError)
      else (append_data fs h s, Ok ()))"

definition fs_sync_all :: "IoEnv \<Rightarrow> Files \<Rightarrow> PathBuf \<Rightarrow> Files \<times> (io_error + unit)" where
  "fs_sync_all env fs h = (fs, if io_fails env (SyncAll h) then Err IoError else Ok ())"

definition fs_flush :: "IoEnv \<Rightarrow> Files \<Rightarrow> PathBuf \<Rightarrow> Files \<times> (io_error + unit)" where
  "fs_flush env fs h = (fs, if io_fails env (Flush h) then Err IoError else Ok ())"

definition fs_open_read :: "IoEnv \<Rightarrow> Files \<Rightarrow> PathBuf \<Rightarrow> Files \<times> (io_error + PathBuf)" where
  "fs_open_read env fs p =
     (fs, if io_fails env (OpenRead p) then Err IoError
          else and_then (resolve_path fs p) (\<lambda>q. if bt_get fs q = None then Err IoError else Ok q))"

definition fs_rename :: "IoEnv \<Rightarrow> Files \<Rightarrow> PathBuf \<Rightarrow> PathBuf \<Rightarrow> Files \<times> (io_error + unit)" where
  "fs_rename env fs p q =
     (case bt_get fs p of
        None \<Rightarrow> (fs, Err IoError)
      | Some i \<Rightarrow>
          if io_fails env (Rename p q) \<or> \<not> parent_exists fs q
            \<or> (case bt_get fs q of None \<Rightarrow> False | Some j \<Rightarrow> is_dir j \<noteq> is_dir i)
          then (fs, Err IoError)
          else (bt_insert q i (bt_remove p fs), Ok ()))"

definition fs_remove_file :: "IoEnv \<Rightarrow> Files \<Rightarrow> PathBuf \<Rightarrow> Files \<times> (io_error + unit)" where
  "fs_remove_file env fs p =
     (case bt_get fs p of
        None \<Rightarrow> (fs, Err IoError)
      | Some i \<Rightarrow>
          if io_fails env (RemoveFile p) \<or> is_dir i then (fs, Err IoError)
          else (bt_remove p fs, Ok ()))"

text \<open>The environment in which no call fails.\<close>

definition faultless :: "IoEnv \<Rightarrow> bool" where
  "faultless env \<longleftrightarrow> (\<forall>op. \<not> io_fails env op)"

subsection \<open>Laws\<close>

lemma bt_get_remove [btree_simps]: "bt_get (bt_remove k m) k' = (if k' = k then None else bt_get m k')"
  by (induction m) (auto simp: bt_remove_def bt_get_def)

lemma bt_sorted_remove [btree_simps]: "bt_sorted m \<Longrightarrow> bt_sorted (bt_remove k m)"
  by (simp add: bt_sorted_def bt_remove_def sorted_wrt_map sorted_wrt_filter)

lemma resolve_not_symlink:
  "bt_get fs p = Some i \<Longrightarrow> \<not> is_symlink i \<Longrightarrow> resolve_path fs p = Ok p"
  by (subst resolve_path_def, subst resolve.simps) (auto simp: is_symlink_def split: FileKind.splits)

lemma resolve_absent: "bt_get fs p = None \<Longrightarrow> resolve_path fs p = Ok p"
  by (subst resolve_path_def, subst resolve.simps) simp

lemma is_file_not_symlink: "is_file i \<Longrightarrow> \<not> is_symlink i \<and> \<not> is_dir i"
  by (simp add: is_file_def is_symlink_def is_dir_def)

lemma bt_get_append_data [btree_simps]:
  "bt_get (append_data fs h s) p =
     (if p = h then map_option (\<lambda>i. i\<lparr>in_data := in_data i @ s\<rparr>) (bt_get fs h) else bt_get fs p)"
  by (auto simp: append_data_def btree_simps split: option.split)

lemma bt_sorted_append_data [btree_simps]: "bt_sorted fs \<Longrightarrow> bt_sorted (append_data fs h s)"
  by (auto simp: append_data_def btree_simps split: option.split)

lemma path_join_inject [simp]: "path_join d m = path_join d n \<longleftrightarrow> m = n"
  by (simp add: path_join_def)

lemma path_parent_join [simp]: "d \<noteq> [] \<Longrightarrow> path_parent (path_join d n) = Some d"
  by (simp add: path_parent_def path_join_def)

subsection \<open>A concrete environment\<close>

definition demo_env :: IoEnv where
  "demo_env = \<lparr>io_fails = (\<lambda>_. False), io_partial = (\<lambda>_. 0), io_euid = 0, io_umask = 0x12\<rparr>"

definition demo_dir :: Inode where
  "demo_dir = \<lparr>in_kind = Directory, in_uid = 0, in_mode = 0x1ED, in_data = []\<rparr>"

lemma demo_faultless: "faultless demo_env"
  by (simp add: faultless_def demo_env_def)

end
