(* ===== verification/Policy_Store.thy ===== *)
theory Policy_Store
  imports Policy_Mutation Filesystem
begin

unbundle bit_operations_syntax

section \<open>Policy on disk: trusted loading and atomic commit\<close>

text \<open>
  \<open>PolicySnapshot::load\<close> with its trust check (\<^verbatim>\<open>portus-policy/src/snapshot.rs\<close>) and the file-system
  repository of \<^verbatim>\<open>portus-privd/src/repository.rs\<close>. The TOML parser and printer are parameters (a record
  of functions, \<open>None\<close> when they fail). The file system does not change during one load.
\<close>

subsection \<open>Paths and codecs\<close>

datatype PolicyTrust = RootOwnedSystem | PretrustedFixture

record PolicyPaths =
  pp_policy_path :: PathBuf
  pp_subjects_dir :: PathBuf
  pp_actions_path :: PathBuf
  pp_bundles_dir :: PathBuf

definition policy_paths_canonical :: PolicyPaths where
  "policy_paths_canonical =
     \<lparr>pp_policy_path = [''/'', ''etc'', ''portus'', ''policy'', ''policy.toml''],
      pp_subjects_dir = [''/'', ''etc'', ''portus'', ''policy'', ''subjects.d''],
      pp_actions_path = [''/'', ''usr'', ''share'', ''portus'', ''policy'', ''actions.toml''],
      pp_bundles_dir = [''/'', ''usr'', ''share'', ''portus'', ''policy'', ''bundles'']\<rparr>"

definition subject_file_name :: "u32 \<Rightarrow> string" where
  "subject_file_name u = show_word u @ ''.toml''"

definition subject_path :: "PolicyPaths \<Rightarrow> u32 \<Rightarrow> PathBuf" where
  "subject_path paths u = path_join (pp_subjects_dir paths) (subject_file_name u)"

record PolicyCodec =
  parse_global :: "string \<Rightarrow> GlobalPolicy option"
  parse_registry :: "string \<Rightarrow> ActionRegistry option"
  parse_bundle :: "string \<Rightarrow> BundleDefinition option"
  parse_subject :: "string \<Rightarrow> SubjectPolicy option"
  print_subject :: "SubjectPolicy \<Rightarrow> string option"

definition serialize_subject :: "PolicyCodec \<Rightarrow> SubjectPolicy \<Rightarrow> PolicyError + string" where
  "serialize_subject cd s =
     ok_or (print_subject cd s) (PolicyInvalid ''failed to serialize subject policy'')"

definition policy_io :: "io_error \<Rightarrow> PolicyError" where
  "policy_io e = PolicyIo"

subsection \<open>Loading\<close>

definition MAX_POLICY_FILE_BYTES :: nat where
  "MAX_POLICY_FILE_BYTES = 256 * 1024"

definition parse_file ::
  "IoEnv \<Rightarrow> Files \<Rightarrow> (string \<Rightarrow> 'a option) \<Rightarrow> PathBuf \<Rightarrow> PolicyError + 'a" where
  "parse_file env fs parse p =
     and_then (map_err policy_io (fs_stat env fs p)) (\<lambda>metadata.
     if \<not> is_file metadata \<or> MAX_POLICY_FILE_BYTES < length (in_data metadata)
     then Err (PolicyInvalid ''policy file is missing, non-regular, or oversized'')
     else and_then (map_err policy_io (fs_read_to_string env fs p)) (\<lambda>text.
       ok_or (parse text) (PolicyParse (path_display p @ '' does not match policy schema''))))"

fun collect_toml :: "IoEnv \<Rightarrow> nat \<Rightarrow> PathBuf list \<Rightarrow> PathBuf list \<Rightarrow> PolicyError + PathBuf list" where
  "collect_toml env maximum files [] = Ok files"
| "collect_toml env maximum files (p # es) =
     (if io_fails env (DirEntry p) then Err PolicyIo
      else if path_extension p = Some ''toml'' then
        let files' = files @ [p] in
        if maximum < length files'
        then Err (PolicyInvalid ''policy directory contains too many TOML documents'')
        else collect_toml env maximum files' es
      else collect_toml env maximum files es)"

definition toml_files :: "IoEnv \<Rightarrow> Files \<Rightarrow> PathBuf \<Rightarrow> nat \<Rightarrow> PolicyError + PathBuf list" where
  "toml_files env fs d maximum =
     and_then (map_err policy_io (fs_read_dir env fs d)) (\<lambda>es.
     and_then (collect_toml env maximum [] es) (\<lambda>files. Ok (sort files)))"

definition untrusted :: "(Inode \<Rightarrow> bool) \<Rightarrow> Inode \<Rightarrow> bool" where
  "untrusted kind i \<longleftrightarrow> is_symlink i \<or> \<not> kind i \<or> in_uid i \<noteq> 0 \<or> in_mode i AND 0x12 \<noteq> 0"

definition check_trusted ::
  "IoEnv \<Rightarrow> Files \<Rightarrow> (Inode \<Rightarrow> bool) \<Rightarrow> string \<Rightarrow> PathBuf \<Rightarrow> PolicyError + unit" where
  "check_trusted env fs kind what p =
     and_then (map_err policy_io (fs_lstat env fs p)) (\<lambda>i.
     if untrusted kind i then Err (PolicyPermission (path_display p @ what)) else Ok ())"

definition validate_trust ::
  "IoEnv \<Rightarrow> Files \<Rightarrow> PolicyPaths \<Rightarrow> PolicyTrust \<Rightarrow> PolicyError + unit" where
  "validate_trust env fs paths trust =
     (if trust = PretrustedFixture then Ok ()
      else
        and_then (ok_or (path_parent (pp_policy_path paths))
          (PolicyPermission ''policy path has no parent directory'')) (\<lambda>policy_parent.
        and_then (ok_or (path_parent (pp_actions_path paths))
          (PolicyPermission ''action registry path has no parent directory'')) (\<lambda>actions_parent.
        and_then (try_each (check_trusted env fs is_dir '' is not a trusted root-owned policy directory'')
          [policy_parent, actions_parent, pp_subjects_dir paths, pp_bundles_dir paths]) (\<lambda>_.
        and_then (try_each (check_trusted env fs is_file '' is not trusted root-owned policy material'')
          [pp_policy_path paths, pp_actions_path paths]) (\<lambda>_.
        try_each (\<lambda>d.
          and_then (toml_files env fs d
            (if d = pp_subjects_dir paths then MAX_SUBJECTS else MAX_BUNDLES))
            (try_each (check_trusted env fs is_file '' is not trusted root-owned policy material'')))
          [pp_subjects_dir paths, pp_bundles_dir paths])))))"

definition load_subject ::
  "IoEnv \<Rightarrow> PolicyCodec \<Rightarrow> Files \<Rightarrow> PathBuf \<Rightarrow> PolicyError + SubjectPolicy" where
  "load_subject env cd fs p =
     and_then (parse_file env fs (parse_subject cd) p) (\<lambda>s.
     if path_file_name p \<noteq> Some (subject_file_name (sp_uid s))
     then Err (PolicyInvalid ''subject policy filename does not match embedded uid'')
     else Ok s)"

definition policy_load ::
  "IoEnv \<Rightarrow> PolicyCodec \<Rightarrow> Files \<Rightarrow> PolicyPaths \<Rightarrow> PolicyTrust \<Rightarrow> PolicyError + PolicySnapshot" where
  "policy_load env cd fs paths trust =
     and_then (validate_trust env fs paths trust) (\<lambda>_.
     and_then (parse_file env fs (parse_global cd) (pp_policy_path paths)) (\<lambda>global.
     and_then (parse_file env fs (parse_registry cd) (pp_actions_path paths)) (\<lambda>registry.
     and_then (toml_files env fs (pp_bundles_dir paths) MAX_BUNDLES) (\<lambda>bundle_files.
     and_then (try_map (parse_file env fs (parse_bundle cd)) bundle_files) (\<lambda>bundles.
     and_then (toml_files env fs (pp_subjects_dir paths) MAX_SUBJECTS) (\<lambda>subject_files.
     and_then (try_map (load_subject env cd fs) subject_files) (\<lambda>subjects.
     from_documents global registry bundles subjects)))))))"

subsection \<open>Committing\<close>

record RepoState =
  rp_files :: Files
  rp_next :: u64

definition temp_path :: "PolicyPaths \<Rightarrow> nat \<Rightarrow> u64 \<Rightarrow> u32 \<Rightarrow> PathBuf" where
  "temp_path paths pid n u =
     path_join (pp_subjects_dir paths)
       (''.'' @ show_word u @ ''.'' @ show_nat pid @ ''.'' @ show_word n @ ''.tmp'')"

definition write_and_rename ::
  "IoEnv \<Rightarrow> PolicyPaths \<Rightarrow> PathBuf \<Rightarrow> PathBuf \<Rightarrow> string \<Rightarrow> Files \<Rightarrow> Files \<times> (io_error + unit)" where
  "write_and_rename env paths temp target encoded fs =
     st_then (fs_write_all env fs temp encoded) (\<lambda>fs1 _.
     st_then (fs_sync_all env fs1 temp) (\<lambda>fs2 _.
     st_then (fs_rename env fs2 temp target) (\<lambda>fs3 _.
     st_then (fs_open_read env fs3 (pp_subjects_dir paths)) (\<lambda>fs4 d.
     fs_sync_all env fs4 d))))"

definition recheck_committed ::
  "IoEnv \<Rightarrow> PolicyCodec \<Rightarrow> Files \<Rightarrow> SubjectPolicy \<Rightarrow> PathBuf \<Rightarrow> string \<Rightarrow> PolicyError + unit" where
  "recheck_committed env cd fs s target encoded =
     and_then (map_err policy_io (fs_read_to_string env fs target)) (\<lambda>committed.
     and_then (ok_or (parse_subject cd committed)
       (PolicyParse ''committed subject policy failed revalidation'')) (\<lambda>decoded.
     if sp_uid decoded \<noteq> sp_uid s
     then Err (PolicyInvalid ''committed subject identity changed during policy update'')
     else and_then (serialize_subject cd decoded) (\<lambda>again.
       if again \<noteq> encoded
       then Err (PolicyInvalid ''committed subject policy does not match validated candidate'')
       else Ok ())))"

definition commit_subject ::
  "IoEnv \<Rightarrow> PolicyCodec \<Rightarrow> PolicyPaths \<Rightarrow> nat \<Rightarrow> RepoState \<Rightarrow> SubjectPolicy
    \<Rightarrow> RepoState \<times> (PolicyError + unit)" where
  "commit_subject env cd paths pid st s =
     (case and_then (map_err policy_io (fs_lstat env (rp_files st) (pp_subjects_dir paths))) (\<lambda>i.
        if untrusted is_dir i
        then Err (PolicyPermission ''subjects directory is not trusted root-owned policy material'')
        else serialize_subject cd s) of
        Inl e \<Rightarrow> (st, Err e)
      | Inr encoded \<Rightarrow>
          let temp = temp_path paths pid (rp_next st) (sp_uid s);
              target = subject_path paths (sp_uid s);
              n = rp_next st + 1 in
          (case fs_create_new env 0x1A4 (rp_files st) temp of
             (fs1, Inl e) \<Rightarrow> (\<lparr>rp_files = fs1, rp_next = n\<rparr>, Err (policy_io e))
           | (fs1, Inr _) \<Rightarrow>
               (case write_and_rename env paths temp target encoded fs1 of
                  (fs2, Inl e) \<Rightarrow>
                    (\<lparr>rp_files = fst (fs_remove_file env fs2 temp), rp_next = n\<rparr>, Err (policy_io e))
                | (fs2, Inr _) \<Rightarrow>
                    (\<lparr>rp_files = fs2, rp_next = n\<rparr>, recheck_committed env cd fs2 s target encoded))))"

subsection \<open>Directory listings and documents\<close>

definition toml_document :: "PathBuf \<Rightarrow> bool" where
  "toml_document p \<longleftrightarrow> path_extension p = Some ''toml''"

definition trusted_at :: "Files \<Rightarrow> (Inode \<Rightarrow> bool) \<Rightarrow> PathBuf \<Rightarrow> bool" where
  "trusted_at fs kind p = (case bt_get fs p of None \<Rightarrow> False | Some i \<Rightarrow> \<not> untrusted kind i)"

definition children :: "Files \<Rightarrow> PathBuf \<Rightarrow> PathBuf list" where
  "children fs d = filter (\<lambda>p. path_parent p = Some d) (map fst fs)"

lemma collect_toml_Ok:
  "length files \<le> n \<Longrightarrow> collect_toml env n files es = Ok r \<longleftrightarrow>
     (\<forall>p\<in>set es. \<not> io_fails env (DirEntry p)) \<and> r = files @ filter toml_document es \<and> length r \<le> n"
  by (induction es arbitrary: files) (auto simp: Let_def toml_document_def)

lemma toml_files_Ok [result_simps]:
  "toml_files env fs d n = Ok r \<longleftrightarrow>
     (\<exists>es. fs_read_dir env fs d = Ok es \<and> (\<forall>p\<in>set es. \<not> io_fails env (DirEntry p)) \<and>
        r = sort (filter toml_document es) \<and> length (filter toml_document es) \<le> n)"
  by (auto simp: toml_files_def result_simps collect_toml_Ok)

lemma check_trusted_Ok [result_simps]:
  "check_trusted env fs kind what p = Ok u \<longleftrightarrow> \<not> io_fails env (Lstat p) \<and> trusted_at fs kind p"
  by (auto simp: check_trusted_def fs_lstat_def trusted_at_def result_simps split: option.splits)

lemma untrusted_simps: "\<not> untrusted kind i \<longleftrightarrow>
    \<not> is_symlink i \<and> kind i \<and> in_uid i = 0 \<and> in_mode i AND 0x12 = 0"
  by (auto simp: untrusted_def)

lemma path_parent_SomeD: "path_parent p = Some d \<Longrightarrow> p \<noteq> [] \<and> d @ [last p] = p"
  by (auto simp: path_parent_def split: if_splits)

lemma read_dir_children:
  assumes "bt_get fs d = Some i" and "is_dir i"
  shows "fs_read_dir env fs d = (if io_fails env (ReadDir d) then Err IoError else Ok (children fs d))"
proof -
  have "resolve_path fs d = Ok d"
    using assms by (intro resolve_not_symlink) (auto simp: is_dir_def is_symlink_def)
  moreover have "map (\<lambda>p. d @ [last p]) (children fs d) = children fs d"
    by (rule map_idI) (auto simp: children_def dest: path_parent_SomeD)
  ultimately show ?thesis
    using assms by (simp add: fs_read_dir_def children_def)
qed

lemma trusted_dir_children:
  assumes "trusted_at fs is_dir d"
  shows "fs_read_dir env fs d = (if io_fails env (ReadDir d) then Err IoError else Ok (children fs d))"
  using assms read_dir_children by (auto simp: trusted_at_def untrusted_def split: option.splits)

subsection \<open>A load from a root-owned system\<close>

lemma load_wf:
  "policy_load env cd fs paths trust = Ok ps \<Longrightarrow> snapshot_wf ps"
  by (auto simp: policy_load_def result_simps intro: from_documents_wf)

lemma validate_trust_Ok:
  assumes "validate_trust env fs paths RootOwnedSystem = Ok ()"
  shows "trusted_at fs is_dir (pp_subjects_dir paths)" and "trusted_at fs is_dir (pp_bundles_dir paths)"
    and "trusted_at fs is_file (pp_policy_path paths)" and "trusted_at fs is_file (pp_actions_path paths)"
    and "\<exists>d. path_parent (pp_policy_path paths) = Some d \<and> trusted_at fs is_dir d"
    and "\<exists>d. path_parent (pp_actions_path paths) = Some d \<and> trusted_at fs is_dir d"
    and "d \<in> {pp_subjects_dir paths, pp_bundles_dir paths} \<Longrightarrow> p \<in> set (children fs d) \<Longrightarrow>
      toml_document p \<Longrightarrow> trusted_at fs is_file p"
proof -
  show dirs: "trusted_at fs is_dir (pp_subjects_dir paths)" "trusted_at fs is_dir (pp_bundles_dir paths)"
    and "trusted_at fs is_file (pp_policy_path paths)" "trusted_at fs is_file (pp_actions_path paths)"
    and "\<exists>d. path_parent (pp_policy_path paths) = Some d \<and> trusted_at fs is_dir d"
    and "\<exists>d. path_parent (pp_actions_path paths) = Some d \<and> trusted_at fs is_dir d"
    using assms by (auto simp: validate_trust_def result_simps)
  assume d: "d \<in> {pp_subjects_dir paths, pp_bundles_dir paths}" and p: "p \<in> set (children fs d)"
    "toml_document p"
  have "\<exists>n fl. toml_files env fs d n = Ok fl \<and> (\<forall>p\<in>set fl. trusted_at fs is_file p)"
    using assms d by (auto simp: validate_trust_def and_then_eq_Ok check_trusted_Ok try_each_eq_Ok
        simp del: toml_files_Ok)
  then show "trusted_at fs is_file p"
    using p d dirs by (auto simp: toml_files_Ok trusted_dir_children split: if_splits)
qed

subsection \<open>A commit is atomic\<close>

definition committed_file :: "IoEnv \<Rightarrow> string \<Rightarrow> Inode" where
  "committed_file env encoded = (new_file env 0x1A4)\<lparr>in_data := encoded\<rparr>"

lemma temp_neq_target [simp]: "temp_path paths pid n u \<noteq> subject_path paths v"
proof
  assume "temp_path paths pid n u = subject_path paths v"
  then have "last (''.'' @ show_word u @ ''.'' @ show_nat pid @ ''.'' @ show_word n @ ''.tmp'') =
      last (show_word v @ ''.toml'')"
    by (simp add: temp_path_def subject_path_def subject_file_name_def)
  then show False by simp
qed

lemma write_and_rename_cases:
  assumes "write_and_rename env paths temp target encoded fs = (fs', r)"
    and "bt_get fs temp = Some (new_file env 0x1A4)" and "temp \<noteq> target"
  shows "q \<noteq> temp \<Longrightarrow> q \<noteq> target \<Longrightarrow> bt_get fs' q = bt_get fs q"
    and "bt_get fs' target = bt_get fs target \<and> (\<exists>e. r = Err e) \<or>
      bt_get fs' target = Some (committed_file env encoded) \<and> bt_get fs' temp = None"
proof -
  note defs = write_and_rename_def fs_write_all_def fs_sync_all_def fs_rename_def fs_open_read_def
    append_data_def btree_simps committed_file_def new_file_def
  show "bt_get fs' q = bt_get fs q" if "q \<noteq> temp" "q \<noteq> target"
    using assms that by (auto simp: defs st_then_def split: if_splits option.splits sum.splits)
  show "bt_get fs' target = bt_get fs target \<and> (\<exists>e. r = Err e) \<or>
      bt_get fs' target = Some (committed_file env encoded) \<and> bt_get fs' temp = None"
    using assms by (auto simp: defs st_then_def split: if_splits option.splits sum.splits)
qed

lemma recheck_Ok:
  assumes "recheck_committed env cd fs s target encoded = Ok u"
    and "bt_get fs target = Some (committed_file env encoded)"
  shows "\<exists>d. parse_subject cd encoded = Some d \<and> sp_uid d = sp_uid s \<and> print_subject cd d = Some encoded"
proof -
  have "resolve_path fs target = Ok target"
    using assms(2) by (rule resolve_not_symlink) (simp add: committed_file_def new_file_def is_symlink_def)
  with assms show ?thesis
    by (auto simp: recheck_committed_def fs_read_to_string_def result_simps serialize_subject_def
        committed_file_def new_file_def is_file_def split: if_splits)
qed

lemma commit_subject_cases:
  assumes "commit_subject env cd paths pid st s = (st', r)"
  defines "temp \<equiv> temp_path paths pid (rp_next st) (sp_uid s)" and "target \<equiv> subject_path paths (sp_uid s)"
  shows "q \<noteq> temp \<Longrightarrow> q \<noteq> target \<Longrightarrow> bt_get (rp_files st') q = bt_get (rp_files st) q"
    and "bt_get (rp_files st') target = bt_get (rp_files st) target \<and> (\<exists>e. r = Err e) \<or>
      (\<exists>encoded. print_subject cd s = Some encoded \<and>
        bt_get (rp_files st') target = Some (committed_file env encoded) \<and>
        bt_get (rp_files st') temp = None \<and> bt_get (rp_files st) temp = None \<and>
        (r = Ok () \<longrightarrow> (\<exists>d. parse_subject cd encoded = Some d \<and> sp_uid d = sp_uid s \<and>
           print_subject cd d = Some encoded)))"
proof -
  have neq: "temp \<noteq> target" by (simp add: temp_def target_def)
  have removed: "bt_get (fst (fs_remove_file env fs temp)) q = (if q = temp then None else bt_get fs q)
      \<or> bt_get (fst (fs_remove_file env fs temp)) q = bt_get fs q" for fs q
    by (auto simp: fs_remove_file_def btree_simps split: option.splits)
  consider (early) "st' = st" "\<exists>e. r = Err e"
    | (created) fs1 fs2 rw encoded where
      "print_subject cd s = Some encoded"
      "fs1 = bt_insert temp (new_file env 0x1A4) (rp_files st)"
      "bt_get (rp_files st) temp = None"
      "write_and_rename env paths temp target encoded fs1 = (fs2, rw)"
      "case rw of Inl e \<Rightarrow> rp_files st' = fst (fs_remove_file env fs2 temp) \<and> r = Err (policy_io e)
       | Inr _ \<Rightarrow> rp_files st' = fs2 \<and> r = recheck_committed env cd fs2 s target encoded"
    | (refused) "rp_files st' = rp_files st" "\<exists>e. r = Err e"
    using assms
    by (auto simp: commit_subject_def Let_def fs_create_new_def serialize_subject_def result_simps
        split: sum.splits prod.splits if_splits)
  note cases = this
  show "bt_get (rp_files st') q = bt_get (rp_files st) q" if q: "q \<noteq> temp" "q \<noteq> target"
    using cases
  proof cases
    case created
    then have "bt_get fs2 q = bt_get (rp_files st) q"
      using write_and_rename_cases(1) [OF created(4) _ neq q] q by (simp add: btree_simps)
    with created(5) removed [of fs2 q] q show ?thesis by (auto split: sum.splits)
  qed auto
  show "bt_get (rp_files st') target = bt_get (rp_files st) target \<and> (\<exists>e. r = Err e) \<or>
      (\<exists>encoded. print_subject cd s = Some encoded \<and>
        bt_get (rp_files st') target = Some (committed_file env encoded) \<and>
        bt_get (rp_files st') temp = None \<and> bt_get (rp_files st) temp = None \<and>
        (r = Ok () \<longrightarrow> (\<exists>d. parse_subject cd encoded = Some d \<and> sp_uid d = sp_uid s \<and>
           print_subject cd d = Some encoded)))"
    using cases
  proof cases
    case created
    have "bt_get fs1 temp = Some (new_file env 0x1A4)" and "bt_get fs1 target = bt_get (rp_files st) target"
      using created(2) neq by (auto simp: btree_simps)
    with write_and_rename_cases(2) [OF created(4) _ neq] created(1,3,5) removed [of fs2 target]
      removed [of fs2 temp] recheck_Ok [of env cd fs2 s target encoded] neq
    show ?thesis by (cases rw) auto
  qed auto
qed

end
