(* ===== verification/Policy_Reload.thy ===== *)
theory Policy_Reload
  imports Policy_Store
begin

unbundle bit_operations_syntax

section \<open>Reloading a committed policy\<close>

text \<open>
  The durable copy and the one in memory agree: loading the policy after a successful commit gives the
  snapshot that \<open>replace_subject\<close> installs in memory. The lemmas reduce a load to the documents
  listed in the two directories, and a commit to one insertion into the file system.
\<close>

subsection \<open>Documents of a directory\<close>

definition docs :: "Files \<Rightarrow> PathBuf \<Rightarrow> PathBuf list" where
  "docs fs d = filter toml_document (children fs d)"

lemma bt_sorted_keys: "bt_sorted m \<Longrightarrow> sorted (map fst m) \<and> distinct (map fst m)"
  by (simp add: bt_sorted_def strict_sorted_iff)

lemma docs_sorted: "bt_sorted fs \<Longrightarrow> sorted (docs fs d) \<and> distinct (docs fs d)"
  using bt_sorted_keys [of fs] by (simp add: docs_def children_def sorted_wrt_filter)

lemma docs_iff:
  "bt_sorted fs \<Longrightarrow> p \<in> set (docs fs d) \<longleftrightarrow> bt_get fs p \<noteq> None \<and> path_parent p = Some d \<and> toml_document p"
  by (force simp: docs_def children_def bt_get_def map_of_eq_None_iff)

lemma docs_insert_other:
  assumes "bt_sorted fs" and "path_parent q \<noteq> Some d"
  shows "docs (bt_insert q i fs) d = docs fs d"
proof -
  have s': "bt_sorted (bt_insert q i fs)" using assms(1) by (simp add: btree_simps)
  have "set (docs (bt_insert q i fs) d) = set (docs fs d)"
    using assms docs_iff [OF s'] docs_iff [OF assms(1)] by (auto simp: btree_simps split: if_splits)
  then show ?thesis
    using docs_sorted [OF s'] docs_sorted [OF assms(1)] by (intro sorted_distinct_set_unique) auto
qed

lemma set_docs_insert:
  assumes "bt_sorted fs" and "path_parent q = Some d" and "toml_document q"
  shows "set (docs (bt_insert q i fs) d) = insert q (set (docs fs d))"
proof -
  have s': "bt_sorted (bt_insert q i fs)" using assms(1) by (simp add: btree_simps)
  show ?thesis
    using assms docs_iff [OF s'] docs_iff [OF assms(1)] by (auto simp: btree_simps split: if_splits)
qed

lemma length_docs_insert:
  assumes "bt_sorted fs" and "path_parent q = Some d" and "toml_document q"
  shows "length (docs (bt_insert q i fs) d) =
     (if q \<in> set (docs fs d) then length (docs fs d) else Suc (length (docs fs d)))"
proof -
  have "bt_sorted (bt_insert q i fs)" using assms(1) by (simp add: btree_simps)
  then have "length (docs (bt_insert q i fs) d) = card (insert q (set (docs fs d)))"
    using docs_sorted set_docs_insert [OF assms] by (metis distinct_card)
  then show ?thesis
    using docs_sorted [OF assms(1), of d] by (simp add: card_insert_if distinct_card)
qed

lemma toml_files_docs:
  assumes "bt_sorted fs" and "trusted_at fs is_dir d" and "faultless env"
  shows "toml_files env fs d n = Ok fl \<longleftrightarrow> fl = docs fs d \<and> length (docs fs d) \<le> n"
proof -
  have "sort (docs fs d) = docs fs d" using docs_sorted [OF assms(1)] by (simp add: sort_key_id_if_sorted)
  then show ?thesis
    using assms by (auto simp: toml_files_Ok trusted_dir_children faultless_def docs_def)
qed

subsection \<open>The trust check\<close>

definition trust_ok :: "Files \<Rightarrow> PolicyPaths \<Rightarrow> bool" where
  "trust_ok fs paths \<longleftrightarrow>
     (\<exists>d. path_parent (pp_policy_path paths) = Some d \<and> trusted_at fs is_dir d) \<and>
     (\<exists>d. path_parent (pp_actions_path paths) = Some d \<and> trusted_at fs is_dir d) \<and>
     trusted_at fs is_dir (pp_subjects_dir paths) \<and> trusted_at fs is_dir (pp_bundles_dir paths) \<and>
     trusted_at fs is_file (pp_policy_path paths) \<and> trusted_at fs is_file (pp_actions_path paths) \<and>
     length (docs fs (pp_subjects_dir paths)) \<le> MAX_SUBJECTS \<and>
     length (docs fs (pp_bundles_dir paths)) \<le>
       (if pp_bundles_dir paths = pp_subjects_dir paths then MAX_SUBJECTS else MAX_BUNDLES) \<and>
     (\<forall>p\<in>set (docs fs (pp_subjects_dir paths)). trusted_at fs is_file p) \<and>
     (\<forall>p\<in>set (docs fs (pp_bundles_dir paths)). trusted_at fs is_file p)"

lemma validate_trust_iff:
  assumes "bt_sorted fs" and "faultless env"
  shows "validate_trust env fs paths RootOwnedSystem = Ok () \<longleftrightarrow> trust_ok fs paths"
  using assms(2) toml_files_docs [OF assms(1) _ assms(2)]
  by (auto simp: validate_trust_def trust_ok_def and_then_eq_Ok ok_or_eq_Ok check_trusted_Ok try_each_eq_Ok
      faultless_def simp del: toml_files_Ok)

subsection \<open>Documents are read from their own file\<close>

lemma parse_file_local:
  assumes "bt_get fs p = Some i" and "\<not> is_symlink i" and "bt_get fs' p = Some i"
  shows "parse_file env fs' parse p = parse_file env fs parse p"
  using assms resolve_not_symlink [OF assms(1,2)] resolve_not_symlink [OF assms(3,2)]
  by (simp add: parse_file_def fs_stat_def fs_read_to_string_def)

lemma trusted_parse_file:
  assumes "trusted_at fs is_file p" and "p \<noteq> q"
  shows "parse_file env (bt_insert q i fs) parse p = parse_file env fs parse p"
  using assms by (auto simp: trusted_at_def untrusted_def btree_simps intro!: parse_file_local split: option.splits)

lemma trusted_at_insert:
  "trusted_at (bt_insert q i fs) kind p = (if p = q then \<not> untrusted kind i else trusted_at fs kind p)"
  by (simp add: trusted_at_def btree_simps)

lemma committed_trusted: "io_euid env = 0 \<Longrightarrow> \<not> untrusted is_file (committed_file env enc)"
proof -
  have "(0x1A4 AND x) AND 0x12 = (0x1A4 AND 0x12) AND x" for x :: u32
    by (simp only: ac_simps)
  moreover have "0x1A4 AND 0x12 = (0 :: u32)" by simp
  ultimately show "io_euid env = 0 \<Longrightarrow> \<not> untrusted is_file (committed_file env enc)"
    by (simp add: untrusted_def committed_file_def new_file_def is_symlink_def is_file_def)
qed

lemma parse_committed:
  assumes "faultless env" and "bt_get fs p = Some (committed_file env enc)"
    and "length enc \<le> MAX_POLICY_FILE_BYTES"
  shows "parse_file env fs parse p =
     ok_or (parse enc) (PolicyParse (path_display p @ '' does not match policy schema''))"
proof -
  have "resolve_path fs p = Ok p"
    using assms(2) by (rule resolve_not_symlink) (simp add: committed_file_def new_file_def is_symlink_def)
  with assms show ?thesis
    by (simp add: parse_file_def fs_stat_def fs_read_to_string_def faultless_def committed_file_def
        new_file_def is_file_def)
qed

subsection \<open>Subject files\<close>

lemma subject_path_inject [simp]: "subject_path paths u = subject_path paths v \<longleftrightarrow> u = v"
  by (simp add: subject_path_def subject_file_name_def)

lemma subject_path_document:
  assumes "pp_subjects_dir paths \<noteq> []"
  shows "path_file_name (subject_path paths u) = Some (subject_file_name u)"
    and "toml_document (subject_path paths u)"
    and "path_parent (subject_path paths u) = Some (pp_subjects_dir paths)"
proof -
  have ne: "show_word u \<noteq> []" by (simp add: show_word_def show_nat_nonempty)
  have "subject_file_name u \<noteq> ''/''" "subject_file_name u \<noteq> ''..''"
    by (auto simp: subject_file_name_def dest: arg_cong [where f = last])
  then show name: "path_file_name (subject_path paths u) = Some (subject_file_name u)"
    by (simp add: path_file_name_def subject_path_def path_join_def)
  show "toml_document (subject_path paths u)"
    using ne by (simp add: toml_document_def path_extension_def name name_extension_def
        subject_file_name_def Let_def)
  show "path_parent (subject_path paths u) = Some (pp_subjects_dir paths)"
    using assms by (simp add: subject_path_def)
qed

lemma load_subject_path:
  assumes "load_subject env cd fs p = Ok s" and "path_parent p = Some (pp_subjects_dir paths)"
  shows "p = subject_path paths (sp_uid s)"
  using assms path_parent_SomeD [OF assms(2)]
  by (auto simp: load_subject_def result_simps path_file_name_def subject_path_def path_join_def split: if_splits)

lemma load_subjects_find:
  assumes "\<forall>p\<in>set fl. path_parent p = Some (pp_subjects_dir paths) \<and> load_subject env cd fs p = Ok (subj p)"
  shows "find (\<lambda>x. sp_uid x = u) (map subj fl) =
     (if subject_path paths u \<in> set fl then Some (subj (subject_path paths u)) else None)"
  using assms
proof (induction fl)
  case (Cons p fl)
  then have p: "p = subject_path paths (sp_uid (subj p))"
    by (intro load_subject_path [of env cd fs]) auto
  have "subject_path paths u = p \<longleftrightarrow> sp_uid (subj p) = u"
    by (subst p) auto
  with Cons show ?case by auto
qed simp

lemma load_subjects_distinct:
  fixes paths :: PolicyPaths
  assumes "\<forall>p\<in>set fl. path_parent p = Some (pp_subjects_dir paths) \<and> load_subject env cd fs p = Ok (subj p)"
    and "distinct fl"
  shows "distinct (map sp_uid (map subj fl))"
proof -
  have "inj_on (\<lambda>p. sp_uid (subj p)) (set fl)"
  proof (rule inj_onI)
    fix p q assume "p \<in> set fl" "q \<in> set fl" "sp_uid (subj p) = sp_uid (subj q)"
    then show "p = q"
      using load_subject_path [of env cd fs p "subj p" paths]
        load_subject_path [of env cd fs q "subj q" paths] assms(1)
      by simp
  qed
  with assms(2) show ?thesis by (simp add: distinct_map comp_def)
qed

subsection \<open>Collecting documents\<close>

lemma length_bt_insert:
  "bt_get m k = None \<Longrightarrow> length (bt_insert k v m) = Suc (length m)"
  by (induction m) (auto simp: bt_get_def split: if_splits)

lemma bt_collect_total:
  assumes "\<forall>x\<in>set xs. check x = Ok ()" and "distinct (map key xs)" and "\<forall>x\<in>set xs. bt_get m (key x) = None"
  shows "\<exists>m'. bt_collect key check dup m xs = Ok m'"
  using assms
proof (induction xs arbitrary: m)
  case (Cons x xs)
  then have "\<exists>m'. bt_collect key check dup (bt_insert (key x) x m) xs = Ok m'"
    by (intro Cons.IH) (auto simp: btree_simps intro: rev_image_eqI)
  with Cons.prems show ?case by (simp add: bt_contains_key_def)
qed simp

lemma length_bt_collect:
  "bt_collect key check dup m xs = Ok m' \<Longrightarrow> length m' = length m + length xs"
  by (induction xs arbitrary: m)
    (auto simp: result_simps bt_contains_key_def length_bt_insert split: if_splits)

lemma from_documents_subjects:
  assumes "from_documents g r bs ss = Ok ps"
  shows "from_documents g r bs ss' = Ok ps' \<longleftrightarrow> length ss' \<le> MAX_SUBJECTS \<and>
     (\<exists>m. bt_collect sp_uid (\<lambda>s. validate_subject s (ps_actions ps) (ps_bundles ps))
        (PolicyInvalid ''duplicate subject uid'') bt_empty ss' = Ok m \<and> ps' = ps\<lparr>ps_subjects := m\<rparr>)"
  using assms by (auto simp: from_documents_def result_simps split: if_splits)

text \<open>Replacing or adding one document among those loaded replaces one subject of the snapshot.\<close>

lemma collect_replaced:
  fixes paths :: PolicyPaths
  assumes "bt_collect sp_uid check dup bt_empty (map subj fl) = Ok m"
    and old: "\<forall>p\<in>set fl. path_parent p = Some (pp_subjects_dir paths) \<and> load_subject env cd fs p = Ok (subj p)"
    and new: "\<forall>p\<in>set fl'. path_parent p = Some (pp_subjects_dir paths) \<and> load_subject env cd fs' p = Ok (subj' p)"
    and "distinct fl'" and fl': "set fl' = insert (subject_path paths (sp_uid s)) (set fl)"
    and at: "subj' (subject_path paths (sp_uid s)) = s"
    and same: "\<And>p. p \<in> set fl \<Longrightarrow> p \<noteq> subject_path paths (sp_uid s) \<Longrightarrow> subj' p = subj p"
    and "check s = Ok ()"
  shows "bt_collect sp_uid check dup bt_empty (map subj' fl') = Ok (bt_insert (sp_uid s) s m)"
proof -
  note old_facts = bt_collect_Ok [OF assms(1)]
  have "check (subj' p) = Ok ()" if "p \<in> set fl'" for p
    using old_facts assms(8) at same [of p] fl' that by (cases "p = subject_path paths (sp_uid s)") auto
  then have "\<forall>x\<in>set (map subj' fl'). check x = Ok ()" by simp
  moreover have "distinct (map sp_uid (map subj' fl'))"
    using new assms(4) by (rule load_subjects_distinct)
  ultimately obtain m' where m': "bt_collect sp_uid check dup bt_empty (map subj' fl') = Ok m'"
    using bt_collect_total [of "map subj' fl'" check sp_uid bt_empty dup] by (auto simp: btree_simps)
  have "bt_get m' u = bt_get (bt_insert (sp_uid s) s m) u" for u
    using bt_collect_Ok [OF m'] old_facts load_subjects_find [OF old, of u] load_subjects_find [OF new, of u]
      at fl' same by (auto simp: btree_simps)
  moreover have "bt_sorted m'" "bt_sorted m"
    using m' assms(1) by (auto intro: bt_collect_wf [OF bt.wf_empty])
  ultimately have "m' = bt_insert (sp_uid s) s m"
    using bt.entries_determined [of m' "bt_insert (sp_uid s) s m"] by (simp add: btree_simps)
  with m' show ?thesis by simp
qed

subsection \<open>A load is determined by its documents\<close>

lemma policy_load_iff:
  assumes "bt_sorted fs" and "faultless env"
  shows "policy_load env cd fs paths RootOwnedSystem = Ok ps \<longleftrightarrow> trust_ok fs paths \<and>
     length (docs fs (pp_bundles_dir paths)) \<le> MAX_BUNDLES \<and>
     (\<exists>g r bs ss. parse_file env fs (parse_global cd) (pp_policy_path paths) = Ok g \<and>
        parse_file env fs (parse_registry cd) (pp_actions_path paths) = Ok r \<and>
        try_map (parse_file env fs (parse_bundle cd)) (docs fs (pp_bundles_dir paths)) = Ok bs \<and>
        try_map (load_subject env cd fs) (docs fs (pp_subjects_dir paths)) = Ok ss \<and>
        from_documents g r bs ss = Ok ps)"
proof -
  have "toml_files env fs d n = Ok fl \<longleftrightarrow> fl = docs fs d \<and> length (docs fs d) \<le> n"
    if "trust_ok fs paths" "d = pp_subjects_dir paths \<or> d = pp_bundles_dir paths" for d n fl
    using that by (intro toml_files_docs [OF assms(1) _ assms(2)]) (auto simp: trust_ok_def)
  then show ?thesis
    by (auto simp: policy_load_def and_then_eq_Ok validate_trust_iff [OF assms] trust_ok_def
        simp del: toml_files_Ok try_map_eq_Ok)
qed

lemma try_map_projr: "try_map f xs = Ok ys \<longleftrightarrow> (\<forall>x\<in>set xs. is_ok (f x)) \<and> ys = map (projr \<circ> f) xs"
  by (induction xs arbitrary: ys) (auto simp: result_simps is_ok_iff list_all2_Cons1)

lemma try_map_cong_fun: "(\<And>x. x \<in> set xs \<Longrightarrow> f x = g x) \<Longrightarrow> try_map f xs = try_map g xs"
  by (induction xs) auto

subsection \<open>The commit as one insertion\<close>

lemma commit_Ok_insert:
  assumes "commit_subject env cd paths pid st s = (st', Ok ())" and "bt_sorted (rp_files st)"
    and "bt_sorted (rp_files st')"
  shows "\<exists>enc. print_subject cd s = Some enc \<and>
     rp_files st' = bt_insert (subject_path paths (sp_uid s)) (committed_file env enc) (rp_files st)"
proof -
  obtain enc where enc: "print_subject cd s = Some enc"
    and at: "bt_get (rp_files st') (subject_path paths (sp_uid s)) = Some (committed_file env enc)"
    and temp: "bt_get (rp_files st') (temp_path paths pid (rp_next st) (sp_uid s)) = None"
      "bt_get (rp_files st) (temp_path paths pid (rp_next st) (sp_uid s)) = None"
    using commit_subject_cases(2) [OF assms(1)] by auto
  have "bt_get (rp_files st') q =
      bt_get (bt_insert (subject_path paths (sp_uid s)) (committed_file env enc) (rp_files st)) q" for q
    using commit_subject_cases(1) [OF assms(1), of q] at temp
    by (cases "q = temp_path paths pid (rp_next st) (sp_uid s)") (auto simp: btree_simps)
  with enc show ?thesis
    using bt.entries_determined [OF assms(3), of "bt_insert (subject_path paths (sp_uid s))
      (committed_file env enc) (rp_files st)"] assms(2) by (auto simp: btree_simps)
qed

lemma write_and_rename_sorted:
  assumes "bt_sorted fs"
  shows "bt_sorted (fst (write_and_rename env paths temp target enc fs))"
  using assms
  by (auto simp: write_and_rename_def fs_write_all_def fs_sync_all_def fs_rename_def fs_open_read_def btree_simps
      intro!: st_then_fst [where P = bt_sorted] split: option.split)

lemma commit_sorted:
  assumes "bt_sorted (rp_files st)"
  shows "bt_sorted (rp_files (fst (commit_subject env cd paths pid st s)))"
proof -
  have create: "bt_sorted (fst (fs_create_new env m fs p))" if "bt_sorted fs" for m fs p
    using that by (simp add: fs_create_new_def btree_simps)
  have remove: "bt_sorted (fst (fs_remove_file env fs p))" if "bt_sorted fs" for fs p
    using that by (simp add: fs_remove_file_def btree_simps split: option.split)
  let ?temp = "temp_path paths pid (rp_next st) (sp_uid s)"
  have "bt_sorted fs1" "bt_sorted fs2"
    if "fs_create_new env 0x1A4 (rp_files st) ?temp = (fs1, r1)"
      "write_and_rename env paths ?temp (subject_path paths (sp_uid s)) enc fs1 = (fs2, r2)" for fs1 fs2 r1 r2 enc
    using that create [OF assms, where m = "0x1A4" and p = ?temp]
      write_and_rename_sorted [where fs = fs1 and temp = ?temp and
          target = "subject_path paths (sp_uid s)" and env = env and enc = enc and paths = paths] by auto
  then show ?thesis
    using assms create [OF assms, where m = "0x1A4" and p = ?temp] remove
    by (auto simp: commit_subject_def Let_def split: sum.split prod.split)
qed

definition store_layout :: "PolicyPaths \<Rightarrow> bool" where
  "store_layout paths \<longleftrightarrow> pp_subjects_dir paths \<noteq> [] \<and> pp_bundles_dir paths \<noteq> pp_subjects_dir paths \<and>
     list_all (\<lambda>q. path_parent q \<noteq> Some (pp_subjects_dir paths))
       [pp_policy_path paths, pp_actions_path paths, pp_bundles_dir paths, pp_subjects_dir paths] \<and>
     list_all (\<lambda>q. Option.bind (path_parent q) path_parent \<noteq> Some (pp_subjects_dir paths))
       [pp_policy_path paths, pp_actions_path paths]"

lemma store_layout_canonical: "store_layout policy_paths_canonical"
  by code_simp

lemma layout_target:
  assumes "store_layout paths"
  shows "pp_policy_path paths \<noteq> subject_path paths u" "pp_actions_path paths \<noteq> subject_path paths u"
    "pp_bundles_dir paths \<noteq> subject_path paths u" "pp_subjects_dir paths \<noteq> subject_path paths u"
    "path_parent (pp_policy_path paths) \<noteq> Some (subject_path paths u)"
    "path_parent (pp_actions_path paths) \<noteq> Some (subject_path paths u)"
  using assms subject_path_document(3) [of paths u]
  by (auto simp: store_layout_def)

lemma trust_ok_insert:
  assumes "bt_sorted fs" and "trust_ok fs paths" and "store_layout paths" and "\<not> untrusted is_file f"
    and room: "subject_path paths u \<in> set (docs fs (pp_subjects_dir paths)) \<or>
      length (docs fs (pp_subjects_dir paths)) < MAX_SUBJECTS"
  shows "trust_ok (bt_insert (subject_path paths u) f fs) paths"
proof -
  have ne: "pp_subjects_dir paths \<noteq> []" using assms(3) by (simp add: store_layout_def)
  note doc = subject_path_document(3,2) [OF ne, of u]
  have "path_parent (subject_path paths u) \<noteq> Some (pp_bundles_dir paths)"
    using assms(3) doc by (auto simp: store_layout_def)
  note docs = docs_insert_other [OF assms(1) this] set_docs_insert [OF assms(1) doc]
    length_docs_insert [OF assms(1) doc]
  show ?thesis
    using assms(2,4) room layout_target [OF assms(3), of u]
    unfolding trust_ok_def docs by (auto simp: trusted_at_insert)
qed

lemma load_subject_committed:
  assumes "faultless env" and "pp_subjects_dir paths \<noteq> []"
    and "bt_get fs (subject_path paths (sp_uid s)) = Some (committed_file env enc)"
    and "length enc \<le> MAX_POLICY_FILE_BYTES" and "parse_subject cd enc = Some s"
  shows "load_subject env cd fs (subject_path paths (sp_uid s)) = Ok s"
  using assms subject_path_document(1) [OF assms(2), of "sp_uid s"]
  by (simp add: load_subject_def parse_committed [OF assms(1,3,4)])

lemma reload_bundles:
  assumes "\<forall>p\<in>set fl. trusted_at fs is_file p" and "t \<notin> set fl"
  shows "try_map (parse_file env (bt_insert t f fs) parse) fl = try_map (parse_file env fs parse) fl"
  using assms by (intro try_map_cong_fun trusted_parse_file) auto

lemma reload_subjects:
  fixes paths :: PolicyPaths
  assumes sorted: "bt_sorted fs" and D: "pp_subjects_dir paths \<noteq> []"
    and trusted: "\<forall>p\<in>set (docs fs (pp_subjects_dir paths)). trusted_at fs is_file p"
    and ss: "try_map (load_subject env cd fs) (docs fs (pp_subjects_dir paths)) = Ok ss"
    and m: "bt_collect sp_uid check dup bt_empty ss = Ok m" and valid: "check s = Ok ()"
    and at: "load_subject env cd (bt_insert (subject_path paths (sp_uid s)) f fs)
      (subject_path paths (sp_uid s)) = Ok s"
  shows "\<exists>ss'. try_map (load_subject env cd (bt_insert (subject_path paths (sp_uid s)) f fs))
       (docs (bt_insert (subject_path paths (sp_uid s)) f fs) (pp_subjects_dir paths)) = Ok ss' \<and>
     bt_collect sp_uid check dup bt_empty ss' = Ok (bt_insert (sp_uid s) s m)"
proof -
  let ?t = "subject_path paths (sp_uid s)" and ?D = "pp_subjects_dir paths"
  let ?fs' = "bt_insert ?t f fs"
  note doc = subject_path_document(3,2) [OF D, of "sp_uid s"]
  have sorted': "bt_sorted ?fs'" using sorted by (simp add: btree_simps)
  have subj: "load_subject env cd ?fs' p = load_subject env cd fs p" if "p \<in> set (docs fs ?D)" "p \<noteq> ?t" for p
    using that trusted by (simp add: load_subject_def trusted_parse_file)
  note docs' = set_docs_insert [OF sorted doc, of f]
  define sj where "sj = projr \<circ> load_subject env cd fs"
  define sj' where "sj' = projr \<circ> load_subject env cd ?fs'"
  have old: "\<forall>p\<in>set (docs fs ?D). path_parent p = Some ?D \<and> load_subject env cd fs p = Ok (sj p)"
    using ss docs_iff [OF sorted] by (auto simp: try_map_projr is_ok_iff sj_def)
  have new: "\<forall>p\<in>set (docs ?fs' ?D). path_parent p = Some ?D \<and> load_subject env cd ?fs' p = Ok (sj' p)"
  proof
    fix p assume p: "p \<in> set (docs ?fs' ?D)"
    show "path_parent p = Some ?D \<and> load_subject env cd ?fs' p = Ok (sj' p)"
      using p docs' old at subj [of p] docs_iff [OF sorted'] by (cases "p = ?t") (auto simp: sj'_def)
  qed
  have m': "bt_collect sp_uid check dup bt_empty (map sj (docs fs ?D)) = Ok m"
    using m ss by (simp add: try_map_projr sj_def)
  have "bt_collect sp_uid check dup bt_empty (map sj' (docs ?fs' ?D)) = Ok (bt_insert (sp_uid s) s m)"
  proof (rule collect_replaced [OF m' old new _ docs' _ _ valid])
    show "distinct (docs ?fs' ?D)" using docs_sorted [OF sorted'] by blast
    show "sj' ?t = s" using at by (simp add: sj'_def)
    show "sj' p = sj p" if "p \<in> set (docs fs ?D)" "p \<noteq> ?t" for p
      using subj [OF that] by (simp add: sj_def sj'_def)
  qed
  moreover have "try_map (load_subject env cd ?fs') (docs ?fs' ?D) = Ok (map sj' (docs ?fs' ?D))"
    using new by (auto simp: try_map_projr is_ok_iff sj'_def)
  ultimately show ?thesis by blast
qed

lemma reload_documents:
  assumes sorted: "bt_sorted fs" and env: "faultless env" and layout: "store_layout paths"
    and load: "policy_load env cd fs paths RootOwnedSystem = Ok ps"
    and f: "f = committed_file env enc" "\<not> untrusted is_file f" "length enc \<le> MAX_POLICY_FILE_BYTES"
      "parse_subject cd enc = Some s"
    and valid: "snapshot_validate_subject ps s = Ok ()"
    and room: "subject_path paths (sp_uid s) \<in> set (docs fs (pp_subjects_dir paths)) \<or>
      length (docs fs (pp_subjects_dir paths)) < MAX_SUBJECTS"
  shows "policy_load env cd (bt_insert (subject_path paths (sp_uid s)) f fs) paths RootOwnedSystem
     = replace_subject ps s"
proof -
  let ?t = "subject_path paths (sp_uid s)" and ?D = "pp_subjects_dir paths"
  let ?fs' = "bt_insert ?t f fs"
  have ne: "?D \<noteq> []" using layout by (simp add: store_layout_def)
  note doc = subject_path_document(3,2) [OF ne, of "sp_uid s"]
  have sorted': "bt_sorted ?fs'" using sorted by (simp add: btree_simps)
  obtain g r bs ss where trust: "trust_ok fs paths" and few: "length (docs fs (pp_bundles_dir paths)) \<le> MAX_BUNDLES"
    and g: "parse_file env fs (parse_global cd) (pp_policy_path paths) = Ok g"
    and r: "parse_file env fs (parse_registry cd) (pp_actions_path paths) = Ok r"
    and bs: "try_map (parse_file env fs (parse_bundle cd)) (docs fs (pp_bundles_dir paths)) = Ok bs"
    and ss: "try_map (load_subject env cd fs) (docs fs ?D) = Ok ss" and ps: "from_documents g r bs ss = Ok ps"
    using load policy_load_iff [OF sorted env] by auto
  have trust': "trust_ok ?fs' paths"
    using sorted trust layout f(2) room by (rule trust_ok_insert)
  have bdocs: "docs ?fs' (pp_bundles_dir paths) = docs fs (pp_bundles_dir paths)"
    and notin: "?t \<notin> set (docs fs (pp_bundles_dir paths))"
    using layout doc docs_iff [OF sorted] by (auto simp: store_layout_def intro!: docs_insert_other [OF sorted])
  obtain m where m: "bt_collect sp_uid (\<lambda>s. validate_subject s (ps_actions ps) (ps_bundles ps))
      (PolicyInvalid ''duplicate subject uid'') bt_empty ss = Ok m" and psm: "ps_subjects ps = m"
    using from_documents_subjects [OF ps, of ss ps] ps by auto (metis PolicySnapshot.select_convs(4) PolicySnapshot.surjective PolicySnapshot.update_convs(4))
  have at: "load_subject env cd ?fs' ?t = Ok s"
    using f by (intro load_subject_committed [OF env ne]) (auto simp: btree_simps)
  have "\<forall>p\<in>set (docs fs ?D). trusted_at fs is_file p" using trust by (simp add: trust_ok_def)
  from reload_subjects [OF sorted ne this ss m _ at] valid obtain ss'
    where ss': "try_map (load_subject env cd ?fs') (docs ?fs' ?D) = Ok ss'"
      and m': "bt_collect sp_uid (\<lambda>s. validate_subject s (ps_actions ps) (ps_bundles ps))
        (PolicyInvalid ''duplicate subject uid'') bt_empty ss' = Ok (bt_insert (sp_uid s) s m)"
    by (auto simp: snapshot_validate_subject_def)
  have "length ss' \<le> MAX_SUBJECTS" using trust' ss' by (simp add: trust_ok_def try_map_projr)
  with m' from_documents_subjects [OF ps]
  have "from_documents g r bs ss' = Ok (ps\<lparr>ps_subjects := bt_insert (sp_uid s) s m\<rparr>)" by simp
  moreover have "try_map (parse_file env ?fs' (parse_bundle cd)) (docs fs (pp_bundles_dir paths)) = Ok bs"
  proof -
    have "\<forall>p\<in>set (docs fs (pp_bundles_dir paths)). trusted_at fs is_file p"
      using trust by (simp add: trust_ok_def)
    then show ?thesis using bs by (simp only: reload_bundles [OF _ notin])
  qed
  moreover have "parse_file env ?fs' (parse_global cd) (pp_policy_path paths) = Ok g"
    "parse_file env ?fs' (parse_registry cd) (pp_actions_path paths) = Ok r"
    using g r trust layout_target [OF layout] by (auto simp: trust_ok_def trusted_parse_file)
  ultimately have "policy_load env cd ?fs' paths RootOwnedSystem =
      Ok (ps\<lparr>ps_subjects := bt_insert (sp_uid s) s m\<rparr>)"
    unfolding policy_load_iff [OF sorted' env] using trust' few ss' bdocs by auto
  then show ?thesis using valid psm by (simp add: replace_subject_def)
qed

end
