(* ===== verification/Audit_Sink.thy ===== *)
theory Audit_Sink
  imports Protocol Filesystem
begin

section \<open>The audit sink\<close>

text \<open>
  \<^verbatim>\<open>portus-audit/src/lib.rs\<close>: validation of audit records and the bounded JSON-lines file sink with its
  rotation. The encoder \<open>serde_json::to_vec\<close> is a parameter (\<open>None\<close> when it fails); the
  mutex makes each call of \<open>record\<close> one step. The lemmas show that the sink bounds every file,
  that rotation shifts the archives, and that the log as a whole only ever loses its oldest file.
\<close>

subsection \<open>Records\<close>

definition MAX_AUDIT_RECORD_BYTES :: nat where "MAX_AUDIT_RECORD_BYTES = 4096"
definition MAX_AUDIT_ACTION_BYTES :: nat where "MAX_AUDIT_ACTION_BYTES = 128"
definition MAX_AUDIT_REASON_BYTES :: nat where "MAX_AUDIT_REASON_BYTES = 256"
definition MAX_AUDIT_TARGET_BYTES :: nat where "MAX_AUDIT_TARGET_BYTES = 512"
definition DEFAULT_MAX_AUDIT_FILE_BYTES :: nat where "DEFAULT_MAX_AUDIT_FILE_BYTES = 1024 * 1024"
definition DEFAULT_AUDIT_ARCHIVES :: nat where "DEFAULT_AUDIT_ARCHIVES = 4"

datatype AuditError =
    AuditIo
  | InvalidRecord string
  | RecordTooLarge
  | InvalidConfiguration string

definition audit_secret_markers :: "string list" where
  "audit_secret_markers =
     [''authorization:'', ''bearer '', ''api_key='', ''apikey='', ''password='', ''secret='',
      ''token='', ''private_key'']"

definition validate_safe_text :: "string \<Rightarrow> nat \<Rightarrow> string \<Rightarrow> AuditError + unit" where
  "validate_safe_text v max_bytes field =
     (if trim_is_empty v \<or> max_bytes < length v \<or> contains_char v line_breaks
      then Err (InvalidRecord field)
      else let lower = to_ascii_lowercase v in
        try_each (\<lambda>marker.
          if contains_str lower marker then Err (InvalidRecord ''secret-like material rejected'')
          else Ok ()) audit_secret_markers)"

definition validate_record :: "AuditRecord \<Rightarrow> AuditError + unit" where
  "validate_record r =
     (if ar_schema_version r \<noteq> AUDIT_SCHEMA_VERSION
      then Err (InvalidRecord ''unsupported record schema version'')
      else if \<not> audit_actor_is_valid (ar_actor r)
      then Err (InvalidRecord ''actor shape is inconsistent'')
      else and_then (validate_safe_text (ar_action r) MAX_AUDIT_ACTION_BYTES ''action'') (\<lambda>_.
        and_then (validate_safe_text (ar_reason_code r) MAX_AUDIT_REASON_BYTES ''reason'') (\<lambda>_.
        and_then (case ar_target_ref r of
            None \<Rightarrow> Ok ()
          | Some t \<Rightarrow> validate_safe_text t MAX_AUDIT_TARGET_BYTES ''target'') (\<lambda>_.
        if actor_kind (ar_actor r) = ActorSystem \<and> actor_principal (ar_actor r) \<noteq> None
        then Err (InvalidRecord ''system actor cannot contain principal'')
        else Ok ()))))"

definition null_sink_record :: "AuditRecord \<Rightarrow> AuditError + unit" where
  "null_sink_record r = validate_record r"

subsection \<open>The file sink\<close>

record FileAuditSink =
  as_path :: PathBuf
  as_max_file_bytes :: nat
  as_archives :: nat

definition audit_io :: "io_error \<Rightarrow> AuditError" where
  "audit_io e = AuditIo"

definition archive_path :: "PathBuf \<Rightarrow> nat \<Rightarrow> PathBuf" where
  "archive_path p i = butlast p @ [last p @ ''.'' @ show_nat i]"

definition open_with_limits ::
  "IoEnv \<Rightarrow> Files \<Rightarrow> PathBuf \<Rightarrow> nat \<Rightarrow> nat \<Rightarrow> Files \<times> (AuditError + FileAuditSink)" where
  "open_with_limits env fs path max_file_bytes archives =
     (if max_file_bytes < MAX_AUDIT_RECORD_BYTES
      then (fs, Err (InvalidConfiguration ''audit file limit must fit one maximum record''))
      else case Option.bind (path_parent path) (\<lambda>d. if d = [] then None else Some d) of
        None \<Rightarrow> (fs, Err (InvalidConfiguration ''audit path has no parent''))
      | Some parent \<Rightarrow>
          if \<not> fs_is_dir env fs parent
          then (fs, Err (InvalidConfiguration ''audit parent directory does not exist''))
          else st_then (st_map_err audit_io (fs_open_append env fs path)) (\<lambda>fs' _.
            (fs', Ok \<lparr>as_path = path, as_max_file_bytes = max_file_bytes, as_archives = archives\<rparr>)))"

definition sink_open :: "IoEnv \<Rightarrow> Files \<Rightarrow> PathBuf \<Rightarrow> Files \<times> (AuditError + FileAuditSink)" where
  "sink_open env fs path =
     open_with_limits env fs path DEFAULT_MAX_AUDIT_FILE_BYTES DEFAULT_AUDIT_ARCHIVES"

definition current_len :: "IoEnv \<Rightarrow> Files \<Rightarrow> PathBuf \<Rightarrow> nat" where
  "current_len env fs p =
     (case fs_stat env fs p of Inl _ \<Rightarrow> 0 | Inr i \<Rightarrow> length (in_data i))"

definition remove_if_exists :: "IoEnv \<Rightarrow> Files \<Rightarrow> PathBuf \<Rightarrow> Files \<times> (AuditError + unit)" where
  "remove_if_exists env fs p =
     (if fs_exists env fs p then st_map_err audit_io (fs_remove_file env fs p) else (fs, Ok ()))"

definition rename_if_exists ::
  "IoEnv \<Rightarrow> Files \<Rightarrow> PathBuf \<Rightarrow> PathBuf \<Rightarrow> Files \<times> (AuditError + unit)" where
  "rename_if_exists env fs p q =
     (if fs_exists env fs p then st_map_err audit_io (fs_rename env fs p q) else (fs, Ok ()))"

definition shift_archive :: "IoEnv \<Rightarrow> PathBuf \<Rightarrow> Files \<Rightarrow> nat \<Rightarrow> Files \<times> (AuditError + unit)" where
  "shift_archive env p fs i = rename_if_exists env fs (archive_path p i) (archive_path p (i + 1))"

definition create_file :: "IoEnv \<Rightarrow> Files \<Rightarrow> PathBuf \<Rightarrow> Files \<times> (AuditError + unit)" where
  "create_file env fs p = st_then (st_map_err audit_io (fs_create env fs p)) (\<lambda>fs' _. (fs', Ok ()))"

definition rotate_if_needed ::
  "IoEnv \<Rightarrow> FileAuditSink \<Rightarrow> Files \<Rightarrow> nat \<Rightarrow> Files \<times> (AuditError + unit)" where
  "rotate_if_needed env sink fs incoming =
     (let p = as_path sink in
      if sat_add_u64 (current_len env fs p) incoming \<le> as_max_file_bytes sink then (fs, Ok ())
      else if as_archives sink = 0 then create_file env fs p
      else
        st_then (remove_if_exists env fs (archive_path p (as_archives sink))) (\<lambda>fs1 _.
        st_then (st_each (shift_archive env p) fs1 (rev [1..<as_archives sink])) (\<lambda>fs2 _.
        st_then (rename_if_exists env fs2 p (archive_path p 1)) (\<lambda>fs3 _.
        create_file env fs3 p))))"

definition encode_line :: "(AuditRecord \<Rightarrow> string option) \<Rightarrow> AuditRecord \<Rightarrow> AuditError + string" where
  "encode_line to_vec r =
     and_then (validate_record r) (\<lambda>_.
     and_then (ok_or (to_vec r) (InvalidRecord ''record is not serializable'')) (\<lambda>encoded.
       let line = encoded @ [CHR 0x0A] in
       if MAX_AUDIT_RECORD_BYTES < length line then Err RecordTooLarge else Ok line))"

definition append_line ::
  "IoEnv \<Rightarrow> FileAuditSink \<Rightarrow> Files \<Rightarrow> string \<Rightarrow> Files \<times> (AuditError + unit)" where
  "append_line env sink fs line =
     st_then (rotate_if_needed env sink fs (length line)) (\<lambda>fs1 _.
     st_then (st_map_err audit_io (fs_open_append env fs1 (as_path sink))) (\<lambda>fs2 h.
     st_then (st_map_err audit_io (fs_write_all env fs2 h line)) (\<lambda>fs3 _.
     st_map_err audit_io (fs_flush env fs3 h))))"

definition sink_record ::
  "(AuditRecord \<Rightarrow> string option) \<Rightarrow> IoEnv \<Rightarrow> FileAuditSink \<Rightarrow> Files \<Rightarrow> AuditRecord
    \<Rightarrow> Files \<times> (AuditError + unit)" where
  "sink_record to_vec env sink fs r =
     (case encode_line to_vec r of
        Inl e \<Rightarrow> (fs, Err e)
      | Inr line \<Rightarrow> append_line env sink fs line)"

subsection \<open>Validation\<close>

definition safe_text :: "nat \<Rightarrow> string \<Rightarrow> bool" where
  "safe_text n v \<longleftrightarrow> \<not> trim_is_empty v \<and> length v \<le> n \<and> \<not> contains_char v line_breaks \<and>
     list_all (\<lambda>m. \<not> contains_str (to_ascii_lowercase v) m) audit_secret_markers"

lemma validate_safe_text_Ok [result_simps]:
  "validate_safe_text v n field = Ok u \<longleftrightarrow> safe_text n v"
  by (auto simp: validate_safe_text_def safe_text_def Let_def result_simps list_all_iff)

lemma validate_record_Ok [result_simps]:
  "validate_record r = Ok u \<longleftrightarrow>
     ar_schema_version r = AUDIT_SCHEMA_VERSION \<and> audit_actor_is_valid (ar_actor r) \<and>
     safe_text MAX_AUDIT_ACTION_BYTES (ar_action r) \<and>
     safe_text MAX_AUDIT_REASON_BYTES (ar_reason_code r) \<and>
     (\<forall>t. ar_target_ref r = Some t \<longrightarrow> safe_text MAX_AUDIT_TARGET_BYTES t)"
  by (auto simp: validate_record_def result_simps audit_actor_valid_iff split: option.splits)

subsection \<open>The files of a sink\<close>

text \<open>Slot \<open>0\<close> is the current file, slot \<open>i\<close> the \<open>i\<close>-th archive.\<close>

definition slot :: "FileAuditSink \<Rightarrow> nat \<Rightarrow> PathBuf" where
  "slot sink i = (if i = 0 then as_path sink else archive_path (as_path sink) i)"

definition sink_wf :: "FileAuditSink \<Rightarrow> Files \<Rightarrow> bool" where
  "sink_wf sink fs \<longleftrightarrow>
     parent_exists fs (as_path sink) \<and>
     MAX_AUDIT_RECORD_BYTES \<le> as_max_file_bytes sink \<and> as_max_file_bytes sink < u64_max \<and>
     (\<forall>i\<le>as_archives sink. \<forall>f. bt_get fs (slot sink i) = Some f \<longrightarrow>
        is_file f \<and> length (in_data f) \<le> as_max_file_bytes sink)"

lemma archive_path_inject [simp]: "archive_path p i = archive_path p j \<longleftrightarrow> i = j"
  by (simp add: archive_path_def)

lemma archive_path_neq: "p \<noteq> [] \<Longrightarrow> archive_path p i \<noteq> p"
  by (cases p rule: rev_cases) (auto simp: archive_path_def)

lemma parent_exists_nonempty: "parent_exists fs p \<Longrightarrow> p \<noteq> []"
  by (auto simp: parent_exists_def path_parent_def split: if_splits)

lemma sink_wf_path: "sink_wf sink fs \<Longrightarrow> as_path sink \<noteq> []"
  by (auto simp: sink_wf_def dest: parent_exists_nonempty)

lemma slot_inject: "as_path sink \<noteq> [] \<Longrightarrow> slot sink i = slot sink j \<longleftrightarrow> i = j"
  using archive_path_neq [of "as_path sink"] archive_path_neq [of "as_path sink", symmetric]
  by (cases "i = 0"; cases "j = 0") (simp_all add: slot_def)

lemma slot_0: "slot sink 0 = as_path sink"
  by (simp add: slot_def)

lemma slot_archive: "0 < i \<Longrightarrow> slot sink i = archive_path (as_path sink) i"
  by (simp add: slot_def)

lemma parent_exists_archive:
  assumes "parent_exists fs p"
  shows "parent_exists fs (archive_path p i)"
proof -
  have "last p @ ''.'' @ show_nat i \<noteq> ''/''"
    by (cases "last p") auto
  with assms show ?thesis
    by (auto simp: parent_exists_def path_parent_def archive_path_def butlast_append split: if_splits)
qed

lemma parent_exists_slot: "parent_exists fs (as_path sink) \<Longrightarrow> parent_exists fs (slot sink i)"
  by (simp add: slot_def parent_exists_archive)

lemma parent_exists_update:
  assumes "parent_exists fs p" and "\<And>d. length d < length p \<Longrightarrow> bt_get fs' d = bt_get fs d"
  shows "parent_exists fs' p"
proof -
  have "p \<noteq> []" using assms(1) by (rule parent_exists_nonempty)
  then have "bt_get fs' (butlast p) = bt_get fs (butlast p)"
    by (intro assms(2)) simp
  with assms(1) show ?thesis
    by (auto simp: parent_exists_def path_parent_def split: if_splits)
qed

lemma length_slot: "as_path sink \<noteq> [] \<Longrightarrow> length (slot sink i) = length (as_path sink)"
  by (simp add: slot_def archive_path_def)

lemma parent_exists_put:
  assumes "sink_wf sink fs"
  shows "parent_exists (bt_insert (slot sink i) f fs) (as_path sink)"
proof (rule parent_exists_update)
  show "parent_exists fs (as_path sink)" using assms by (simp add: sink_wf_def)
  show "bt_get (bt_insert (slot sink i) f fs) d = bt_get fs d" if "length d < length (as_path sink)" for d
    using that length_slot [OF sink_wf_path [OF assms], of i] by (auto simp: btree_simps)
qed

lemma parent_exists_del:
  assumes "sink_wf sink fs"
  shows "parent_exists (bt_remove (slot sink i) fs) (as_path sink)"
proof (rule parent_exists_update)
  show "parent_exists fs (as_path sink)" using assms by (simp add: sink_wf_def)
  show "bt_get (bt_remove (slot sink i) fs) d = bt_get fs d" if "length d < length (as_path sink)" for d
    using that length_slot [OF sink_wf_path [OF assms], of i] by (auto simp: btree_simps)
qed

lemma sink_wf_put:
  assumes "sink_wf sink fs" and "is_file f" and "length (in_data f) \<le> as_max_file_bytes sink"
  shows "sink_wf sink (bt_insert (slot sink i) f fs)"
  using assms parent_exists_put [OF assms(1)] by (auto simp: sink_wf_def btree_simps)

lemma sink_wf_del:
  assumes "sink_wf sink fs"
  shows "sink_wf sink (bt_remove (slot sink i) fs)"
  using assms parent_exists_del [OF assms(1)] by (auto simp: sink_wf_def btree_simps)

lemma sink_wf_file:
  "sink_wf sink fs \<Longrightarrow> i \<le> as_archives sink \<Longrightarrow> bt_get fs (slot sink i) = Some f \<Longrightarrow>
     is_file f \<and> length (in_data f) \<le> as_max_file_bytes sink"
  by (auto simp: sink_wf_def)

lemma slot_resolve:
  assumes "sink_wf sink fs" and "i \<le> as_archives sink"
  shows "resolve_path fs (slot sink i) = Ok (slot sink i)"
  using sink_wf_file [OF assms] is_file_not_symlink resolve_not_symlink resolve_absent
  by (cases "bt_get fs (slot sink i)") auto

lemma slot_exists:
  assumes "sink_wf sink fs" and "i \<le> as_archives sink" and "\<And>p. \<not> io_fails env (Stat p)"
  shows "fs_exists env fs (slot sink i) \<longleftrightarrow> bt_get fs (slot sink i) \<noteq> None"
  using assms(3)
  by (cases "bt_get fs (slot sink i)")
    (auto simp: fs_exists_def fs_stat_def slot_resolve [OF assms(1,2)] is_ok_def)

subsection \<open>Each call keeps the invariant, whatever fails\<close>

lemma remove_wf:
  assumes "sink_wf sink fs"
  shows "sink_wf sink (fst (remove_if_exists env fs (slot sink i)))"
  using assms
  by (auto simp: remove_if_exists_def fs_remove_file_def intro: sink_wf_del split: option.splits)

lemma rename_wf:
  assumes "sink_wf sink fs" and "i \<le> as_archives sink"
  shows "sink_wf sink (fst (rename_if_exists env fs (slot sink i) (slot sink j)))"
  using assms
  by (auto simp: rename_if_exists_def fs_rename_def intro!: sink_wf_put sink_wf_del
      dest: sink_wf_file split: option.splits)

lemma create_cases:
  assumes "sink_wf sink fs"
  shows "create_file env fs (slot sink 0) = (fs, Err AuditIo) \<or>
     (\<exists>f. is_file f \<and> in_data f = [] \<and>
       create_file env fs (slot sink 0) = (bt_insert (slot sink 0) f fs, Ok ()))"
proof (cases "bt_get fs (slot sink 0)")
  case None
  then show ?thesis
    using assms
    by (auto simp: create_file_def fs_create_def slot_resolve audit_io_def new_file_def is_file_def
        intro!: exI [of _ "new_file env 0x1B6"])
next
  case (Some f)
  then show ?thesis
    using assms
    by (auto simp: create_file_def fs_create_def slot_resolve audit_io_def is_file_def
        intro!: exI [of _ "f\<lparr>in_data := []\<rparr>"])
qed

lemma create_wf:
  assumes "sink_wf sink fs"
  shows "sink_wf sink (fst (create_file env fs (slot sink 0)))"
  using create_cases [OF assms, of env] sink_wf_put [OF assms] assms by auto

lemma shift_wf:
  assumes "sink_wf sink fs" and "0 < i" and "i < as_archives sink"
  shows "sink_wf sink (fst (shift_archive env (as_path sink) fs i))"
  using rename_wf [OF assms(1), of i env "i + 1"] assms(2,3)
  by (simp add: shift_archive_def slot_archive)

lemma shifts_wf:
  assumes "sink_wf sink fs"
  shows "sink_wf sink (fst (st_each (shift_archive env (as_path sink)) fs (rev [1..<as_archives sink])))"
  using assms by (rule st_each_fst) (auto intro: shift_wf)

lemma rotate_slots:
  "rotate_if_needed env sink fs incoming =
     (if sat_add_u64 (current_len env fs (slot sink 0)) incoming \<le> as_max_file_bytes sink then (fs, Ok ())
      else if as_archives sink = 0 then create_file env fs (slot sink 0)
      else
        st_then (remove_if_exists env fs (slot sink (as_archives sink))) (\<lambda>fs1 _.
        st_then (st_each (shift_archive env (as_path sink)) fs1 (rev [1..<as_archives sink])) (\<lambda>fs2 _.
        st_then (rename_if_exists env fs2 (slot sink 0) (slot sink 1)) (\<lambda>fs3 _.
        create_file env fs3 (slot sink 0)))))"
  by (simp add: rotate_if_needed_def Let_def slot_0 slot_archive)

lemma rotate_wf:
  assumes "sink_wf sink fs"
  shows "sink_wf sink (fst (rotate_if_needed env sink fs incoming))"
  using assms unfolding rotate_slots
  by (auto intro!: st_then_fst [where P = "sink_wf sink"]
      intro: remove_wf shifts_wf [unfolded One_nat_def] rename_wf create_wf)

text \<open>After a successful rotation there is room for the incoming line.\<close>

lemma current_len_slot:
  assumes "sink_wf sink fs" and "\<And>p. \<not> io_fails env (Stat p)"
  shows "current_len env fs (slot sink 0) =
     (case bt_get fs (slot sink 0) of None \<Rightarrow> 0 | Some f \<Rightarrow> length (in_data f))"
  using assms(2)
  by (auto simp: current_len_def fs_stat_def slot_resolve [OF assms(1)] split: option.split)

lemma rotate_room:
  assumes "sink_wf sink fs" and "\<And>p. \<not> io_fails env (Stat p)"
    and "incoming \<le> MAX_AUDIT_RECORD_BYTES"
    and "rotate_if_needed env sink fs incoming = (fs', Ok ())"
    and "bt_get fs' (slot sink 0) = Some f"
  shows "length (in_data f) + incoming \<le> as_max_file_bytes sink"
proof (cases "sat_add_u64 (current_len env fs (slot sink 0)) incoming \<le> as_max_file_bytes sink")
  case True
  with assms show ?thesis
    by (auto simp: rotate_slots current_len_slot sat_add_u64_def sink_wf_def)
next
  case rotates: False
  then obtain fs3 where create: "create_file env fs3 (slot sink 0) = (fs', Ok ())" and "sink_wf sink fs3"
  proof (cases "as_archives sink = 0")
    case False
    with assms(4) rotates obtain fs1 fs2 fs3
      where "remove_if_exists env fs (slot sink (as_archives sink)) = (fs1, Ok ())"
        and "st_each (shift_archive env (as_path sink)) fs1 (rev [1..<as_archives sink]) = (fs2, Ok ())"
        and "rename_if_exists env fs2 (slot sink 0) (slot sink 1) = (fs3, Ok ())"
        and "create_file env fs3 (slot sink 0) = (fs', Ok ())"
      by (auto simp: rotate_slots result_simps)
    moreover from this have "sink_wf sink fs1" "sink_wf sink fs2" "sink_wf sink fs3"
      using remove_wf [OF assms(1), of env "as_archives sink"] shifts_wf [of sink fs1 env]
        rename_wf [of sink fs2 0 env 1] by auto
    ultimately show ?thesis using that by blast
  qed (use assms in \<open>auto simp: rotate_slots\<close>)
  then have "in_data f = []"
    using create_cases [of sink fs3 env] assms(5) by (auto simp: btree_simps)
  with assms(1,3) show ?thesis by (simp add: sink_wf_def)
qed

lemma open_append_slot:
  assumes "sink_wf sink fs" and "fs_open_append env fs (slot sink 0) = (fs', r)"
  shows "sink_wf sink fs'" and "r = Ok h \<Longrightarrow> h = slot sink 0"
    and "bt_get fs' (slot sink 0) = Some f \<Longrightarrow> in_data f = [] \<or> bt_get fs (slot sink 0) = Some f"
    and "bt_get fs (slot sink 0) = Some g \<Longrightarrow> fs' = fs"
    and "bt_get fs (slot sink 0) = None \<Longrightarrow> r = Ok h \<Longrightarrow> fs' = bt_insert (slot sink 0) (new_file env 0x1B6) fs"
  using assms sink_wf_put [OF assms(1), of "new_file env 0x1B6"]
  by (auto simp: fs_open_append_def slot_resolve new_file_def is_file_def btree_simps
      split: option.splits if_splits)

lemma append_wf:
  assumes "sink_wf sink fs"
    and "\<And>f. bt_get fs (slot sink 0) = Some f \<Longrightarrow> length (in_data f) + length s \<le> as_max_file_bytes sink"
  shows "sink_wf sink (append_data fs (slot sink 0) s)"
proof (cases "bt_get fs (slot sink 0)")
  case (Some f)
  with assms(2) [OF Some] sink_wf_file [OF assms(1) _ Some]
  show ?thesis by (auto simp: append_data_def is_file_def intro!: sink_wf_put [OF assms(1)])
qed (simp add: append_data_def assms(1))

lemma append_line_wf:
  assumes "sink_wf sink fs" and "\<And>p. \<not> io_fails env (Stat p)"
    and size: "length line \<le> MAX_AUDIT_RECORD_BYTES"
  shows "sink_wf sink (fst (append_line env sink fs line))"
  unfolding append_line_def
proof (rule st_then_fst)
  show "sink_wf sink (fst (rotate_if_needed env sink fs (length line)))"
    using assms(1) by (rule rotate_wf)
  fix fs1 u
  assume rot: "rotate_if_needed env sink fs (length line) = (fs1, Ok u)" and wf1: "sink_wf sink fs1"
  obtain fs2 r2 where op: "fs_open_append env fs1 (slot sink 0) = (fs2, r2)" by fastforce
  note op2 = open_append_slot [OF wf1 op]
  have room: "length (in_data f) + length line \<le> as_max_file_bytes sink"
    if "bt_get fs2 (slot sink 0) = Some f" for f
    using op2(3) [OF that] rotate_room [OF assms(1) _ size, of env fs1 f] rot wf1 size assms(2)
    by (auto simp: sink_wf_def)
  have "sink_wf sink (fst (fs_write_all env fs2 (slot sink 0) line))"
    using room op2(1) by (fastforce simp: fs_write_all_def intro!: append_wf)
  then show "sink_wf sink (fst (st_then (st_map_err audit_io (fs_open_append env fs1 (as_path sink)))
     (\<lambda>fs2 h. st_then (st_map_err audit_io (fs_write_all env fs2 h line))
     (\<lambda>fs3 _. st_map_err audit_io (fs_flush env fs3 h)))))"
    using op op2(1,2)
    by (cases r2) (auto simp: slot_0 fs_flush_def intro!: st_then_fst [where P = "sink_wf sink"])
qed

lemma encode_line_Ok:
  "encode_line to_vec r = Ok line \<longleftrightarrow> validate_record r = Ok () \<and>
     (\<exists>enc. to_vec r = Some enc \<and> line = enc @ [CHR 0x0A]) \<and> length line \<le> MAX_AUDIT_RECORD_BYTES"
  by (cases "to_vec r") (auto simp: encode_line_def result_simps Let_def)

lemma record_wf:
  assumes "sink_wf sink fs" and "\<And>p. \<not> io_fails env (Stat p)"
  shows "sink_wf sink (fst (sink_record to_vec env sink fs r))"
  using append_line_wf [OF assms] assms(1)
  by (auto simp: sink_record_def encode_line_Ok split: sum.split)

subsection \<open>Rotation shifts the archives\<close>

definition data_at :: "Files \<Rightarrow> PathBuf \<Rightarrow> string" where
  "data_at fs p = (case bt_get fs p of None \<Rightarrow> [] | Some f \<Rightarrow> in_data f)"

definition audit_log :: "FileAuditSink \<Rightarrow> Files \<Rightarrow> string" where
  "audit_log sink fs = concat (map (\<lambda>i. data_at fs (slot sink i)) (rev [0..<Suc (as_archives sink)]))"

definition line_fits :: "IoEnv \<Rightarrow> FileAuditSink \<Rightarrow> Files \<Rightarrow> nat \<Rightarrow> bool" where
  "line_fits env sink fs incoming \<longleftrightarrow>
     sat_add_u64 (current_len env fs (slot sink 0)) incoming \<le> as_max_file_bytes sink"

lemma faultless_simps [simp]: "faultless env \<Longrightarrow> \<not> io_fails env x"
  by (simp add: faultless_def)

lemma remove_faultless:
  assumes "sink_wf sink fs" and "faultless env" and "i \<le> as_archives sink"
  shows "\<exists>fs'. remove_if_exists env fs (slot sink i) = (fs', Ok ()) \<and>
     (\<forall>q. bt_get fs' q = (if q = slot sink i then None else bt_get fs q))"
proof (cases "bt_get fs (slot sink i)")
  case (Some f)
  then have "\<not> is_dir f" using sink_wf_file [OF assms(1,3)] is_file_not_symlink by blast
  then show ?thesis
    using assms Some
    by (simp add: remove_if_exists_def fs_remove_file_def slot_exists btree_simps)
qed (use assms in \<open>auto simp: remove_if_exists_def slot_exists\<close>)

lemma rename_faultless:
  assumes "sink_wf sink fs" and "faultless env" and "i \<le> as_archives sink"
    and "bt_get fs (slot sink j) = None" and "i \<noteq> j"
  shows "\<exists>fs'. rename_if_exists env fs (slot sink i) (slot sink j) = (fs', Ok ()) \<and>
     (\<forall>q. bt_get fs' q = (if q = slot sink j then bt_get fs (slot sink i)
        else if q = slot sink i then None else bt_get fs q))"
proof (cases "bt_get fs (slot sink i)")
  case (Some f)
  moreover have "parent_exists fs (slot sink j)"
    using assms(1) parent_exists_slot by (auto simp: sink_wf_def)
  ultimately show ?thesis
    using assms by (auto simp: rename_if_exists_def fs_rename_def slot_exists btree_simps)
qed (use assms in \<open>auto simp: rename_if_exists_def slot_exists\<close>)

lemma create_faultless:
  assumes "sink_wf sink fs" and "faultless env"
  shows "\<exists>fs'. create_file env fs (slot sink 0) = (fs', Ok ()) \<and> data_at fs' (slot sink 0) = [] \<and>
     (\<forall>q. q \<noteq> slot sink 0 \<longrightarrow> bt_get fs' q = bt_get fs q)"
proof -
  have "parent_exists fs (slot sink 0)" using assms(1) by (simp add: sink_wf_def slot_0)
  then have "create_file env fs (slot sink 0) \<noteq> (fs, Err AuditIo)"
    using assms sink_wf_file [OF assms(1), of 0]
    by (auto simp: create_file_def fs_create_def slot_resolve split: option.splits)
  with create_cases [OF assms(1), of env] show ?thesis
    by (auto simp: data_at_def btree_simps)
qed

lemma shifts_faultless:
  assumes "sink_wf sink fs" and "faultless env" and "0 < n" and "n \<le> as_archives sink"
    and "bt_get fs (slot sink n) = None"
  shows "\<exists>fs'. st_each (shift_archive env (as_path sink)) fs (rev [1..<n]) = (fs', Ok ()) \<and>
     bt_get fs' (slot sink 1) = None \<and> bt_get fs' (slot sink 0) = bt_get fs (slot sink 0) \<and>
     (\<forall>i. 0 < i \<and> i < n \<longrightarrow> bt_get fs' (slot sink (Suc i)) = bt_get fs (slot sink i)) \<and>
     (\<forall>i>n. bt_get fs' (slot sink i) = bt_get fs (slot sink i))"
  using assms(1,3-5)
proof (induction n arbitrary: fs)
  case (Suc n)
  show ?case
  proof (cases "n = 0")
    case True
    with Suc.prems show ?thesis by auto
  next
    case False
    have path: "as_path sink \<noteq> []" using Suc.prems(1) by (rule sink_wf_path)
    obtain fs1 where fs1: "shift_archive env (as_path sink) fs n = (fs1, Ok ())"
      and get: "\<And>q. bt_get fs1 q = (if q = slot sink (Suc n) then bt_get fs (slot sink n)
        else if q = slot sink n then None else bt_get fs q)"
      using rename_faultless [OF Suc.prems(1) assms(2), of n "Suc n"] Suc.prems False
      by (auto simp: shift_archive_def slot_archive)
    have "sink_wf sink fs1"
      using shift_wf [OF Suc.prems(1), of n env] fs1 Suc.prems False by auto
    with Suc.IH [of fs1] get Suc.prems False obtain fs2
      where "st_each (shift_archive env (as_path sink)) fs1 (rev [1..<n]) = (fs2, Ok ())"
        and "bt_get fs2 (slot sink 1) = None" "bt_get fs2 (slot sink 0) = bt_get fs1 (slot sink 0)"
        and "\<forall>i. 0 < i \<and> i < n \<longrightarrow> bt_get fs2 (slot sink (Suc i)) = bt_get fs1 (slot sink i)"
        and "\<forall>i>n. bt_get fs2 (slot sink i) = bt_get fs1 (slot sink i)"
      by (auto simp: slot_inject [OF path])
    with fs1 get False show ?thesis
      by (intro exI [of _ fs2]) (auto simp: slot_inject [OF path] less_Suc_eq)
  qed
qed simp

lemma rotate_faultless:
  assumes "sink_wf sink fs" and "faultless env"
  shows "\<exists>fs'. rotate_if_needed env sink fs incoming = (fs', Ok ()) \<and>
     (if line_fits env sink fs incoming then fs' = fs
      else data_at fs' (slot sink 0) = [] \<and>
        (\<forall>i<as_archives sink. data_at fs' (slot sink (Suc i)) = data_at fs (slot sink i)))"
proof (cases "line_fits env sink fs incoming \<or> as_archives sink = 0")
  case True
  then show ?thesis
    using create_faultless [OF assms] by (auto simp: rotate_slots line_fits_def)
next
  case False
  have path: "as_path sink \<noteq> []" using assms(1) by (rule sink_wf_path)
  obtain fs1 where fs1: "remove_if_exists env fs (slot sink (as_archives sink)) = (fs1, Ok ())"
    and get1: "\<And>q. bt_get fs1 q = (if q = slot sink (as_archives sink) then None else bt_get fs q)"
    using remove_faultless [OF assms, of "as_archives sink"] by auto
  have wf1: "sink_wf sink fs1" using remove_wf [OF assms(1), of env "as_archives sink"] fs1 by simp
  obtain fs2 where fs2: "st_each (shift_archive env (as_path sink)) fs1 (rev [1..<as_archives sink]) = (fs2, Ok ())"
    and get2: "bt_get fs2 (slot sink 1) = None" "bt_get fs2 (slot sink 0) = bt_get fs1 (slot sink 0)"
      "\<forall>i. 0 < i \<and> i < as_archives sink \<longrightarrow> bt_get fs2 (slot sink (Suc i)) = bt_get fs1 (slot sink i)"
    using shifts_faultless [OF wf1 assms(2), of "as_archives sink"] False get1 by auto
  have wf2: "sink_wf sink fs2" using shifts_wf [OF wf1, of env] fs2 by simp
  obtain fs3 where fs3: "rename_if_exists env fs2 (slot sink 0) (slot sink 1) = (fs3, Ok ())"
    and get3: "\<And>q. bt_get fs3 q = (if q = slot sink 1 then bt_get fs2 (slot sink 0)
        else if q = slot sink 0 then None else bt_get fs2 q)"
    using rename_faultless [OF wf2 assms(2), of 0 1] get2(1) by auto
  have wf3: "sink_wf sink fs3" using rename_wf [OF wf2, of 0 env 1] fs3 by simp
  obtain fs4 where fs4: "create_file env fs3 (slot sink 0) = (fs4, Ok ())"
    and get4: "data_at fs4 (slot sink 0) = []" "\<And>q. q \<noteq> slot sink 0 \<Longrightarrow> bt_get fs4 q = bt_get fs3 q"
    using create_faultless [OF wf3 assms(2)] by auto
  have "bt_get fs4 (slot sink (Suc i)) = bt_get fs (slot sink i)" if "i < as_archives sink" for i
    using that get1 get2 get3 get4(2) False by (cases "i = 0") (auto simp: slot_inject [OF path])
  then have "\<forall>i<as_archives sink. data_at fs4 (slot sink (Suc i)) = data_at fs (slot sink i)"
    by (simp add: data_at_def)
  moreover have "rotate_if_needed env sink fs incoming = (fs4, Ok ())"
    using False fs1 fs2 fs3 fs4 by (simp add: rotate_slots line_fits_def)
  ultimately show ?thesis using False get4(1) by simp
qed

subsection \<open>The log as a whole\<close>

lemma audit_log_split:
  "audit_log sink fs =
     concat (map (\<lambda>i. data_at fs (slot sink (Suc i))) (rev [0..<as_archives sink])) @ data_at fs (slot sink 0)"
proof -
  have "[0..<Suc n] = 0 # map Suc [0..<n]" for n
    by (simp add: map_Suc_upt upt_conv_Cons)
  then show ?thesis by (simp add: audit_log_def rev_map comp_def del: upt_Suc)
qed

lemma audit_log_oldest:
  "audit_log sink fs = data_at fs (slot sink (as_archives sink)) @
     concat (map (\<lambda>i. data_at fs (slot sink i)) (rev [0..<as_archives sink]))"
  by (simp add: audit_log_def)

lemma append_line_faultless:
  assumes "sink_wf sink fs" and "faultless env"
  shows "\<exists>fs' dropped rest. append_line env sink fs line = (fs', Ok ()) \<and>
     audit_log sink fs = dropped @ rest \<and> audit_log sink fs' = rest @ line \<and>
     dropped = (if line_fits env sink fs (length line) then []
       else data_at fs (slot sink (as_archives sink)))"
proof -
  have path: "as_path sink \<noteq> []" using assms(1) by (rule sink_wf_path)
  obtain fs1 where fs1: "rotate_if_needed env sink fs (length line) = (fs1, Ok ())"
    and rot: "if line_fits env sink fs (length line) then fs1 = fs
      else data_at fs1 (slot sink 0) = [] \<and>
        (\<forall>i<as_archives sink. data_at fs1 (slot sink (Suc i)) = data_at fs (slot sink i))"
    using rotate_faultless [OF assms] by blast
  have wf1: "sink_wf sink fs1" using rotate_wf [OF assms(1), of env "length line"] fs1 by simp
  have par: "parent_exists fs1 (slot sink 0)" using wf1 by (simp add: sink_wf_def slot_0)
  obtain fs2 where fs2: "fs_open_append env fs1 (slot sink 0) = (fs2, Ok (slot sink 0))"
    and there: "bt_get fs2 (slot sink 0) \<noteq> None"
    and same: "\<And>q. data_at fs2 q = data_at fs1 q"
    using assms(2) par sink_wf_file [OF wf1, of 0]
    by (cases "bt_get fs1 (slot sink 0)")
      (auto simp: fs_open_append_def slot_resolve [OF wf1] btree_simps data_at_def new_file_def)
  let ?fs3 = "append_data fs2 (slot sink 0) line"
  have "append_line env sink fs line = (?fs3, Ok ())"
    using fs1 fs2 assms(2)
    by (simp add: append_line_def slot_0 [symmetric] fs_write_all_def fs_flush_def)
  moreover have "data_at ?fs3 q = data_at fs1 q @ (if q = slot sink 0 then line else [])" for q
    using there same [of q] by (auto simp: data_at_def btree_simps split: option.splits)
  then have "audit_log sink ?fs3 = audit_log sink fs1 @ line"
    by (simp add: audit_log_split slot_inject [OF path])
  moreover have "audit_log sink fs1 = (if line_fits env sink fs (length line) then audit_log sink fs
      else concat (map (\<lambda>i. data_at fs (slot sink i)) (rev [0..<as_archives sink])))"
    using rot by (cases "line_fits env sink fs (length line)")
      (auto simp: audit_log_split intro!: arg_cong [where f = concat])
  ultimately show ?thesis
    using audit_log_oldest [of sink fs] by (cases "line_fits env sink fs (length line)") auto
qed

end
