(* ===== verification/Privd.thy ===== *)
theory Privd
  imports Policy_Properties Policy_Reload Audit_Sink
begin

section \<open>The privilege daemon\<close>

text \<open>
  \<^verbatim>\<open>portus-privd/src/core.rs\<close>: the two entry points of the root-owned daemon, the use of a privileged
  operation and the administration of the policy. The typed decoders and encoders of
  \<open>serde_json\<close>, the executor of operations, the repository and the audit sink are the record
  \<open>PrivdPorts\<close>; the last three act on states of their own (\<open>'w\<close>, \<open>'r\<close>, \<open>'k\<close>),
  which the core carries. Each call takes the clock reading its one audit record uses.

  The interfaces the core relies on are the locales \<open>audit_port\<close> and \<open>subject_repository\<close>,
  interpreted on the sinks of \<open>Audit_Sink\<close> and on the file repository of \<open>Policy_Store\<close>.
\<close>

subsection \<open>Requests, ports and state\<close>

record PrivilegedOperationRequest =
  po_action :: string
  po_resource :: "string option"

record PrivilegedOperationResult =
  pr_action :: string
  pr_resource :: "string option"
  pr_safe_summary :: string

datatype PrivilegeError = PrivPolicy PolicyError | ExecutorUnavailable | ExecutionFailed

record AdminShowParams =
  as_uid :: u32

record AdminGrantParams =
  ag_uid :: u32
  ag_action :: string
  ag_effect :: PolicyEffect
  ag_resource :: "string option"
  ag_ack_root_equivalent :: bool

record AdminRevokeParams =
  av_uid :: u32
  av_action :: string
  av_resource :: "string option"

record AdminBundleParams =
  ab_uid :: u32
  ab_bundle :: string
  ab_enabled :: bool

record ('w, 'r, 'k) PrivdPorts =
  from_operation :: "json \<Rightarrow> PrivilegedOperationRequest option"
  from_show :: "json \<Rightarrow> AdminShowParams option"
  from_grant :: "json \<Rightarrow> AdminGrantParams option"
  from_revoke :: "json \<Rightarrow> AdminRevokeParams option"
  from_bundle :: "json \<Rightarrow> AdminBundleParams option"
  result_to_value :: "PrivilegedOperationResult \<Rightarrow> json option"
  view_to_value :: "SubjectPolicyView \<Rightarrow> json option"
  port_execute :: "'w \<Rightarrow> Principal \<Rightarrow> PrivilegedOperationRequest \<Rightarrow> 'w \<times> (PrivilegeError + PrivilegedOperationResult)"
  port_commit :: "'r \<Rightarrow> SubjectPolicy \<Rightarrow> 'r \<times> (PolicyError + unit)"
  port_record :: "'k \<Rightarrow> AuditRecord \<Rightarrow> 'k \<times> (AuditError + unit)"

record ('w, 'r, 'k) PrivilegeCore =
  pv_policy :: PolicySnapshot
  pv_poisoned :: bool
  pv_world :: 'w
  pv_repository :: 'r
  pv_audit :: 'k
  pv_audit_failures :: u64

definition unavailable_execute ::
  "'w \<Rightarrow> Principal \<Rightarrow> PrivilegedOperationRequest \<Rightarrow> 'w \<times> (PrivilegeError + PrivilegedOperationResult)" where
  "unavailable_execute w p rq = (w, Err ExecutorUnavailable)"

definition new_with_audit :: "PolicySnapshot \<Rightarrow> 'r \<Rightarrow> 'w \<Rightarrow> 'k \<Rightarrow> ('w, 'r, 'k) PrivilegeCore" where
  "new_with_audit snapshot repository executor audit =
     \<lparr>pv_policy = snapshot, pv_poisoned = False, pv_world = executor, pv_repository = repository,
      pv_audit = audit, pv_audit_failures = 0\<rparr>"

subsection \<open>Errors and responses\<close>

definition parse_params :: "(json \<Rightarrow> 'a option) \<Rightarrow> json \<Rightarrow> SemanticError + 'a" where
  "parse_params decode params =
     ok_or (decode params) (semantic_error_new CodeInvalidRequest
       ''request parameters do not match the expected typed schema'')"

definition policy_semantic :: "PolicyError \<Rightarrow> SemanticError" where
  "policy_semantic e = semantic_error_new CodeInvalidRequest ''policy action or mutation is invalid''"

fun executor_semantic :: "PrivilegeError \<Rightarrow> SemanticError" where
  "executor_semantic ExecutorUnavailable =
     semantic_error_new CodeUnavailable ''privileged operation adapter is unavailable''"
| "executor_semantic _ = semantic_error_new CodeInternal ''privileged operation failed''"

definition internal_error :: SemanticError where
  "internal_error = semantic_error_new CodeInternal ''privilege service internal state is unavailable''"

definition to_response :: "RequestId \<Rightarrow> SemanticError + json \<Rightarrow> json ResponseEnvelope" where
  "to_response i r = (case r of Inr v \<Rightarrow> response_success i v | Inl e \<Rightarrow> response_failure i e)"

definition protocol_failure :: "RequestId \<Rightarrow> SemanticErrorCode \<Rightarrow> string \<Rightarrow> json ResponseEnvelope" where
  "protocol_failure i code message = response_failure i (semantic_error_new code message)"

fun audit_outcome :: "SemanticError + json \<Rightarrow> AuditResult" where
  "audit_outcome (Inr _) = AuditSucceeded"
| "audit_outcome (Inl e) =
     (case se_code e of
        CodePermissionDenied \<Rightarrow> AuditDenied
      | CodeApprovalRequired \<Rightarrow> AuditApprovalRequired
      | CodeCancelled \<Rightarrow> AuditCancelled
      | CodeInterrupted \<Rightarrow> AuditInterrupted
      | _ \<Rightarrow> AuditFailed)"

definition admin_target :: "json \<Rightarrow> string option" where
  "admin_target params =
     map_option (\<lambda>u. ''uid:'' @ show_word u) (Option.bind (json_get params ''uid'') json_as_u64)"

definition lock_policy :: "('w, 'r, 'k) PrivilegeCore \<Rightarrow> SemanticError + PolicySnapshot" where
  "lock_policy st = (if pv_poisoned st then Err internal_error else Ok (pv_policy st))"

subsection \<open>Auditing\<close>

definition record_audit ::
  "('w, 'r, 'k) PrivdPorts \<Rightarrow> ('w, 'r, 'k) PrivilegeCore \<Rightarrow> AuditRecord \<Rightarrow> ('w, 'r, 'k) PrivilegeCore" where
  "record_audit ports st r =
     (case port_record ports (pv_audit st) r of
        (k, Inr _) \<Rightarrow> st\<lparr>pv_audit := k\<rparr>
      | (k, Inl _) \<Rightarrow> st\<lparr>pv_audit := k, pv_audit_failures := pv_audit_failures st + 1\<rparr>)"

definition use_record ::
  "int \<Rightarrow> Principal \<Rightarrow> RequestId \<Rightarrow> PrivilegedOperationRequest \<Rightarrow> string \<Rightarrow> SemanticError + json \<Rightarrow> AuditRecord" where
  "use_record now p i rq reason res =
     (audit_record_new (audit_actor_principal p) DomainPrivilege (po_action rq) (audit_outcome res)
        (case res of Inl e \<Rightarrow> semantic_error_code_as_str (se_code e) | Inr _ \<Rightarrow> reason) now)
     \<lparr>ar_target_ref := (case po_resource rq of
          Some r \<Rightarrow> Some (po_action rq @ '':'' @ r)
        | None \<Rightarrow> Some (po_action rq)),
      ar_request_id := Some i\<rparr>"

definition audit_use ::
  "('w, 'r, 'k) PrivdPorts \<Rightarrow> int \<Rightarrow> ('w, 'r, 'k) PrivilegeCore \<Rightarrow> Principal \<Rightarrow> RequestId
    \<Rightarrow> PrivilegedOperationRequest \<Rightarrow> string \<Rightarrow> SemanticError + json \<Rightarrow> ('w, 'r, 'k) PrivilegeCore" where
  "audit_use ports now st p i rq reason res = record_audit ports st (use_record now p i rq reason res)"

definition admin_record ::
  "int \<Rightarrow> Principal \<Rightarrow> RequestId \<Rightarrow> string \<Rightarrow> string option \<Rightarrow> bool \<Rightarrow> SemanticError + json \<Rightarrow> AuditRecord" where
  "admin_record now p i meth target root_equivalent_change res =
     (audit_record_new (audit_actor_principal p) DomainPolicy meth (audit_outcome res)
        (case res of
           Inl e \<Rightarrow> semantic_error_code_as_str (se_code e)
         | Inr _ \<Rightarrow> if root_equivalent_change then ''root_equivalent_policy_change'' else ''ok'') now)
     \<lparr>ar_target_ref := target, ar_request_id := Some i\<rparr>"

definition audit_admin ::
  "('w, 'r, 'k) PrivdPorts \<Rightarrow> int \<Rightarrow> ('w, 'r, 'k) PrivilegeCore \<Rightarrow> Principal \<Rightarrow> RequestId \<Rightarrow> string
    \<Rightarrow> string option \<Rightarrow> bool \<Rightarrow> SemanticError + json \<Rightarrow> ('w, 'r, 'k) PrivilegeCore" where
  "audit_admin ports now st p i meth target root_equivalent_change res =
     record_audit ports st (admin_record now p i meth target root_equivalent_change res)"

subsection \<open>Using a privileged operation\<close>

definition run_allowed ::
  "('w, 'r, 'k) PrivdPorts \<Rightarrow> ('w, 'r, 'k) PrivilegeCore \<Rightarrow> Principal \<Rightarrow> PrivilegedOperationRequest
    \<Rightarrow> ('w, 'r, 'k) PrivilegeCore \<times> (SemanticError + json)" where
  "run_allowed ports st p rq =
     (case port_execute ports (pv_world st) p rq of
        (w, r) \<Rightarrow> (st\<lparr>pv_world := w\<rparr>,
          and_then (map_err executor_semantic r) (\<lambda>v. ok_or (result_to_value ports v) internal_error)))"

definition decide_operation ::
  "('w, 'r, 'k) PrivilegeCore \<Rightarrow> Principal \<Rightarrow> PrivilegedOperationRequest \<Rightarrow> SemanticError + PolicyDecision" where
  "decide_operation st p rq =
     and_then (lock_policy st) (\<lambda>policy.
     and_then (map_err policy_semantic (evaluate policy p
       \<lparr>pc_action = po_action rq, pc_resource = po_resource rq\<rparr>)) (\<lambda>decision.
     if pd_enforcement_class decision \<noteq> PrivilegedTypedOperation
     then Err (semantic_error_new CodeUnsupported ''action is not an executable privileged typed operation'')
     else Ok decision))"

definition execute ::
  "('w, 'r, 'k) PrivdPorts \<Rightarrow> int \<Rightarrow> ('w, 'r, 'k) PrivilegeCore \<Rightarrow> Principal \<Rightarrow> RequestId \<Rightarrow> json
    \<Rightarrow> ('w, 'r, 'k) PrivilegeCore \<times> (SemanticError + json)" where
  "execute ports now st p i params =
     (case and_then (parse_params (from_operation ports) params) (\<lambda>rq.
        and_then (decide_operation st p rq) (\<lambda>d. Ok (rq, d))) of
        Inl e \<Rightarrow> (st, Err e)
      | Inr (rq, decision) \<Rightarrow>
          (case (case pd_effect decision of
              Reject \<Rightarrow> (st, Err (semantic_error_new CodePermissionDenied
                ''administrator policy rejects this privileged operation''))
            | Prompt \<Rightarrow> (st, Err (semantic_error_new CodeApprovalRequired
                ''administrator approval is required; no privileged mutation was performed''))
            | Allow \<Rightarrow> run_allowed ports st p rq) of
             (st', res) \<Rightarrow> (audit_use ports now st' p i rq (pd_reason_code decision) res, res)))"

definition dispatch_use ::
  "('w, 'r, 'k) PrivdPorts \<Rightarrow> int \<Rightarrow> ('w, 'r, 'k) PrivilegeCore \<Rightarrow> Principal \<Rightarrow> json RequestEnvelope
    \<Rightarrow> ('w, 'r, 'k) PrivilegeCore \<times> json ResponseEnvelope" where
  "dispatch_use ports now st p rq =
     (case request_validate rq of
        Inl e \<Rightarrow> (st, protocol_failure (rq_request_id rq) (protocol_error_semantic_code e)
                   (protocol_error_to_string e))
      | Inr _ \<Rightarrow>
          (case (if rq_method rq = ''privilege.execute''
                 then execute ports now st p (rq_request_id rq) (rq_params rq)
                 else (st, Err (semantic_error_new CodeUnsupported
                   ''privileged use method is not implemented''))) of
             (st', res) \<Rightarrow> (st', to_response (rq_request_id rq) res)))"

subsection \<open>Administering the policy\<close>

definition admin_show ::
  "('w, 'r, 'k) PrivdPorts \<Rightarrow> ('w, 'r, 'k) PrivilegeCore \<Rightarrow> json \<Rightarrow> SemanticError + json" where
  "admin_show ports st params =
     and_then (parse_params (from_show ports) params) (\<lambda>ps.
     and_then (lock_policy st) (\<lambda>policy.
     and_then (map_err policy_semantic (subject_view policy (as_uid ps))) (\<lambda>view.
     ok_or (view_to_value ports view) internal_error)))"

definition candidate_subject ::
  "('w, 'r, 'k) PrivilegeCore \<Rightarrow> u32 \<Rightarrow> AdminMutation \<Rightarrow> SemanticError + SubjectPolicy" where
  "candidate_subject st u mu =
     and_then (lock_policy st) (\<lambda>policy.
       (case apply_admin_mutation policy (snapshot_subject policy u) mu of
          (candidate, r) \<Rightarrow> and_then (map_err policy_semantic r) (\<lambda>_. Ok candidate)))"

definition mutate_subject ::
  "('w, 'r, 'k) PrivdPorts \<Rightarrow> ('w, 'r, 'k) PrivilegeCore \<Rightarrow> u32 \<Rightarrow> AdminMutation
    \<Rightarrow> ('w, 'r, 'k) PrivilegeCore \<times> (SemanticError + json)" where
  "mutate_subject ports st u mu =
     (case candidate_subject st u mu of
        Inl e \<Rightarrow> (st, Err e)
      | Inr candidate \<Rightarrow>
          (case port_commit ports (pv_repository st) candidate of
             (r', Inl _) \<Rightarrow> (st\<lparr>pv_repository := r'\<rparr>, Err (semantic_error_new CodeUnavailable
               ''administrator policy update could not be committed''))
           | (r', Inr _) \<Rightarrow>
               (case replace_subject (pv_policy st) candidate of
                  Inl e \<Rightarrow> (st\<lparr>pv_repository := r'\<rparr>, Err (policy_semantic e))
                | Inr policy' \<Rightarrow>
                    (st\<lparr>pv_repository := r', pv_policy := policy'\<rparr>,
                     and_then (map_err policy_semantic (subject_view policy' u)) (\<lambda>view.
                       ok_or (view_to_value ports view) internal_error)))))"

definition admin_mutation ::
  "('w, 'r, 'k) PrivdPorts \<Rightarrow> string \<Rightarrow> json \<Rightarrow> (SemanticError + (u32 \<times> AdminMutation)) option" where
  "admin_mutation ports meth params =
     (if meth = ''policy.admin.grant'' then
        Some (and_then (parse_params (from_grant ports) params) (\<lambda>g.
          Ok (ag_uid g, Grant (ag_action g) (ag_effect g) (ag_resource g) (ag_ack_root_equivalent g))))
      else if meth = ''policy.admin.revoke'' then
        Some (and_then (parse_params (from_revoke ports) params) (\<lambda>v.
          Ok (av_uid v, Revoke (av_action v) (av_resource v))))
      else if meth = ''policy.admin.bundle.set'' then
        Some (and_then (parse_params (from_bundle ports) params) (\<lambda>b.
          Ok (ab_uid b, BundleSet (ab_bundle b) (ab_enabled b))))
      else None)"

definition admin_root_equivalent_change :: "('w, 'r, 'k) PrivilegeCore \<Rightarrow> string \<Rightarrow> json \<Rightarrow> bool" where
  "admin_root_equivalent_change st meth params =
     (case Option.bind (json_get params ''action'') json_as_str of
        None \<Rightarrow> False
      | Some action \<Rightarrow>
          (case lock_policy st of
             Inl _ \<Rightarrow> False
           | Inr policy \<Rightarrow>
               (case snapshot_action policy action of
                  None \<Rightarrow> False
                | Some d \<Rightarrow>
                    if \<not> ad_root_equivalent d then False
                    else if meth = ''policy.admin.grant'' then
                      (case Option.bind (json_get params ''effect'') json_as_str of
                         None \<Rightarrow> False | Some eff \<Rightarrow> eff \<noteq> ''reject'')
                    else meth = ''policy.admin.revoke'')))"

definition admin_result ::
  "('w, 'r, 'k) PrivdPorts \<Rightarrow> ('w, 'r, 'k) PrivilegeCore \<Rightarrow> string \<Rightarrow> json
    \<Rightarrow> ('w, 'r, 'k) PrivilegeCore \<times> (SemanticError + json)" where
  "admin_result ports st meth params =
     (if meth = ''policy.admin.show'' then (st, admin_show ports st params)
      else case admin_mutation ports meth params of
        None \<Rightarrow> (st, Err (semantic_error_new CodeUnsupported ''policy admin method is not implemented''))
      | Some (Inl e) \<Rightarrow> (st, Err e)
      | Some (Inr (u, mu)) \<Rightarrow> mutate_subject ports st u mu)"

definition admin_denied :: SemanticError where
  "admin_denied =
     semantic_error_new CodePermissionDenied ''policy administration requires authenticated UID 0''"

definition dispatch_admin ::
  "('w, 'r, 'k) PrivdPorts \<Rightarrow> int \<Rightarrow> ('w, 'r, 'k) PrivilegeCore \<Rightarrow> Principal \<Rightarrow> json RequestEnvelope
    \<Rightarrow> ('w, 'r, 'k) PrivilegeCore \<times> json ResponseEnvelope" where
  "dispatch_admin ports now st p rq =
     (case request_validate rq of
        Inl e \<Rightarrow> (st, protocol_failure (rq_request_id rq) (protocol_error_semantic_code e)
                   (protocol_error_to_string e))
      | Inr _ \<Rightarrow>
          if uid p \<noteq> 0 then
            (audit_admin ports now st p (rq_request_id rq) (rq_method rq) None False (Err admin_denied),
             response_failure (rq_request_id rq) admin_denied)
          else
            let target = admin_target (rq_params rq);
                change = admin_root_equivalent_change st (rq_method rq) (rq_params rq)
            in (case admin_result ports st (rq_method rq) (rq_params rq) of
                  (st', res) \<Rightarrow>
                    (audit_admin ports now st' p (rq_request_id rq) (rq_method rq) target change res,
                     to_response (rq_request_id rq) res)))"

end
