(* ===== verification/Policy_Store_Properties.thy ===== *)
theory Policy_Store_Properties
  imports Policy_Reload Policy_Properties
begin

unbundle bit_operations_syntax

section \<open>Properties of the policy store\<close>

text \<open>
  What loading trusts, what a commit does to the files whatever fails, and when the durable policy
  agrees with the one in memory. The witnesses use a small policy tree (\<open>demo_store\<close>).
\<close>

subsection \<open>A concrete policy tree\<close>

definition demo_paths :: PolicyPaths where
  "demo_paths = \<lparr>pp_policy_path = [''/'', ''e'', ''p.toml''], pp_subjects_dir = [''/'', ''e'', ''s''],
     pp_actions_path = [''/'', ''u'', ''a.toml''], pp_bundles_dir = [''/'', ''u'', ''b'']\<rparr>"

definition demo_file :: "string \<Rightarrow> Inode" where
  "demo_file d = \<lparr>in_kind = RegularFile, in_uid = 0, in_mode = 0x1A4, in_data = d\<rparr>"

definition demo_store :: Files where
  "demo_store =
     [([''/'', ''e''], demo_dir), ([''/'', ''e'', ''p.toml''], demo_file ''G''),
      ([''/'', ''e'', ''s''], demo_dir), ([''/'', ''e'', ''s'', ''1000.toml''], demo_file ''S''),
      ([''/'', ''u''], demo_dir), ([''/'', ''u'', ''a.toml''], demo_file ''A''),
      ([''/'', ''u'', ''b''], demo_dir), ([''/'', ''u'', ''b'', ''o.toml''], demo_file ''O''),
      ([''/'', ''u'', ''b'', ''t.toml''], demo_file ''T'')]"

definition demo_new_subject :: SubjectPolicy where
  "demo_new_subject = (subject_empty 7)\<lparr>sp_grants := [demo_grant ''svc'' Allow [''nginx'']]\<rparr>"

definition demo_codec :: PolicyCodec where
  "demo_codec =
     \<lparr>parse_global = (\<lambda>t. if t = ''G'' then Some demo_global else None),
      parse_registry = (\<lambda>t. if t = ''A'' then Some demo_registry else None),
      parse_bundle = (\<lambda>t. if t = ''O'' then Some demo_ops else if t = ''T'' then Some demo_strict else None),
      parse_subject = (\<lambda>t. if t = ''S'' then Some demo_subject else if t = ''N'' then Some demo_new_subject else None),
      print_subject = (\<lambda>s. if sp_uid s = 1000 then Some ''S'' else if sp_uid s = 7 then Some ''N'' else None)\<rparr>"

lemma demo_store_sorted: "bt_sorted demo_store"
  by (simp add: demo_store_def bt_sorted_def)

lemma demo_layout: "store_layout demo_paths"
  by (simp add: store_layout_def demo_paths_def path_parent_def)

lemma demo_docs:
  "docs demo_store [''/'', ''e'', ''s''] = [[''/'', ''e'', ''s'', ''1000.toml'']]"
  "docs demo_store [''/'', ''u'', ''b''] =
     [[''/'', ''u'', ''b'', ''o.toml''], [''/'', ''u'', ''b'', ''t.toml'']]"
  by (simp_all add: docs_def children_def demo_store_def path_parent_def toml_document_def
      path_extension_def path_file_name_def name_extension_def Let_def)

lemma demo_trusted:
  "trusted_at demo_store is_dir [''/'', ''e'']" "trusted_at demo_store is_dir [''/'', ''u'']"
  "trusted_at demo_store is_dir [''/'', ''e'', ''s'']" "trusted_at demo_store is_dir [''/'', ''u'', ''b'']"
  "trusted_at demo_store is_file [''/'', ''e'', ''p.toml'']"
  "trusted_at demo_store is_file [''/'', ''u'', ''a.toml'']"
  "trusted_at demo_store is_file [''/'', ''e'', ''s'', ''1000.toml'']"
  "trusted_at demo_store is_file [''/'', ''u'', ''b'', ''o.toml'']"
  "trusted_at demo_store is_file [''/'', ''u'', ''b'', ''t.toml'']"
  by (simp_all add: trusted_at_def demo_store_def bt_get_def untrusted_def demo_dir_def demo_file_def
      is_symlink_def is_dir_def is_file_def)

lemma demo_trust_ok: "trust_ok demo_store demo_paths"
  by (simp add: trust_ok_def demo_paths_def demo_docs demo_trusted path_parent_def policy_limits)

lemma demo_parse_file:
  assumes "bt_get demo_store p = Some (demo_file d)" and "length d \<le> 1" and "parse d = Some x"
  shows "parse_file demo_env demo_store parse p = Ok x"
proof -
  have "resolve_path demo_store p = Ok p"
    using assms(1) by (rule resolve_not_symlink) (simp add: demo_file_def is_symlink_def)
  with assms show ?thesis
    by (simp add: parse_file_def fs_stat_def fs_read_to_string_def demo_env_def demo_file_def is_file_def
        MAX_POLICY_FILE_BYTES_def)
qed

lemma demo_documents:
  "parse_file demo_env demo_store (parse_global demo_codec) [''/'', ''e'', ''p.toml''] = Ok demo_global"
  "parse_file demo_env demo_store (parse_registry demo_codec) [''/'', ''u'', ''a.toml''] = Ok demo_registry"
  "parse_file demo_env demo_store (parse_bundle demo_codec) [''/'', ''u'', ''b'', ''o.toml''] = Ok demo_ops"
  "parse_file demo_env demo_store (parse_bundle demo_codec) [''/'', ''u'', ''b'', ''t.toml''] = Ok demo_strict"
  "parse_file demo_env demo_store (parse_subject demo_codec) [''/'', ''e'', ''s'', ''1000.toml''] = Ok demo_subject"
  by (rule demo_parse_file [where d = "''G''"] demo_parse_file [where d = "''A''"] demo_parse_file [where d = "''O''"]
      demo_parse_file [where d = "''T''"] demo_parse_file [where d = "''S''"];
      simp add: demo_store_def bt_get_def demo_codec_def; fail)+

lemma demo_names: "subject_file_name 1000 = ''1000.toml''" "subject_file_name 7 = ''7.toml''"
  by code_simp+

lemma demo_load: "policy_load demo_env demo_codec demo_store demo_paths RootOwnedSystem = Ok demo_snapshot"
proof -
  have "load_subject demo_env demo_codec demo_store [''/'', ''e'', ''s'', ''1000.toml''] = Ok demo_subject"
    by (simp add: load_subject_def demo_documents path_file_name_def demo_names demo_subject_def)
  then show ?thesis
    unfolding policy_load_iff [OF demo_store_sorted demo_faultless]
    using demo_from_documents
    by (intro conjI demo_trust_ok exI [of _ demo_global] exI [of _ demo_registry]
        exI [of _ "[demo_ops, demo_strict]"] exI [of _ "[demo_subject]"])
      (simp_all add: demo_paths_def demo_docs policy_limits demo_documents)
qed

subsection \<open>Loading trusts only root-owned material\<close>

text \<open>C16. A policy loaded from a root-owned system rests only on material no other user can write: the two
  parent directories, the subject and bundle directories, the policy and action files and every TOML
  document of the two directories are no symbolic links, belong to uid 0 and are not writable by
  group or others; and the snapshot satisfies the validation invariant.\<close>

theorem load_only_trusted:
  assumes "policy_load env cd fs paths RootOwnedSystem = Ok ps"
  shows "snapshot_wf ps \<and>
     (\<exists>d. path_parent (pp_policy_path paths) = Some d \<and> trusted_at fs is_dir d) \<and>
     (\<exists>d. path_parent (pp_actions_path paths) = Some d \<and> trusted_at fs is_dir d) \<and>
     trusted_at fs is_dir (pp_subjects_dir paths) \<and> trusted_at fs is_dir (pp_bundles_dir paths) \<and>
     trusted_at fs is_file (pp_policy_path paths) \<and> trusted_at fs is_file (pp_actions_path paths) \<and>
     (\<forall>d\<in>{pp_subjects_dir paths, pp_bundles_dir paths}. \<forall>p\<in>set (children fs d).
        toml_document p \<longrightarrow> trusted_at fs is_file p)"
proof -
  have trust: "validate_trust env fs paths RootOwnedSystem = Ok ()"
    using assms by (auto simp: policy_load_def and_then_eq_Ok)
  show ?thesis
    using validate_trust_Ok [OF trust] load_wf [OF assms] by blast
qed

theorem load_only_trusted_witness:
  "trusted_at demo_store is_dir [''/'', ''e'', ''s''] \<and> snapshot_wf demo_snapshot"
  using load_only_trusted [OF demo_load] by (simp add: demo_paths_def)

subsection \<open>Committing\<close>

text \<open>C15. A commit is atomic whatever fails: after \<open>commit_subject\<close> the subject's file is either
  untouched (and the commit reported an error) or holds exactly the complete encoding of the new
  subject; no file but that one and the temporary one changes, and after success the temporary file is
  gone and the encoding decodes to a subject with the same uid and the same encoding.\<close>

theorem commit_atomic:
  assumes "commit_subject env cd paths pid st s = (st', r)"
  shows "(bt_get (rp_files st') (subject_path paths (sp_uid s)) = bt_get (rp_files st) (subject_path paths (sp_uid s))
       \<and> (\<exists>e. r = Err e) \<or>
      (\<exists>encoded. print_subject cd s = Some encoded \<and>
         bt_get (rp_files st') (subject_path paths (sp_uid s)) = Some (committed_file env encoded) \<and>
         (r = Ok () \<longrightarrow>
            bt_get (rp_files st') (temp_path paths pid (rp_next st) (sp_uid s)) = None \<and>
            (\<exists>d. parse_subject cd encoded = Some d \<and> sp_uid d = sp_uid s \<and> print_subject cd d = Some encoded)))) \<and>
     (\<forall>q. q \<noteq> subject_path paths (sp_uid s) \<and> q \<noteq> temp_path paths pid (rp_next st) (sp_uid s) \<longrightarrow>
        bt_get (rp_files st') q = bt_get (rp_files st) q)"
  using commit_subject_cases [OF assms] by blast

definition demo_repo :: RepoState where
  "demo_repo = \<lparr>rp_files = demo_store, rp_next = 1\<rparr>"

definition demo_committed :: RepoState where
  "demo_committed = fst (commit_subject demo_env demo_codec demo_paths 42 demo_repo demo_new_subject)"

lemma demo_commit:
  "commit_subject demo_env demo_codec demo_paths 42 demo_repo demo_new_subject = (demo_committed, Ok ())"
proof -
  have "snd (commit_subject demo_env demo_codec demo_paths 42 demo_repo demo_new_subject) = Ok ()"
    by code_simp
  then show ?thesis unfolding demo_committed_def by (metis prod.collapse)
qed

theorem commit_atomic_witness:
  "bt_get (rp_files demo_committed) [''/'', ''e'', ''s'', ''1000.toml''] = Some (demo_file ''S'')"
proof -
  have "[''/'', ''e'', ''s'', ''1000.toml''] \<noteq> subject_path demo_paths (sp_uid demo_new_subject) \<and>
     [''/'', ''e'', ''s'', ''1000.toml''] \<noteq>
       temp_path demo_paths 42 (rp_next demo_repo) (sp_uid demo_new_subject)"
    by code_simp
  with commit_atomic [OF demo_commit] show ?thesis
    by (simp add: demo_repo_def demo_store_def bt_get_def)
qed

subsection \<open>The durable policy and the one in memory\<close>

lemma load_subject_size:
  assumes "is_ok (load_subject env cd fs p)" and "bt_get fs p = Some (committed_file env enc)"
  shows "length enc \<le> MAX_POLICY_FILE_BYTES"
proof -
  have "resolve_path fs p = Ok p"
    using assms(2) by (rule resolve_not_symlink) (simp add: committed_file_def new_file_def is_symlink_def)
  with assms show ?thesis
    by (auto simp: is_ok_iff load_subject_def parse_file_def fs_stat_def result_simps committed_file_def
        new_file_def split: if_splits)
qed

text \<open>C3. The durable policy and the one in memory agree, up to two limits the commit does not check: after
  a successful commit of a valid subject, reloading gives exactly the snapshot that
  \<open>replace_subject\<close> puts in memory if the encoding is within the policy file limit and the
  directory still has at most \<open>MAX_SUBJECTS\<close> documents, and otherwise reloading fails.\<close>

theorem commit_then_reload:
  assumes "bt_sorted (rp_files st)" and "faultless env" and "io_euid env = 0" and "store_layout paths"
    and "policy_load env cd (rp_files st) paths RootOwnedSystem = Ok ps"
    and "snapshot_validate_subject ps s = Ok ()"
    and "commit_subject env cd paths pid st s = (st', Ok ())"
    and "print_subject cd s = Some encoded" and "parse_subject cd encoded = Some s"
  shows "if length encoded \<le> MAX_POLICY_FILE_BYTES \<and>
         (subject_path paths (sp_uid s) \<in> set (docs (rp_files st) (pp_subjects_dir paths)) \<or>
          length (docs (rp_files st) (pp_subjects_dir paths)) < MAX_SUBJECTS)
     then policy_load env cd (rp_files st') paths RootOwnedSystem = replace_subject ps s
     else \<not> is_ok (policy_load env cd (rp_files st') paths RootOwnedSystem)"
proof -
  let ?t = "subject_path paths (sp_uid s)" and ?D = "pp_subjects_dir paths"
  have ne: "?D \<noteq> []" using assms(4) by (simp add: store_layout_def)
  note doc = subject_path_document(3,2) [OF ne, of "sp_uid s"]
  have sorted': "bt_sorted (rp_files st')" using commit_sorted [OF assms(1)] assms(7) by (metis fst_conv)
  with commit_Ok_insert [OF assms(7,1)] assms(8)
  have fs': "rp_files st' = bt_insert ?t (committed_file env encoded) (rp_files st)" by auto
  show ?thesis
  proof (split if_split, intro conjI impI)
    assume "length encoded \<le> MAX_POLICY_FILE_BYTES \<and> (?t \<in> set (docs (rp_files st) ?D) \<or>
        length (docs (rp_files st) ?D) < MAX_SUBJECTS)"
    then show "policy_load env cd (rp_files st') paths RootOwnedSystem = replace_subject ps s"
      unfolding fs' using assms committed_trusted [OF assms(3)] by (intro reload_documents) auto
  next
    assume over: "\<not> (length encoded \<le> MAX_POLICY_FILE_BYTES \<and> (?t \<in> set (docs (rp_files st) ?D) \<or>
        length (docs (rp_files st) ?D) < MAX_SUBJECTS))"
    show "\<not> is_ok (policy_load env cd (rp_files st') paths RootOwnedSystem)"
    proof
      assume "is_ok (policy_load env cd (rp_files st') paths RootOwnedSystem)"
      then have few: "length (docs (rp_files st') ?D) \<le> MAX_SUBJECTS"
        and loads: "\<forall>p\<in>set (docs (rp_files st') ?D). is_ok (load_subject env cd (rp_files st') p)"
        by (auto simp: is_ok_iff policy_load_iff [OF sorted' assms(2)] trust_ok_def try_map_projr)
      from few over have "MAX_POLICY_FILE_BYTES < length encoded"
        unfolding fs' by (auto simp: length_docs_insert [OF assms(1) doc])
      moreover have "length encoded \<le> MAX_POLICY_FILE_BYTES"
        using loads set_docs_insert [OF assms(1) doc]
        by (intro load_subject_size [of env cd "rp_files st'" ?t]) (auto simp: fs' btree_simps)
      ultimately show False by simp
    qed
  qed
qed

theorem commit_then_reload_witness:
  "policy_load demo_env demo_codec (rp_files demo_committed) demo_paths RootOwnedSystem =
     replace_subject demo_snapshot demo_new_subject"
proof -
  have "snapshot_validate_subject demo_snapshot demo_new_subject = Ok ()"
    and "print_subject demo_codec demo_new_subject = Some ''N''"
    and "parse_subject demo_codec ''N'' = Some demo_new_subject"
    by code_simp+
  moreover have "rp_files demo_repo = demo_store" "pp_subjects_dir demo_paths = [''/'', ''e'', ''s'']"
    "io_euid demo_env = 0"
    by (simp_all add: demo_repo_def demo_paths_def demo_env_def)
  ultimately show ?thesis
    using commit_then_reload [of demo_repo demo_env demo_paths demo_codec demo_snapshot demo_new_subject 42
        demo_committed "''N''"]
    by (simp add: demo_commit demo_load demo_store_sorted demo_faultless demo_layout demo_docs
        MAX_POLICY_FILE_BYTES_def MAX_SUBJECTS_def)
qed

end
