(* ===== verification/Audit_Properties.thy ===== *)
theory Audit_Properties
  imports Audit_Sink
begin

section \<open>Properties of the audit sink\<close>

text \<open>
  What the audit log promises: it stays within its size budget whatever calls fail, it keeps every
  record in order apart from the oldest file, and nothing that looks like a secret reaches it.
\<close>

definition demo_sink :: FileAuditSink where
  "demo_sink = \<lparr>as_path = [''/'', ''log'', ''a''], as_max_file_bytes = 4096, as_archives = 2\<rparr>"

definition demo_log_fs :: Files where
  "demo_log_fs = [([''/'', ''log''], demo_dir)]"

definition demo_record :: AuditRecord where
  "demo_record = audit_record_new audit_actor_system DomainRuntime ''start'' AuditSucceeded ''ok'' 0"

definition demo_to_vec :: "AuditRecord \<Rightarrow> string option" where
  "demo_to_vec r = Some (ar_action r)"

lemma demo_sink_wf: "sink_wf demo_sink demo_log_fs"
  by (auto simp: sink_wf_def demo_sink_def demo_log_fs_def parent_exists_def path_parent_def bt_get_def
      demo_dir_def is_dir_def MAX_AUDIT_RECORD_BYTES_def u64_max_def slot_def archive_path_def
      split: if_splits)

lemma demo_encode: "encode_line demo_to_vec demo_record = Ok (''start'' @ [CHR 0x0A])"
  by code_simp

definition sink_run ::
  "(AuditRecord \<Rightarrow> string option) \<Rightarrow> FileAuditSink \<Rightarrow> (IoEnv \<times> AuditRecord) list \<Rightarrow> Files \<Rightarrow> Files" where
  "sink_run to_vec sink calls fs =
     fold (\<lambda>(env, r) fs. fst (sink_record to_vec env sink fs r)) calls fs"

lemma sink_run_wf:
  assumes "sink_wf sink fs" and "\<forall>c\<in>set calls. \<forall>p. \<not> io_fails (fst c) (Stat p)"
  shows "sink_wf sink (sink_run to_vec sink calls fs)"
  using assms
proof (induction calls arbitrary: fs)
  case (Cons c calls)
  then show ?case by (cases c) (auto simp: sink_run_def intro: record_wf)
qed (simp add: sink_run_def)

lemma sink_wf_log_length:
  assumes "sink_wf sink fs"
  shows "length (audit_log sink fs) \<le> (as_archives sink + 1) * as_max_file_bytes sink"
proof -
  have len: "length (data_at fs (slot sink i)) \<le> as_max_file_bytes sink" if "i \<le> as_archives sink" for i
    using sink_wf_file [OF assms that] by (auto simp: data_at_def split: option.split)
  have "length (concat (map (\<lambda>i. data_at fs (slot sink i)) (rev [0..<n]))) \<le> n * as_max_file_bytes sink"
    if "n \<le> Suc (as_archives sink)" for n
    using that by (induction n) (use len in \<open>auto intro!: add_mono\<close>)
  from this [of "Suc (as_archives sink)"] show ?thesis
    by (simp add: audit_log_def)
qed

text \<open>C18. The audit log never outgrows its budget: over any sequence of \<open>record\<close> calls, whichever
  open, write, rename, remove, create or flush of each call fails (a failing write may leave part of
  a line), as long as the size of the current file can be read, every file of the sink stays within
  the configured limit and the whole log within one limit per archive and one for the current file.\<close>

theorem audit_log_bounded:
  assumes "sink_wf sink fs" and "\<forall>c\<in>set calls. \<forall>p. \<not> io_fails (fst c) (Stat p)"
    and "i \<le> as_archives sink"
  shows "length (data_at (sink_run to_vec sink calls fs) (slot sink i)) \<le> as_max_file_bytes sink \<and>
     length (audit_log sink (sink_run to_vec sink calls fs))
       \<le> (as_archives sink + 1) * as_max_file_bytes sink"
proof
  note wf = sink_run_wf [OF assms(1,2), of to_vec]
  show "length (data_at (sink_run to_vec sink calls fs) (slot sink i)) \<le> as_max_file_bytes sink"
    using sink_wf_file [OF wf assms(3)] by (auto simp: data_at_def split: option.split)
  show "length (audit_log sink (sink_run to_vec sink calls fs))
      \<le> (as_archives sink + 1) * as_max_file_bytes sink"
    using wf by (rule sink_wf_log_length)
qed

theorem audit_log_bounded_witness:
  "length (audit_log demo_sink (sink_run demo_to_vec demo_sink (replicate 1000 (demo_env, demo_record))
     demo_log_fs)) \<le> 3 * 4096"
  using audit_log_bounded [OF demo_sink_wf, of "replicate 1000 (demo_env, demo_record)" 0 demo_to_vec]
  by (simp add: demo_env_def) (simp add: demo_sink_def)

text \<open>C17. Nothing but the oldest file is ever lost: when no call fails, recording a valid record always
  succeeds, the log (archives from the oldest, then the current file) grows by exactly that record's
  line at its end, and it loses something at its beginning only when the line did not fit, and then
  exactly the content of the oldest file.\<close>

theorem audit_record_appends:
  assumes "sink_wf sink fs" and "faultless env" and "encode_line to_vec r = Ok line"
  shows "\<exists>fs' dropped rest. sink_record to_vec env sink fs r = (fs', Ok ()) \<and>
     audit_log sink fs = dropped @ rest \<and> audit_log sink fs' = rest @ line \<and>
     dropped = (if line_fits env sink fs (length line) then []
       else data_at fs (slot sink (as_archives sink)))"
  using append_line_faultless [OF assms(1,2), of line] assms(3) by (simp add: sink_record_def)

theorem audit_record_appends_witness:
  "\<exists>fs' dropped rest. sink_record demo_to_vec demo_env demo_sink demo_log_fs demo_record = (fs', Ok ()) \<and>
     audit_log demo_sink demo_log_fs = dropped @ rest \<and>
     audit_log demo_sink fs' = rest @ ''start'' @ [CHR 0x0A]"
  using audit_record_appends [OF demo_sink_wf demo_faultless demo_encode] by blast

text \<open>C19. Whatever a call writes comes from a safe record: if \<open>record\<close> changed any file, also on a
  failing call, then the record has the current schema and a consistent actor, and its action, reason
  and target are non-blank, bounded, on one line, and free of every secret marker in any letter case.\<close>

theorem audit_secret_safe:
  assumes "fst (sink_record to_vec env sink fs r) \<noteq> fs"
  shows "ar_schema_version r = AUDIT_SCHEMA_VERSION \<and> audit_actor_is_valid (ar_actor r) \<and>
     safe_text MAX_AUDIT_ACTION_BYTES (ar_action r) \<and>
     safe_text MAX_AUDIT_REASON_BYTES (ar_reason_code r) \<and>
     (\<forall>t. ar_target_ref r = Some t \<longrightarrow> safe_text MAX_AUDIT_TARGET_BYTES t)"
  using assms
  by (auto simp: sink_record_def encode_line_Ok validate_record_Ok split: sum.splits)

theorem audit_secret_safe_witness:
  "fst (sink_record demo_to_vec demo_env demo_sink demo_log_fs demo_record) \<noteq> demo_log_fs \<and>
   safe_text MAX_AUDIT_ACTION_BYTES (ar_action demo_record)"
proof -
  have "audit_log demo_sink demo_log_fs = []"
    by (simp add: audit_log_def data_at_def demo_sink_def demo_log_fs_def slot_def archive_path_def bt_get_def)
  then have "fst (sink_record demo_to_vec demo_env demo_sink demo_log_fs demo_record) \<noteq> demo_log_fs"
    using append_line_faultless [OF demo_sink_wf demo_faultless, of "''start'' @ [CHR 0x0A]"] demo_encode
    by (auto simp: sink_record_def)
  with audit_secret_safe [OF this] show ?thesis by blast
qed

end
