(* ===== verification/Privd_Properties.thy ===== *)
theory Privd_Properties
  imports Privd Policy_Store_Properties Audit_Properties
begin

section \<open>Properties of the privilege daemon\<close>

text \<open>
  The contracts of the audit sink and of the repository as locales, their interpretations on the models
  of \<open>Audit_Sink\<close> and \<open>Policy_Store\<close>, and what the daemon guarantees over them.
\<close>

lemma candidate_subject_Ok [result_simps]:
  "candidate_subject st u mu = Ok s \<longleftrightarrow> \<not> pv_poisoned st \<and>
     apply_admin_mutation (pv_policy st) (snapshot_subject (pv_policy st) u) mu = (s, Ok ())"
  by (auto simp: candidate_subject_def lock_policy_def result_simps split: prod.split)

text \<open>The three ways a mutation ends: refused before the commit, not committed, installed.\<close>

lemma mutate_subject_cases:
  assumes "mutate_subject ports st u mu = (st', x)"
  obtains (refused) e where "candidate_subject st u mu = Err e" "st' = st" "x = Err e"
  | (uncommitted) s r' e where "candidate_subject st u mu = Ok s"
      "port_commit ports (pv_repository st) s = (r', Err e)" "st' = st\<lparr>pv_repository := r'\<rparr>"
      "x = Err (semantic_error_new CodeUnavailable ''administrator policy update could not be committed'')"
  | (installed) s r' ps' where "candidate_subject st u mu = Ok s"
      "port_commit ports (pv_repository st) s = (r', Ok ())" "replace_subject (pv_policy st) s = Ok ps'"
      "st' = st\<lparr>pv_repository := r', pv_policy := ps'\<rparr>"
      "x = and_then (map_err policy_semantic (subject_view ps' u)) (\<lambda>view.
         ok_or (view_to_value ports view) internal_error)"
proof (cases "candidate_subject st u mu")
  case (Inl e)
  show ?thesis
    by (rule refused [OF Inl]) (use assms Inl in \<open>simp_all add: mutate_subject_def\<close>)
next
  case (Inr s)
  then obtain ps' where ps': "replace_subject (pv_policy st) s = Ok ps'"
    unfolding candidate_subject_Ok using replace_mutated_total by blast
  obtain r' y where c: "port_commit ports (pv_repository st) s = (r', y)" by fastforce
  show ?thesis
  proof (cases y)
    case (Inl e)
    show ?thesis
      by (rule uncommitted [OF Inr c [unfolded Inl]]) (use assms Inr c Inl in \<open>simp_all add: mutate_subject_def\<close>)
  next
    case (Inr u)
    show ?thesis
      by (rule installed [OF \<open>candidate_subject st _ mu = Ok s\<close> _ ps'])
        (use assms \<open>candidate_subject st _ mu = Ok s\<close> c Inr ps' in \<open>auto simp: mutate_subject_def\<close>)
  qed
qed

subsection \<open>The audit port\<close>

locale audit_port =
  fixes store :: "'k \<Rightarrow> AuditRecord \<Rightarrow> 'k \<times> (AuditError + unit)"
  assumes record_accepts: "store k r = (k', Ok u) \<Longrightarrow> validate_record r = Ok ()"
    and record_refuses: "validate_record r = Err e \<Longrightarrow> store k r = (k, Err e)"
begin

lemma recorded_or_counted:
  assumes "port_record ports = store"
  shows "pv_audit_failures (record_audit ports st r) = pv_audit_failures st \<and> validate_record r = Ok () \<or>
     pv_audit_failures (record_audit ports st r) = pv_audit_failures st + 1"
  using assms record_accepts
  by (auto simp: record_audit_def split: prod.split sum.split)

lemma refused_is_counted:
  assumes "port_record ports = store" and "validate_record r = Err e"
  shows "record_audit ports st r = st\<lparr>pv_audit_failures := pv_audit_failures st + 1\<rparr>"
  using assms by (simp add: record_audit_def record_refuses)

end

interpretation null_sink: audit_port "\<lambda>k r. (k, null_sink_record r)"
  by unfold_locales (auto simp: null_sink_record_def)

interpretation file_sink: audit_port "sink_record to_vec env sink" for to_vec env sink
proof
  fix k r k' u
  assume "sink_record to_vec env sink k r = (k', Ok u)"
  then show "validate_record r = Ok ()"
    by (auto simp: sink_record_def encode_line_Ok split: sum.splits)
next
  fix r e k
  assume "validate_record r = Err e"
  then show "sink_record to_vec env sink k r = (k, Err e)"
    by (simp add: sink_record_def encode_line_def)
qed

subsection \<open>The repository port\<close>

locale subject_repository =
  fixes commit :: "'r \<Rightarrow> SubjectPolicy \<Rightarrow> 'r \<times> (PolicyError + unit)"
    and durable :: "'r \<Rightarrow> u32 \<Rightarrow> string option"
    and encode :: "SubjectPolicy \<Rightarrow> string option"
  assumes commit_accepts: "commit r s = (r', Ok u) \<Longrightarrow> durable r' (sp_uid s) = encode s"
    and commit_frame: "commit r s = (r', x) \<Longrightarrow> v \<noteq> sp_uid s \<Longrightarrow> durable r' v = durable r v"
    and commit_all_or_nothing: "commit r s = (r', x) \<Longrightarrow>
      durable r' (sp_uid s) = durable r (sp_uid s) \<or> durable r' (sp_uid s) = encode s"
begin

lemma mutation_synced:
  assumes "port_commit ports = commit" and "snapshot_wf (pv_policy st)"
    and "mutate_subject ports st u mu = (st', Ok v)"
  shows "durable (pv_repository st') u = encode (snapshot_subject (pv_policy st') u)"
proof -
  obtain s r' where mu: "apply_admin_mutation (pv_policy st) (snapshot_subject (pv_policy st) u) mu = (s, Ok ())"
    and commit: "commit (pv_repository st) s = (r', Ok ())"
    and "pv_repository st' = r'" and rep: "replace_subject (pv_policy st) s = Ok (pv_policy st')"
    using assms(3,1) by (cases rule: mutate_subject_cases) (auto simp: result_simps)
  moreover have "sp_uid s = u"
    using mutation_uid [OF mu] snapshot_wf_subject(1) [OF assms(2)] by simp
  ultimately show ?thesis
    using commit_accepts [OF commit] replace_subject_lookup(1) [OF rep] by simp
qed

lemma mutation_other_durable:
  assumes "port_commit ports = commit" and "snapshot_wf (pv_policy st)" and "v \<noteq> u"
    and "mutate_subject ports st u mu = (st', x)"
  shows "durable (pv_repository st') v = durable (pv_repository st) v"
proof -
  have "durable r' v = durable (pv_repository st) v"
    if "candidate_subject st u mu = Ok s" "commit (pv_repository st) s = (r', y)" for s r' y
    using commit_frame [OF that(2)] mutation_uid [of "pv_policy st" _ mu s "Ok ()"] that(1)
      snapshot_wf_subject(1) [OF assms(2)] assms(3)
    by (auto simp: result_simps)
  with assms(4,1) show ?thesis by (cases rule: mutate_subject_cases) auto
qed

end

definition durable_text :: "PolicyPaths \<Rightarrow> RepoState \<Rightarrow> u32 \<Rightarrow> string option" where
  "durable_text paths st u = map_option in_data (bt_get (rp_files st) (subject_path paths u))"

interpretation file_repository: subject_repository
  "commit_subject env cd paths pid" "durable_text paths" "print_subject cd" for env cd paths pid
proof
  fix r s r' u
  assume "commit_subject env cd paths pid r s = (r', Ok u)"
  from commit_subject_cases(2) [OF this] show "durable_text paths r' (sp_uid s) = print_subject cd s"
    by (auto simp: durable_text_def committed_file_def)
next
  fix r s r' x v
  assume "commit_subject env cd paths pid r s = (r', x)" and "v \<noteq> sp_uid s"
  then show "durable_text paths r' v = durable_text paths r v"
    using commit_subject_cases(1) [of env cd paths pid r s r' x "subject_path paths v"]
    by (simp add: durable_text_def temp_neq_target [symmetric])
next
  fix r s r' x
  assume "commit_subject env cd paths pid r s = (r', x)"
  from commit_subject_cases(2) [OF this]
  show "durable_text paths r' (sp_uid s) = durable_text paths r (sp_uid s) \<or>
      durable_text paths r' (sp_uid s) = print_subject cd s"
    by (auto simp: durable_text_def committed_file_def)
qed

subsection \<open>What each entry point may change\<close>

lemma record_audit_frame [simp]:
  "pv_policy (record_audit ports st r) = pv_policy st"
  "pv_repository (record_audit ports st r) = pv_repository st"
  "pv_world (record_audit ports st r) = pv_world st"
  "pv_poisoned (record_audit ports st r) = pv_poisoned st"
  by (simp_all add: record_audit_def split: prod.split sum.split)

lemma run_allowed_frame [simp]:
  "pv_policy (fst (run_allowed ports st p rq)) = pv_policy st"
  "pv_repository (fst (run_allowed ports st p rq)) = pv_repository st"
  by (simp_all add: run_allowed_def split: prod.split)

lemma execute_cases:
  obtains (refused) e where "execute ports now st p i params = (st, Err e)"
  | (decided) rq d st' x where "from_operation ports params = Some rq" "decide_operation st p rq = Ok d"
      "execute ports now st p i params = (audit_use ports now st' p i rq (pd_reason_code d) x, x)"
      "pd_effect d = Allow \<or> st' = st" "st' = st \<or> st' = fst (run_allowed ports st p rq)"
proof (cases "and_then (parse_params (from_operation ports) params) (\<lambda>rq.
    and_then (decide_operation st p rq) (\<lambda>d. Ok (rq, d)))")
  case (Inl e)
  show ?thesis by (rule refused [of e]) (simp add: execute_def Inl)
next
  case (Inr y)
  then obtain rq d where y: "y = (rq, d)" and rq: "from_operation ports params = Some rq"
    and d: "decide_operation st p rq = Ok d"
    by (auto simp: result_simps parse_params_def)
  show ?thesis
  proof (cases "pd_effect d = Allow")
    case True
    show ?thesis
      by (rule decided [OF rq d, of "fst (run_allowed ports st p rq)" "snd (run_allowed ports st p rq)"])
        (simp_all add: execute_def Inr y True split: prod.split)
  next
    case False
    show ?thesis
      by (cases "pd_effect d"; rule decided [OF rq d, of st]) (use False in \<open>auto simp: execute_def Inr y\<close>)
  qed
qed

lemma dispatch_use_frame:
  "pv_policy (fst (dispatch_use ports now st p rq)) = pv_policy st"
  "pv_repository (fst (dispatch_use ports now st p rq)) = pv_repository st"
proof -
  have "pv_policy (fst (execute ports now st p i params)) = pv_policy st \<and>
      pv_repository (fst (execute ports now st p i params)) = pv_repository st" for i params
    by (rule execute_cases [of ports now st p i params]) (auto simp: audit_use_def)
  then show "pv_policy (fst (dispatch_use ports now st p rq)) = pv_policy st"
    "pv_repository (fst (dispatch_use ports now st p rq)) = pv_repository st"
    by (auto simp: dispatch_use_def split: sum.split prod.split) (metis fst_conv)+
qed

lemma mutate_subject_world: "pv_world (fst (mutate_subject ports st u mu)) = pv_world st"
  by (simp add: mutate_subject_def split: sum.split prod.split)

lemma admin_result_world: "pv_world (fst (admin_result ports st m params)) = pv_world st"
  by (auto simp: admin_result_def mutate_subject_world split: option.split sum.split)

lemma dispatch_admin_world: "pv_world (fst (dispatch_admin ports now st p rq)) = pv_world st"
  using admin_result_world [of ports st "rq_method rq" "rq_params rq"]
  by (auto simp: dispatch_admin_def audit_admin_def Let_def split: sum.split prod.split)

lemma dispatch_admin_denied:
  assumes "uid p \<noteq> 0"
  shows "pv_policy (fst (dispatch_admin ports now st p rq)) = pv_policy st"
    and "pv_repository (fst (dispatch_admin ports now st p rq)) = pv_repository st"
  using assms by (simp_all add: dispatch_admin_def audit_admin_def split: sum.split)

lemma decide_operation_Ok:
  "decide_operation st p rq = Ok d \<longleftrightarrow> \<not> pv_poisoned st \<and>
     evaluate (pv_policy st) p \<lparr>pc_action = po_action rq, pc_resource = po_resource rq\<rparr> = Ok d \<and>
     pd_enforcement_class d = PrivilegedTypedOperation"
  by (auto simp: decide_operation_def lock_policy_def result_simps split: if_splits)

lemma mutate_subject_wf:
  assumes "snapshot_wf (pv_policy st)"
  shows "snapshot_wf (pv_policy (fst (mutate_subject ports st u mu)))"
proof -
  obtain st' x where m: "mutate_subject ports st u mu = (st', x)" by fastforce
  then have "snapshot_wf (pv_policy st')"
    using assms by (cases rule: mutate_subject_cases) (auto intro: replace_subject_wf)
  with m show ?thesis by simp
qed

lemma dispatch_admin_wf:
  assumes "snapshot_wf (pv_policy st)"
  shows "snapshot_wf (pv_policy (fst (dispatch_admin ports now st p rq)))"
proof -
  have "snapshot_wf (pv_policy (fst (admin_result ports st m params)))" for m params
    using assms mutate_subject_wf
    by (auto simp: admin_result_def split: option.split sum.split)
  from this [of "rq_method rq" "rq_params rq"] show ?thesis
    using assms by (auto simp: dispatch_admin_def audit_admin_def Let_def split: sum.split prod.split)
qed

subsection \<open>Requests over time\<close>

datatype PrivdCall =
    UseCall Principal "json RequestEnvelope"
  | AdminCall Principal "json RequestEnvelope"

fun caller :: "PrivdCall \<Rightarrow> Principal" where
  "caller (UseCall p _) = p"
| "caller (AdminCall p _) = p"

fun serve ::
  "('w, 'r, 'k) PrivdPorts \<Rightarrow> ('w, 'r, 'k) PrivilegeCore \<Rightarrow> int \<times> PrivdCall
    \<Rightarrow> ('w, 'r, 'k) PrivilegeCore \<times> json ResponseEnvelope" where
  "serve ports st (now, UseCall p rq) = dispatch_use ports now st p rq"
| "serve ports st (now, AdminCall p rq) = dispatch_admin ports now st p rq"

definition serve_all ::
  "('w, 'r, 'k) PrivdPorts \<Rightarrow> (int \<times> PrivdCall) list \<Rightarrow> ('w, 'r, 'k) PrivilegeCore
    \<Rightarrow> ('w, 'r, 'k) PrivilegeCore" where
  "serve_all ports calls st = fold (\<lambda>c st. fst (serve ports st c)) calls st"

lemma serve_wf: "snapshot_wf (pv_policy st) \<Longrightarrow> snapshot_wf (pv_policy (fst (serve ports st c)))"
  by (cases "(ports, st, c)" rule: serve.cases) (simp_all add: dispatch_use_frame dispatch_admin_wf)

lemma serve_unprivileged:
  "uid (caller (snd c)) \<noteq> 0 \<Longrightarrow> pv_policy (fst (serve ports st c)) = pv_policy st \<and>
     pv_repository (fst (serve ports st c)) = pv_repository st"
  by (cases "(ports, st, c)" rule: serve.cases) (simp_all add: dispatch_use_frame dispatch_admin_denied)

lemma serve_world:
  assumes "pv_world (fst (serve ports st c)) \<noteq> pv_world st"
  shows "\<exists>now p rq op d. c = (now, UseCall p rq) \<and> rq_method rq = ''privilege.execute'' \<and>
     from_operation ports (rq_params rq) = Some op \<and> decide_operation st p op = Ok d \<and> pd_effect d = Allow"
proof (cases "(ports, st, c)" rule: serve.cases)
  case (1 ports' st' now p rq)
  have "\<exists>op d. from_operation ports params = Some op \<and> decide_operation st p op = Ok d \<and> pd_effect d = Allow"
    if "pv_world (fst (execute ports now st p i params)) \<noteq> pv_world st" for i params
    by (rule execute_cases [of ports now st p i params]) (use that in \<open>auto simp: audit_use_def\<close>)
  with 1 assms show ?thesis
    by (auto simp: dispatch_use_def split: sum.splits prod.splits if_splits) (metis fst_conv)
next
  case (2 ports' st' now p rq)
  with assms show ?thesis by (simp add: dispatch_admin_world)
qed

lemma serve_all_wf: "snapshot_wf (pv_policy st) \<Longrightarrow> snapshot_wf (pv_policy (serve_all ports calls st))"
  by (induction calls arbitrary: st) (auto simp: serve_all_def serve_wf)

lemma serve_all_unprivileged:
  "\<forall>c\<in>set calls. uid (caller (snd c)) \<noteq> 0 \<Longrightarrow>
     pv_policy (serve_all ports calls st) = pv_policy st \<and>
     pv_repository (serve_all ports calls st) = pv_repository st"
  by (induction calls arbitrary: st) (auto simp: serve_all_def serve_unprivileged)

text \<open>The policy in memory changes only through an installed mutation of a root request.\<close>

lemma serve_policy_change:
  assumes "pv_policy (fst (serve ports st c)) \<noteq> pv_policy st"
  obtains now p rq u mu s r' ps' where "c = (now, AdminCall p rq)" "uid p = 0"
    "admin_mutation ports (rq_method rq) (rq_params rq) = Some (Ok (u, mu))"
    "candidate_subject st u mu = Ok s"
    "port_commit ports (pv_repository st) s = (r', Ok ())" "replace_subject (pv_policy st) s = Ok ps'"
    "pv_policy (fst (serve ports st c)) = ps'" "pv_repository (fst (serve ports st c)) = r'"
proof (cases "(ports, st, c)" rule: serve.cases)
  case (1 ports' st' now p rq)
  with assms show ?thesis by (simp add: dispatch_use_frame)
next
  case (2 ports' st' now p rq)
  then have c: "c = (now, AdminCall p rq)" by simp
  have root: "uid p = 0" using assms dispatch_admin_denied(1) [of p ports now st rq] by (auto simp: c)
  let ?r = "admin_result ports st (rq_method rq) (rq_params rq)"
  have eq: "pv_policy (fst (serve ports st c)) = pv_policy (fst ?r) \<and>
      pv_repository (fst (serve ports st c)) = pv_repository (fst ?r) \<or> fst (serve ports st c) = st"
    using root by (auto simp: c dispatch_admin_def audit_admin_def Let_def split: sum.split prod.split)
  with assms have "pv_policy (fst ?r) \<noteq> pv_policy st" by auto
  then obtain u mu where mu: "admin_mutation ports (rq_method rq) (rq_params rq) = Some (Ok (u, mu))"
    and r: "?r = mutate_subject ports st u mu"
    by (auto simp: admin_result_def split: option.splits sum.splits if_splits)
  obtain st' x where "mutate_subject ports st u mu = (st', x)" by fastforce
  then show ?thesis
  proof (cases rule: mutate_subject_cases)
    case (installed s r' ps')
    with eq assms r \<open>mutate_subject ports st u mu = (st', x)\<close>
    show ?thesis by (intro that [OF c root mu installed(1-3)]) auto
  qed (use eq assms r \<open>mutate_subject ports st u mu = (st', x)\<close> in auto)
qed

subsection \<open>A concrete daemon\<close>

definition demo_ports :: "(nat, SubjectPolicy list, AuditRecord list) PrivdPorts" where
  "demo_ports =
     \<lparr>from_operation = (\<lambda>_. Some \<lparr>po_action = ''svc'', po_resource = Some ''nginx''\<rparr>),
      from_show = (\<lambda>_. Some \<lparr>as_uid = 1000\<rparr>),
      from_grant = (\<lambda>_. Some \<lparr>ag_uid = 1000, ag_action = ''svc'', ag_effect = Reject,
        ag_resource = Some ''nginx'', ag_ack_root_equivalent = False\<rparr>),
      from_revoke = (\<lambda>_. None),
      from_bundle = (\<lambda>_. Some \<lparr>ab_uid = 1000, ab_bundle = ''strict'', ab_enabled = True\<rparr>),
      result_to_value = (\<lambda>_. Some JNull), view_to_value = (\<lambda>_. Some JNull),
      port_execute = (\<lambda>w p rq. (Suc w, Ok \<lparr>pr_action = po_action rq, pr_resource = po_resource rq, pr_safe_summary = []\<rparr>)),
      port_commit = (\<lambda>r s. (s # r, Ok ())),
      port_record = (\<lambda>k r. (r # k, Ok ()))\<rparr>"

definition demo_core :: "(nat, SubjectPolicy list, AuditRecord list) PrivilegeCore" where
  "demo_core = new_with_audit demo_snapshot [] 0 []"

definition demo_request :: "string \<Rightarrow> json RequestEnvelope" where
  "demo_request m = request_new ''r1'' m JNull"

definition demo_root_principal :: Principal where
  "demo_root_principal = \<lparr>uid = 0, gid = 0\<rparr>"

lemma demo_core_wf: "snapshot_wf (pv_policy demo_core)"
  by (simp add: demo_core_def new_with_audit_def demo_wf)

subsection \<open>The guarantees\<close>

text \<open>C2. Least privilege, end to end: whatever requests were served before, when the next request makes the
  executor act, that request is a use call whose operation the current policy classifies as a
  privileged typed operation and for which the caller holds an allow grant of exactly that action
  and resource, explicitly or through an enabled bundle.\<close>

theorem privileged_execution_authorized:
  assumes "snapshot_wf (pv_policy st0)" and "st = serve_all ports calls st0"
    and "pv_world (fst (serve ports st c)) \<noteq> pv_world st"
  shows "\<exists>now p rq op a. c = (now, UseCall p rq) \<and> from_operation ports (rq_params rq) = Some op \<and>
     snapshot_action (pv_policy st) (po_action op) = Some a \<and> ad_class a = PrivilegedTypedOperation \<and>
     ((\<exists>g\<in>set (sp_grants (snapshot_subject (pv_policy st) (uid p))).
         covers (po_action op, po_resource op) g \<and> gd_effect g = Allow) \<or>
      (\<exists>bg\<in>set (enabled_grants (pv_policy st) (snapshot_subject (pv_policy st) (uid p))).
         covers (po_action op, po_resource op) (snd bg) \<and> gd_effect (snd bg) = Allow))"
proof -
  have wf: "snapshot_wf (pv_policy st)" using serve_all_wf [OF assms(1)] assms(2) by simp
  obtain now p rq op d where c: "c = (now, UseCall p rq)" "from_operation ports (rq_params rq) = Some op"
    and d: "decide_operation st p op = Ok d" "pd_effect d = Allow"
    using serve_world [OF assms(3)] by blast
  have "evaluate (pv_policy st) p \<lparr>pc_action = po_action op, pc_resource = po_resource op\<rparr> = Ok d"
    using d(1) by (simp add: decide_operation_Ok)
  from evaluate_OkD [OF wf this] obtain a where a: "snapshot_action (pv_policy st) (po_action op) = Some a"
    and da: "d = spec_decision (pv_policy st) p \<lparr>pc_action = po_action op, pc_resource = po_resource op\<rparr> a"
    by auto
  then have "spec_effect (pv_policy st) (snapshot_subject (pv_policy st) (uid p)) (po_action op, po_resource op) = Allow"
    using d(2) by simp
  moreover have "ad_class a = PrivilegedTypedOperation"
    using d(1) da by (simp add: decide_operation_Ok)
  ultimately show ?thesis
    using c a spec_effect_grants [of "pv_policy st" "snapshot_subject (pv_policy st) (uid p)"
      "(po_action op, po_resource op)"] by auto
qed

lemma demo_world: "pv_world (fst (serve demo_ports demo_core (5, UseCall demo_user (demo_request ''privilege.execute'')))) = 1"
  by code_simp

theorem privileged_execution_authorized_witness:
  "\<exists>a. snapshot_action demo_snapshot ''svc'' = Some a \<and> ad_class a = PrivilegedTypedOperation"
proof -
  have "pv_world demo_core = 0" "pv_policy demo_core = demo_snapshot"
    by (simp_all add: demo_core_def new_with_audit_def)
  with privileged_execution_authorized [OF demo_core_wf, of demo_core demo_ports "[]"
      "(5, UseCall demo_user (demo_request ''privilege.execute''))"] demo_world
  show ?thesis by (auto simp: serve_all_def demo_ports_def)
qed

text \<open>C7. No sequence of requests by callers other than uid 0, use or administration, changes the policy
  in memory or reaches the repository, and each well-formed administration request among them is
  answered with permission denied.\<close>

theorem unprivileged_cannot_administer:
  assumes "\<forall>c\<in>set calls. uid (caller (snd c)) \<noteq> 0"
  shows "pv_policy (serve_all ports calls st) = pv_policy st \<and>
     pv_repository (serve_all ports calls st) = pv_repository st \<and>
     (\<forall>now p rq. (now, AdminCall p rq) \<in> set calls \<and> request_validate rq = Ok () \<longrightarrow>
        snd (serve ports st' (now, AdminCall p rq)) = response_failure (rq_request_id rq) admin_denied)"
  using serve_all_unprivileged [OF assms, of ports st] assms
  by (auto simp: dispatch_admin_def)

theorem unprivileged_cannot_administer_witness:
  "pv_policy (serve_all demo_ports [(5, AdminCall demo_user (demo_request ''policy.admin.grant''))] demo_core)
     = demo_snapshot"
  using unprivileged_cannot_administer
    [of "[(5, AdminCall demo_user (demo_request ''policy.admin.grant''))]" demo_ports demo_core demo_core]
  by (simp add: demo_user_def demo_core_def new_with_audit_def)

text \<open>C6. Durable before visible: when a request changes the policy in memory, it is an administration request
  of uid 0, the repository accepted the very subject that is installed, that subject passed
  validation, and every other subject is as it was.\<close>

theorem durable_before_visible:
  assumes "pv_policy (fst (serve ports st c)) \<noteq> pv_policy st"
  shows "\<exists>now p rq s. c = (now, AdminCall p rq) \<and> uid p = 0 \<and>
     port_commit ports (pv_repository st) s = (pv_repository (fst (serve ports st c)), Ok ()) \<and>
     snapshot_validate_subject (pv_policy st) s = Ok () \<and>
     replace_subject (pv_policy st) s = Ok (pv_policy (fst (serve ports st c))) \<and>
     (\<forall>v. v \<noteq> sp_uid s \<longrightarrow> snapshot_subject (pv_policy (fst (serve ports st c))) v = snapshot_subject (pv_policy st) v)"
  using assms
proof (cases rule: serve_policy_change)
  case (1 now p rq u mu s r' ps')
  then have "snapshot_validate_subject (pv_policy st) s = Ok ()"
    using mutation_validates by (auto simp: candidate_subject_Ok)
  with 1 replace_subject_lookup(1) [OF 1(6)] show ?thesis by auto
qed

lemma demo_admin_changes:
  "pv_policy (fst (serve demo_ports demo_core (5, AdminCall demo_root_principal (demo_request ''policy.admin.grant'')))) \<noteq>
     pv_policy demo_core"
  by code_simp

theorem durable_before_visible_witness:
  "\<exists>s. port_commit demo_ports [] s = (pv_repository (fst (serve demo_ports demo_core
       (5, AdminCall demo_root_principal (demo_request ''policy.admin.grant'')))), Ok ())"
  using durable_before_visible [OF demo_admin_changes] by (auto simp: demo_core_def new_with_audit_def)

text \<open>Every answer of the daemon is a well-formed response envelope that carries the request's identifier:
  a success has a result and no error, a failure an error and no result.\<close>

theorem privd_answers_wellformed:
  "response_validate (snd (dispatch_use ports now st p rq)) = Ok () \<and>
   rs_request_id (snd (dispatch_use ports now st p rq)) = rq_request_id rq \<and>
   response_validate (snd (dispatch_admin ports now st p rq)) = Ok () \<and>
   rs_request_id (snd (dispatch_admin ports now st p rq)) = rq_request_id rq"
proof -
  have "response_validate (to_response i x) = Ok () \<and> rs_request_id (to_response i x) = i" for i x
    by (simp add: to_response_def response_success_def response_failure_def response_validate_def
        ensure_compatible_def split: sum.split)
  moreover have "rs_request_id (response_failure i e) = i" for i and e :: SemanticError
    by (simp add: response_failure_def)
  ultimately show ?thesis
    by (auto simp: dispatch_use_def dispatch_admin_def protocol_failure_def Let_def split: sum.split prod.split)
qed

text \<open>After a successful administration answer the file of the subject and the policy in memory agree, and
  no other subject's file changed: with the file repository, whatever the codec and whichever of its
  system calls may fail, a mutation that answers with success leaves the subject's file holding exactly
  the encoding of the subject now in memory.\<close>

theorem admin_success_synced:
  assumes "port_commit ports = commit_subject env cd paths pid" and "snapshot_wf (pv_policy st)"
    and "mutate_subject ports st u mu = (st', Ok v)"
  shows "durable_text paths (pv_repository st') u = print_subject cd (snapshot_subject (pv_policy st') u) \<and>
     (\<forall>w. w \<noteq> u \<longrightarrow> durable_text paths (pv_repository st') w = durable_text paths (pv_repository st) w)"
  using file_repository.mutation_synced [OF assms]
    file_repository.mutation_other_durable [OF assms(1,2) _ assms(3)] by blast

definition demo_file_ports :: "(unit, RepoState, unit) PrivdPorts" where
  "demo_file_ports =
     \<lparr>from_operation = (\<lambda>_. None), from_show = (\<lambda>_. None), from_grant = (\<lambda>_. None),
      from_revoke = (\<lambda>_. None), from_bundle = (\<lambda>_. None),
      result_to_value = (\<lambda>_. None), view_to_value = (\<lambda>_. Some JNull),
      port_execute = unavailable_execute,
      port_commit = commit_subject demo_env demo_codec demo_paths 42,
      port_record = (\<lambda>k r. (k, null_sink_record r))\<rparr>"

definition demo_file_core :: "(unit, RepoState, unit) PrivilegeCore" where
  "demo_file_core = new_with_audit demo_snapshot demo_repo () ()"

theorem admin_success_synced_witness:
  "\<exists>st' v. mutate_subject demo_file_ports demo_file_core 7 (Grant ''svc'' Allow (Some ''nginx'') False) = (st', Ok v) \<and>
     durable_text demo_paths (pv_repository st') 7 = Some ''N''"
proof -
  let ?m = "mutate_subject demo_file_ports demo_file_core 7 (Grant ''svc'' Allow (Some ''nginx'') False)"
  have "is_ok (snd ?m)" and enc: "print_subject demo_codec (snapshot_subject (pv_policy (fst ?m)) 7) = Some ''N''"
    by code_simp+
  then obtain st' v where m: "?m = (st', Ok v)"
    by (metis is_ok_iff prod.collapse)
  have "snapshot_wf (pv_policy demo_file_core)"
    by (simp add: demo_file_core_def new_with_audit_def demo_wf)
  with admin_success_synced [OF _ _ m, of demo_env demo_codec demo_paths 42] enc m
  show ?thesis by (auto simp: demo_file_ports_def)
qed

text \<open>C21. An administration error does not mean that nothing changed: enabling a bundle that contradicts an
  enabled one is committed durably and installed in memory, and the caller is then told that the
  mutation is invalid.\<close>

theorem conflicting_bundle_set_reports_error:
  assumes "snapshot_wf (pv_policy st)" and "\<not> pv_poisoned st"
    and "apply_admin_mutation (pv_policy st) (snapshot_subject (pv_policy st) u) mu = (s, Ok ())"
    and "\<not> conflict_free (enabled_grants (pv_policy st) s)"
    and "port_commit ports (pv_repository st) s = (r', Ok ())"
  shows "\<exists>ps'. replace_subject (pv_policy st) s = Ok ps' \<and>
     mutate_subject ports st u mu = (st\<lparr>pv_repository := r', pv_policy := ps'\<rparr>,
       Err (semantic_error_new CodeInvalidRequest ''policy action or mutation is invalid''))"
proof -
  obtain ps' where ps': "replace_subject (pv_policy st) s = Ok ps'"
    using replace_mutated_total [OF assms(3)] by blast
  note look = replace_subject_lookup [OF ps']
  have wf': "snapshot_wf ps'" using assms(1) ps' by (rule replace_subject_wf)
  have "sp_uid s = u" using mutation_uid [OF assms(3)] snapshot_wf_subject(1) [OF assms(1)] by simp
  then have sub: "snapshot_subject ps' u = s" by (simp add: look)
  have "enabled_grants ps' s = enabled_grants (pv_policy st) s" by (simp add: enabled_grants_def look)
  then have "\<not> (\<exists>m. resolved_grant_map ps' s = Ok m)"
    using resolved_grant_map_cases(1) [OF wf' snapshot_wf_subject(2) [OF wf', of u]] assms(4) sub by simp
  then obtain e where "subject_view ps' u = Err e"
    by (cases "resolved_grant_map ps' s") (auto simp: subject_view_def resolved_grants_def sub)
  moreover have "candidate_subject st u mu = Ok s" using assms(2,3) by (simp add: candidate_subject_Ok)
  ultimately have "mutate_subject ports st u mu = (st\<lparr>pv_repository := r', pv_policy := ps'\<rparr>,
       Err (semantic_error_new CodeInvalidRequest ''policy action or mutation is invalid''))"
    using assms(5) ps' by (simp add: mutate_subject_def policy_semantic_def)
  with ps' show ?thesis by blast
qed

theorem conflicting_bundle_set_reports_error_witness:
  "\<exists>s ps'. replace_subject demo_snapshot s = Ok ps' \<and> mutate_subject demo_ports demo_core 1000 (BundleSet ''strict'' True)
     = (demo_core\<lparr>pv_repository := [s], pv_policy := ps'\<rparr>,
        Err (semantic_error_new CodeInvalidRequest ''policy action or mutation is invalid''))"
proof -
  let ?m = "apply_admin_mutation demo_snapshot (snapshot_subject demo_snapshot 1000) (BundleSet ''strict'' True)"
  have "snd ?m = Ok ()" and cf: "\<not> conflict_free (enabled_grants demo_snapshot (fst ?m))" by code_simp+
  then have m: "?m = (fst ?m, Ok ())" by (metis prod.collapse)
  have core: "pv_policy demo_core = demo_snapshot" "\<not> pv_poisoned demo_core" "pv_repository demo_core = []"
    by (simp_all add: demo_core_def new_with_audit_def)
  show ?thesis
    using conflicting_bundle_set_reports_error [OF demo_core_wf core(2), unfolded core, OF m cf, of demo_ports "[fst ?m]"]
    by (auto simp: demo_ports_def)
qed

lemma audit_outcome_iff:
  "audit_outcome res = AuditSucceeded \<longleftrightarrow> (\<exists>v. res = Ok v)"
  "audit_outcome res = AuditDenied \<longleftrightarrow> (\<exists>e. res = Err e \<and> se_code e = CodePermissionDenied)"
  by (cases res; simp split: SemanticErrorCode.split)+

lemma to_response_fields:
  "rs_ok (to_response i res) \<longleftrightarrow> (\<exists>v. res = Ok v)"
  "rs_error (to_response i res) = Some e \<longleftrightarrow> res = Err e"
  by (auto simp: to_response_def response_success_def response_failure_def split: sum.split)

lemma dispatch_admin_record:
  assumes "request_validate rq = Ok ()" and "dispatch_admin ports now st p rq = (st', resp)"
    and "res = (if uid p = 0 then snd (admin_result ports st (rq_method rq) (rq_params rq)) else Err admin_denied)"
    and "r = admin_record now p (rq_request_id rq) (rq_method rq)
      (if uid p = 0 then admin_target (rq_params rq) else None)
      (uid p = 0 \<and> admin_root_equivalent_change st (rq_method rq) (rq_params rq)) res"
  shows "resp = to_response (rq_request_id rq) res"
    and "(pv_audit st', pv_audit_failures st') =
      (case port_record ports (pv_audit st) r of
         (k, Inr _) \<Rightarrow> (k, pv_audit_failures st)
       | (k, Inl _) \<Rightarrow> (k, pv_audit_failures st + 1))"
proof -
  obtain st0 x where x: "admin_result ports st (rq_method rq) (rq_params rq) = (st0, x)" by fastforce
  have audit: "pv_audit st0 = pv_audit st" "pv_audit_failures st0 = pv_audit_failures st"
    using x by (auto simp: admin_result_def mutate_subject_def split: option.splits sum.splits prod.splits if_splits)
  have eq: "st' = record_audit ports (if uid p = 0 then st0 else st) r"
    using assms x by (auto simp: dispatch_admin_def audit_admin_def Let_def)
  show "resp = to_response (rq_request_id rq) res"
    using assms(1-3) x by (auto simp: dispatch_admin_def to_response_def Let_def)
  show "(pv_audit st', pv_audit_failures st') =
      (case port_record ports (pv_audit st) r of
         (k, Inr _) \<Rightarrow> (k, pv_audit_failures st)
       | (k, Inl _) \<Rightarrow> (k, pv_audit_failures st + 1))"
    unfolding eq by (simp add: record_audit_def audit split: prod.split sum.split)
qed

text \<open>C20. No administration request escapes the audit. With the file sink, every well-formed request, denied
  or not, makes exactly one record: of the caller, the method, the request, the time and the target, and
  of the outcome the caller is told. The record says succeeded if and only if the answer is a success,
  its reason is the error's code when it is not, and it says denied exactly for a permission error; a
  caller other than root is always denied. The record goes to the sink: either it passed the audit
  validation and was stored, or the sink refused this very record and the failure counter grows by one.
  When no system call fails and the record can be encoded, it is stored and its line is the last of the
  log.\<close>

theorem admin_requests_audited:
  assumes "port_record ports = sink_record to_vec env sink" and "request_validate rq = Ok ()"
    and "dispatch_admin ports now st p rq = (st', resp)"
  shows "\<exists>res r.
      res = (if uid p = 0 then snd (admin_result ports st (rq_method rq) (rq_params rq)) else Err admin_denied)
    \<and> resp = to_response (rq_request_id rq) res
    \<and> r = \<lparr>ar_schema_version = AUDIT_SCHEMA_VERSION, ar_actor = audit_actor_principal p, ar_domain = DomainPolicy,
        ar_action = rq_method rq, ar_result = audit_outcome res,
        ar_reason_code = (case res of
            Inl e \<Rightarrow> semantic_error_code_as_str (se_code e)
          | Inr _ \<Rightarrow> if admin_root_equivalent_change st (rq_method rq) (rq_params rq)
              then ''root_equivalent_policy_change'' else ''ok''),
        ar_target_ref = (if uid p = 0 then admin_target (rq_params rq) else None), ar_task_id = None,
        ar_request_id = Some (rq_request_id rq), ar_occurred_at_ms = now\<rparr>
    \<and> (ar_result r = AuditSucceeded \<longleftrightarrow> rs_ok resp)
    \<and> (ar_result r = AuditDenied \<longleftrightarrow> (\<exists>e. rs_error resp = Some e \<and> se_code e = CodePermissionDenied))
    \<and> (validate_record r = Ok () \<and> sink_record to_vec env sink (pv_audit st) r = (pv_audit st', Ok ())
          \<and> pv_audit_failures st' = pv_audit_failures st
       \<or> (\<exists>e. sink_record to_vec env sink (pv_audit st) r = (pv_audit st', Err e))
          \<and> pv_audit_failures st' = pv_audit_failures st + 1)
    \<and> (\<forall>line. sink_wf sink (pv_audit st) \<and> faultless env \<and> encode_line to_vec r = Ok line \<longrightarrow>
        pv_audit_failures st' = pv_audit_failures st
        \<and> (\<exists>earlier. audit_log sink (pv_audit st') = earlier @ line))"
proof -
  define res where "res = (if uid p = 0 then snd (admin_result ports st (rq_method rq) (rq_params rq))
    else Err admin_denied)"
  define r where "r = admin_record now p (rq_request_id rq) (rq_method rq)
      (if uid p = 0 then admin_target (rq_params rq) else None)
      (uid p = 0 \<and> admin_root_equivalent_change st (rq_method rq) (rq_params rq)) res"
  note made = dispatch_admin_record [OF assms(2,3) res_def r_def]
  have fields: "r = \<lparr>ar_schema_version = AUDIT_SCHEMA_VERSION, ar_actor = audit_actor_principal p,
        ar_domain = DomainPolicy, ar_action = rq_method rq, ar_result = audit_outcome res,
        ar_reason_code = (case res of
            Inl e \<Rightarrow> semantic_error_code_as_str (se_code e)
          | Inr _ \<Rightarrow> if admin_root_equivalent_change st (rq_method rq) (rq_params rq)
              then ''root_equivalent_policy_change'' else ''ok''),
        ar_target_ref = (if uid p = 0 then admin_target (rq_params rq) else None), ar_task_id = None,
        ar_request_id = Some (rq_request_id rq), ar_occurred_at_ms = now\<rparr>"
    by (auto simp: r_def res_def admin_record_def audit_record_new_def split: sum.split)
  have outcome: "(audit_outcome res = AuditSucceeded \<longleftrightarrow> rs_ok resp)"
    "audit_outcome res = AuditDenied \<longleftrightarrow> (\<exists>e. rs_error resp = Some e \<and> se_code e = CodePermissionDenied)"
    unfolding made(1) to_response_fields by (rule audit_outcome_iff)+
  have stored: "validate_record r = Ok () \<and> sink_record to_vec env sink (pv_audit st) r = (pv_audit st', Ok ())
        \<and> pv_audit_failures st' = pv_audit_failures st
      \<or> (\<exists>e. sink_record to_vec env sink (pv_audit st) r = (pv_audit st', Err e))
        \<and> pv_audit_failures st' = pv_audit_failures st + 1"
    using made(2) assms(1) file_sink.record_accepts by (fastforce split: prod.splits sum.splits)
  have last: "pv_audit_failures st' = pv_audit_failures st \<and> (\<exists>earlier. audit_log sink (pv_audit st') = earlier @ line)"
    if "sink_wf sink (pv_audit st) \<and> faultless env \<and> encode_line to_vec r = Ok line" for line
    using append_line_faultless [of sink "pv_audit st" env line] that stored
    by (auto simp: sink_record_def)
  show ?thesis
    using fields outcome stored last
    by (intro exI [of _ res] exI [of _ r] conjI allI impI res_def made(1) fields) simp_all
qed

definition demo_outcome_vec :: "AuditRecord \<Rightarrow> string option" where
  "demo_outcome_vec r = Some (ar_action r @ '' '' @ ar_reason_code r)"

definition demo_audit_ports :: "(unit, unit, Files) PrivdPorts" where
  "demo_audit_ports =
     \<lparr>from_operation = (\<lambda>_. None), from_show = (\<lambda>_. Some \<lparr>as_uid = 1000\<rparr>), from_grant = (\<lambda>_. None),
      from_revoke = (\<lambda>_. None), from_bundle = (\<lambda>_. None),
      result_to_value = (\<lambda>_. None), view_to_value = (\<lambda>_. Some JNull),
      port_execute = unavailable_execute, port_commit = (\<lambda>r s. (r, Err PolicyUnsupportedPlatform)),
      port_record = sink_record demo_outcome_vec demo_env demo_sink\<rparr>"

definition demo_audit_core :: "(unit, unit, Files) PrivilegeCore" where
  "demo_audit_core = new_with_audit demo_snapshot () () demo_log_fs"

text \<open>An ordinary user is denied and root is shown a policy; the log says so.\<close>

lemma demo_shown: "snd (admin_result demo_audit_ports demo_audit_core ''policy.admin.show'' JNull) = Ok JNull"
proof -
  have "is_ok (subject_view demo_snapshot 1000)" by code_simp
  then show ?thesis
    by (auto simp: is_ok_iff admin_result_def admin_show_def parse_params_def demo_audit_ports_def demo_audit_core_def
        lock_policy_def new_with_audit_def)
qed

lemma demo_callers: "uid demo_user \<noteq> 0" "uid demo_root_principal = 0"
  by (simp_all add: demo_user_def demo_root_principal_def)

lemma demo_lines:
  "encode_line demo_outcome_vec (admin_record 5 demo_user (rq_request_id (demo_request ''policy.admin.show''))
      (rq_method (demo_request ''policy.admin.show'')) None False (Err admin_denied))
    = Ok (''policy.admin.show permission_denied'' @ [CHR 0x0A])"
  "encode_line demo_outcome_vec (admin_record 5 demo_root_principal (rq_request_id (demo_request ''policy.admin.show''))
      (rq_method (demo_request ''policy.admin.show'')) (admin_target (rq_params (demo_request ''policy.admin.show'')))
      False (Ok JNull))
    = Ok (''policy.admin.show ok'' @ [CHR 0x0A])"
  by code_simp+

theorem admin_requests_audited_witness:
  "(\<exists>earlier. audit_log demo_sink (pv_audit (fst (dispatch_admin demo_audit_ports 5 demo_audit_core demo_user
       (demo_request ''policy.admin.show'')))) = earlier @ ''policy.admin.show permission_denied'' @ [CHR 0x0A])
   \<and> (\<exists>earlier. audit_log demo_sink (pv_audit (fst (dispatch_admin demo_audit_ports 5 demo_audit_core demo_root_principal
       (demo_request ''policy.admin.show'')))) = earlier @ ''policy.admin.show ok'' @ [CHR 0x0A])"
proof -
  let ?rq = "demo_request ''policy.admin.show''"
  have rq: "request_validate ?rq = Ok ()" by code_simp
  have ports: "port_record demo_audit_ports = sink_record demo_outcome_vec demo_env demo_sink"
    and log: "pv_audit demo_audit_core = demo_log_fs"
    and shown: "snd (admin_result demo_audit_ports demo_audit_core (rq_method ?rq) (rq_params ?rq)) = Ok JNull"
    using demo_shown by (simp_all add: demo_audit_ports_def demo_audit_core_def new_with_audit_def demo_request_def
        request_new_def)
  have change: "\<not> admin_root_equivalent_change demo_audit_core (rq_method ?rq) (rq_params ?rq)"
    by (simp add: demo_request_def request_new_def admin_root_equivalent_change_def)
  define res :: "Principal \<Rightarrow> SemanticError + json" where
    "res = (\<lambda>p. if uid p = 0 then Ok JNull else Err admin_denied)"
  have logged: "\<exists>earlier. audit_log demo_sink (pv_audit (fst (dispatch_admin demo_audit_ports 5 demo_audit_core p ?rq)))
      = earlier @ line"
    if "encode_line demo_outcome_vec (admin_record 5 p (rq_request_id ?rq) (rq_method ?rq)
        (if uid p = 0 then admin_target (rq_params ?rq) else None) False (res p)) = Ok line" for p line
  proof -
    obtain st' resp where run: "dispatch_admin demo_audit_ports 5 demo_audit_core p ?rq = (st', resp)" by fastforce
    from admin_requests_audited [OF ports rq run] show ?thesis
    proof (elim exE conjE, goal_cases)
      case (1 res' r)
      have "res' = res p" using 1(1) shown by (simp add: res_def)
      with 1(3) change have "r = admin_record 5 p (rq_request_id ?rq) (rq_method ?rq)
          (if uid p = 0 then admin_target (rq_params ?rq) else None) False (res p)"
        by (simp add: admin_record_def audit_record_new_def split: sum.split)
      with 1(7) that demo_sink_wf demo_faultless log run show ?case by simp
    qed
  qed
  show ?thesis
    by (intro conjI logged) (simp_all add: res_def demo_callers demo_lines)
qed

end
