(* ===== verification/Event_Store.thy ===== *)
theory Event_Store
  imports Protocol
begin

section \<open>The store of significant events\<close>

text \<open>
  \<^verbatim>\<open>portus-state/src/{error,safety,event}.rs\<close>. The table \<open>significant_events\<close> is the list of its rows
  in insertion order; a statement on it is the list operation with the same \<open>WHERE\<close>,
  \<open>ORDER BY\<close> and \<open>LIMIT\<close>. A method that runs a transaction returns the table as it was when it
  fails. The encoder \<open>serde_json::to_string\<close> is the parameter \<open>to_json\<close>; the stored text is the
  encoding of the value kept here. Faults of the database engine itself are not modelled; a violated
  constraint of the schema is \<open>StateSqlite\<close>.
\<close>

subsection \<open>Errors and secret-like material\<close>

datatype StateError =
    StateSqlite
  | StateIo
  | InvalidPath string
  | UnsupportedSchemaVersion u32 u32
  | InvalidMigrationHistory u32 u32
  | MigrationFailed u32 string
  | IntegrityFailure string
  | ReadOnlySchemaMissing
  | InvalidProviderState string
  | InvalidIndexState string
  | InvalidEventState string
  | InvalidTaskState string
  | InvalidHealthState string
  | InvalidArtifactState string
  | TaskPreconditionFailed string string

definition contains_any :: "string list \<Rightarrow> string \<Rightarrow> bool" where
  "contains_any markers v = (let lower = to_ascii_lowercase v in list_ex (contains_str lower) markers)"

definition secret_like_key :: "string \<Rightarrow> bool" where
  "secret_like_key v =
     contains_any
       [''authorization'', ''password'', ''passwd'', ''secret'', ''token'', ''api_key'', ''apikey'',
        ''cookie'', ''private_key'', ''credential''] v"

definition secret_like_text :: "string \<Rightarrow> bool" where
  "secret_like_text v =
     contains_any
       [''authorization:'', ''bearer '', ''api_key='', ''api_key ='', ''apikey='', ''password='',
        ''password ='', ''secret='', ''secret ='', ''token='', ''token ='', ''private_key'',
        ''-----begin private key-----'', ''-----begin openssh private key-----''] v"

fun json_contains_secret_like :: "json \<Rightarrow> bool"
  and fields_secret_like :: "(string \<times> json) list \<Rightarrow> bool"
  and values_secret_like :: "json list \<Rightarrow> bool" where
  "json_contains_secret_like (JObject kvs) = fields_secret_like kvs"
| "json_contains_secret_like (JArray vs) = values_secret_like vs"
| "json_contains_secret_like (JString s) = secret_like_text s"
| "json_contains_secret_like JNull = False"
| "json_contains_secret_like (JBool _) = False"
| "json_contains_secret_like (JNumber _) = False"
| "fields_secret_like [] = False"
| "fields_secret_like ((k, v) # fs) =
     (secret_like_key k \<or> json_contains_secret_like v \<or> fields_secret_like fs)"
| "values_secret_like [] = False"
| "values_secret_like (v # vs) = (json_contains_secret_like v \<or> values_secret_like vs)"

subsection \<open>Events\<close>

definition MAX_SIGNIFICANT_EVENTS_PER_OBJECT :: nat where "MAX_SIGNIFICANT_EVENTS_PER_OBJECT = 512"
definition MAX_SIGNIFICANT_EVENT_KIND_BYTES :: nat where "MAX_SIGNIFICANT_EVENT_KIND_BYTES = 128"
definition MAX_SIGNIFICANT_EVENT_REASON_BYTES :: nat where "MAX_SIGNIFICANT_EVENT_REASON_BYTES = 256"
definition MAX_SIGNIFICANT_EVENT_REF_BYTES :: nat where "MAX_SIGNIFICANT_EVENT_REF_BYTES = 512"
definition MAX_SIGNIFICANT_EVENT_SUMMARY_BYTES :: nat where "MAX_SIGNIFICANT_EVENT_SUMMARY_BYTES = 1024"
definition MAX_SIGNIFICANT_EVENT_DATA_BYTES :: nat where "MAX_SIGNIFICANT_EVENT_DATA_BYTES = 4096"
definition MAX_SIGNIFICANT_EVENT_PAGE :: u16 where "MAX_SIGNIFICANT_EVENT_PAGE = 200"

record NewSignificantEvent =
  ne_object_kind :: EventObjectKind
  ne_object_ref :: string
  ne_principal :: "Principal option"
  ne_event_kind :: string
  ne_reason_code :: "string option"
  ne_source_ref :: "string option"
  ne_safe_summary :: "string option"
  ne_safe_data :: json
  ne_occurred_at_ms :: int

record SignificantEvent =
  sg_object_kind :: EventObjectKind
  sg_object_ref :: string
  sg_sequence :: nat
  sg_principal :: "Principal option"
  sg_event_kind :: string
  sg_reason_code :: "string option"
  sg_source_ref :: "string option"
  sg_safe_summary :: "string option"
  sg_safe_data :: json
  sg_occurred_at_ms :: int

record SignificantEventPage =
  pg_events :: "SignificantEvent list"
  pg_retained_from_sequence :: "nat option"
  pg_latest_sequence :: nat
  pg_gap_before_page :: bool
  pg_next_sequence :: "nat option"

type_synonym events = "SignificantEvent list"

definition event_validate_nonempty :: "string \<Rightarrow> nat \<Rightarrow> string \<Rightarrow> StateError + unit" where
  "event_validate_nonempty v max_len field =
     (if trim_is_empty v \<or> max_len < length v \<or> contains_char v line_breaks
      then Err (InvalidEventState (field @ '' is invalid'')) else Ok ())"

definition event_validate_optional :: "string option \<Rightarrow> nat \<Rightarrow> string \<Rightarrow> StateError + unit" where
  "event_validate_optional v max_len field =
     (case v of Some s \<Rightarrow> event_validate_nonempty s max_len field | None \<Rightarrow> Ok ())"

definition event_texts :: "NewSignificantEvent \<Rightarrow> string list" where
  "event_texts e =
     List.map_filter id
       [Some (ne_object_ref e), Some (ne_event_kind e), ne_reason_code e, ne_source_ref e, ne_safe_summary e]"

definition encode_data ::
  "(json \<Rightarrow> string option) \<Rightarrow> string \<Rightarrow> json \<Rightarrow> StateError + unit" where
  "encode_data to_json too_big d =
     and_then (ok_or (to_json d) (InvalidEventState ''event data is not serializable'')) (\<lambda>encoded.
     if MAX_SIGNIFICANT_EVENT_DATA_BYTES < length encoded then Err (InvalidEventState too_big) else Ok ())"

definition validate_event :: "(json \<Rightarrow> string option) \<Rightarrow> NewSignificantEvent \<Rightarrow> StateError + unit" where
  "validate_event to_json e =
     and_then (event_validate_nonempty (ne_object_ref e) MAX_SIGNIFICANT_EVENT_REF_BYTES ''object reference'') (\<lambda>_.
     and_then (event_validate_nonempty (ne_event_kind e) MAX_SIGNIFICANT_EVENT_KIND_BYTES ''event kind'') (\<lambda>_.
     and_then (event_validate_optional (ne_reason_code e) MAX_SIGNIFICANT_EVENT_REASON_BYTES ''reason code'') (\<lambda>_.
     and_then (event_validate_optional (ne_source_ref e) MAX_SIGNIFICANT_EVENT_REF_BYTES ''source reference'') (\<lambda>_.
     and_then (event_validate_optional (ne_safe_summary e) MAX_SIGNIFICANT_EVENT_SUMMARY_BYTES ''safe summary'') (\<lambda>_.
     and_then (try_each (\<lambda>v.
         if secret_like_text v then Err (InvalidEventState ''significant event contains secret-like text'')
         else Ok ()) (event_texts e)) (\<lambda>_.
     if json_contains_secret_like (ne_safe_data e)
     then Err (InvalidEventState ''significant event safe data contains secret-like material'')
     else encode_data to_json ''event data exceeds bounded size'' (ne_safe_data e)))))))"

subsection \<open>The table\<close>

definition of_object :: "EventObjectKind \<Rightarrow> string \<Rightarrow> SignificantEvent \<Rightarrow> bool" where
  "of_object k r e \<longleftrightarrow> sg_object_kind e = k \<and> sg_object_ref e = r"

definition object_events :: "events \<Rightarrow> EventObjectKind \<Rightarrow> string \<Rightarrow> SignificantEvent list" where
  "object_events evs k r = filter (of_object k r) evs"

definition max_sequence :: "SignificantEvent list \<Rightarrow> nat option" where
  "max_sequence evs = (case map sg_sequence evs of [] \<Rightarrow> None | s # ss \<Rightarrow> Some (fold max ss s))"

definition min_sequence :: "SignificantEvent list \<Rightarrow> nat option" where
  "min_sequence evs = (case map sg_sequence evs of [] \<Rightarrow> None | s # ss \<Rightarrow> Some (fold min ss s))"

definition next_sequence :: "events \<Rightarrow> EventObjectKind \<Rightarrow> string \<Rightarrow> nat" where
  "next_sequence evs k r =
     (case max_sequence (object_events evs k r) of None \<Rightarrow> 0 | Some m \<Rightarrow> m) + 1"

definition event_row :: "NewSignificantEvent \<Rightarrow> nat \<Rightarrow> SignificantEvent" where
  "event_row e n =
     \<lparr>sg_object_kind = ne_object_kind e, sg_object_ref = ne_object_ref e, sg_sequence = n,
      sg_principal = ne_principal e, sg_event_kind = ne_event_kind e, sg_reason_code = ne_reason_code e,
      sg_source_ref = ne_source_ref e, sg_safe_summary = ne_safe_summary e,
      sg_safe_data = ne_safe_data e, sg_occurred_at_ms = ne_occurred_at_ms e\<rparr>"

definition insert_significant_event_tx ::
  "(json \<Rightarrow> string option) \<Rightarrow> events \<Rightarrow> NewSignificantEvent \<Rightarrow> nat \<Rightarrow> StateError + events" where
  "insert_significant_event_tx to_json evs e sequence =
     and_then (validate_event to_json e) (\<lambda>_.
     and_then (encode_data to_json ''significant event data exceeds bounded size'' (ne_safe_data e)) (\<lambda>_.
     let n = i64_of_u64 sequence in
     if n < 1 \<or> list_ex (\<lambda>x. sg_sequence x = n) (object_events evs (ne_object_kind e) (ne_object_ref e))
     then Err StateSqlite
     else Ok (evs @ [event_row e n])))"

definition prune_object_tx :: "events \<Rightarrow> EventObjectKind \<Rightarrow> string \<Rightarrow> nat \<Rightarrow> events" where
  "prune_object_tx evs k r latest =
     (let cutoff = latest - MAX_SIGNIFICANT_EVENTS_PER_OBJECT in
      if cutoff = 0 then evs
      else filter (\<lambda>x. \<not> (of_object k r x \<and> sg_sequence x \<le> i64_of_u64 cutoff)) evs)"

definition append_significant_event ::
  "(json \<Rightarrow> string option) \<Rightarrow> events \<Rightarrow> NewSignificantEvent
    \<Rightarrow> events \<times> (StateError + SignificantEvent)" where
  "append_significant_event to_json evs e =
     (case and_then (validate_event to_json e) (\<lambda>_.
        let sequence = next_sequence evs (ne_object_kind e) (ne_object_ref e) in
        if i64_max < int sequence then Err StateSqlite
        else and_then (insert_significant_event_tx to_json evs e sequence) (\<lambda>evs'.
          Ok (prune_object_tx evs' (ne_object_kind e) (ne_object_ref e) sequence, event_row e sequence))) of
        Inl err \<Rightarrow> (evs, Err err)
      | Inr (evs', row) \<Rightarrow> (evs', Ok row))"

definition significant_events_for_object ::
  "events \<Rightarrow> EventObjectKind \<Rightarrow> string \<Rightarrow> nat option \<Rightarrow> u16 \<Rightarrow> StateError + SignificantEventPage" where
  "significant_events_for_object evs k r after_sequence limit =
     (if trim_is_empty r \<or> MAX_SIGNIFICANT_EVENT_REF_BYTES < length r
      then Err (InvalidEventState ''event object reference is invalid'')
      else if limit = 0 \<or> MAX_SIGNIFICANT_EVENT_PAGE < limit
      then Err (InvalidEventState ''significant event limit must be between 1 and 200'')
      else
        let mine = object_events evs k r;
            retained = min_sequence mine;
            latest = max_sequence mine;
            after = i64_of_u64 (case after_sequence of None \<Rightarrow> 0 | Some a \<Rightarrow> a);
            rows = take (unat limit + 1) (sort_key sg_sequence (filter (\<lambda>x. after < sg_sequence x) mine));
            has_more = unat limit < length rows;
            page = take (unat limit) rows;
            gap = (case (after_sequence, retained) of
                     (Some a, Some first) \<Rightarrow> sat_add_u64 a 1 < first | _ \<Rightarrow> False)
        in Ok \<lparr>pg_events = page, pg_retained_from_sequence = retained,
               pg_latest_sequence = (case latest of None \<Rightarrow> 0 | Some m \<Rightarrow> m),
               pg_gap_before_page = gap,
               pg_next_sequence = (if has_more \<and> page \<noteq> [] then Some (sg_sequence (last page)) else None)\<rparr>)"

end
