(* ===== verification/Pagination.thy ===== *)
theory Pagination
  imports Rust_Prelude
begin

section \<open>Walking a paged query\<close>

text \<open>
  Every list operation of the runtime answers one page and, when the page is not the last, a cursor
  to continue from. \<open>follow\<close> is a client that continues until no cursor is returned, with fuel for
  the number of requests. The locale \<open>paged_query\<close> is the contract of such an operation; its
  lemma says that the walk delivers the whole result, every row once and in order.
\<close>

fun follow :: "nat \<Rightarrow> ('c option \<Rightarrow> 'a list \<times> 'c option) \<Rightarrow> 'c option \<Rightarrow> 'a list option" where
  "follow 0 page c = None"
| "follow (Suc n) page c =
     (case page c of
        (xs, None) \<Rightarrow> Some xs
      | (xs, Some c') \<Rightarrow> map_option ((@) xs) (follow n page (Some c')))"

definition page_of :: "nat \<Rightarrow> ('a \<Rightarrow> 'c) \<Rightarrow> 'a list \<Rightarrow> 'a list \<times> 'c option" where
  "page_of n cursor rest =
     (take n rest, if n < length rest then Some (cursor (last (take n rest))) else None)"

locale paged_query =
  fixes ok :: "'q \<Rightarrow> bool"
    and rows :: "'q \<Rightarrow> 'a list"
    and limit :: "'q \<Rightarrow> nat"
    and cursor :: "'a \<Rightarrow> 'c"
    and beyond :: "'q \<Rightarrow> 'c \<Rightarrow> 'a \<Rightarrow> bool"
    and page :: "'q \<Rightarrow> 'c option \<Rightarrow> 'a list \<times> 'c option"
  assumes limit_pos: "ok q \<Longrightarrow> 0 < limit q"
    and first_page: "ok q \<Longrightarrow> page q None = page_of (limit q) cursor (rows q)"
    and later_page:
      "ok q \<Longrightarrow> page q (Some c) = page_of (limit q) cursor (filter (beyond q c) (rows q))"
    and beyond_cursor:
      "ok q \<Longrightarrow> rows q = xs @ y # ys \<Longrightarrow> filter (beyond q (cursor y)) (rows q) = ys"
begin

lemma follow_page_of:
  assumes "ok q" and "rows q = xs @ rest" and "length rest < n"
    and "page q c = page_of (limit q) cursor rest"
  shows "follow n (page q) c = Some rest"
  using assms(2-4)
proof (induction n arbitrary: xs rest c)
  case (Suc n)
  show ?case
  proof (cases "limit q < length rest")
    case False
    then show ?thesis using Suc.prems(3) by (simp add: page_of_def)
  next
    case True
    have pos: "0 < limit q" using assms(1) by (rule limit_pos)
    let ?front = "take (limit q) rest" and ?rest = "drop (limit q) rest"
    have ne: "?front \<noteq> []" using True pos by auto
    have split: "rows q = (xs @ butlast ?front) @ last ?front # ?rest"
      using Suc.prems(1) ne by (metis append.assoc append_Cons append_Nil append_butlast_last_id append_take_drop_id)
    have tail: "page q (Some (cursor (last ?front))) = page_of (limit q) cursor ?rest"
      using later_page [OF assms(1)] beyond_cursor [OF assms(1) split] by simp
    have "follow n (page q) (Some (cursor (last ?front))) = Some ?rest"
    proof (rule Suc.IH [OF _ _ tail])
      show "rows q = (xs @ ?front) @ ?rest" using Suc.prems(1) by simp
      show "length ?rest < n" using Suc.prems(2) True pos by simp
    qed
    then show ?thesis using Suc.prems(3) True by (simp add: page_of_def)
  qed
qed simp

lemma follow_all: "ok q \<Longrightarrow> length (rows q) < n \<Longrightarrow> follow n (page q) None = Some (rows q)"
  using follow_page_of [of q "[]"] first_page by simp

lemma follow_after:
  assumes "ok q" and "rows q = xs @ y # ys" and "length ys < n"
  shows "follow n (page q) (Some (cursor y)) = Some ys"
  using follow_page_of [of q "xs @ [y]" ys n] later_page beyond_cursor assms by simp

end

end
