(* ===== verification/Event_Properties.thy ===== *)
theory Event_Properties
  imports Event_Store Pagination
begin

section \<open>The event log of an object\<close>

text \<open>
  The invariant of the event table: the retained events of one object carry consecutive sequence
  numbers, at most \<open>MAX_SIGNIFICANT_EVENTS_PER_OBJECT\<close> of them. Appending keeps it, touches no
  other object, and the paged query walks the log without loss.
\<close>

definition sequences :: "events \<Rightarrow> EventObjectKind \<Rightarrow> string \<Rightarrow> nat list" where
  "sequences evs k r = map sg_sequence (object_events evs k r)"

definition object_log_wf :: "events \<Rightarrow> EventObjectKind \<Rightarrow> string \<Rightarrow> bool" where
  "object_log_wf evs k r \<longleftrightarrow>
     (\<exists>lo hi. sequences evs k r = [Suc lo..<Suc hi] \<and> hi \<le> lo + MAX_SIGNIFICANT_EVENTS_PER_OBJECT
        \<and> hi \<le> nat i64_max)"

definition events_wf :: "events \<Rightarrow> bool" where
  "events_wf evs \<longleftrightarrow> (\<forall>k r. object_log_wf evs k r)"

definition latest_sequence :: "events \<Rightarrow> EventObjectKind \<Rightarrow> string \<Rightarrow> nat" where
  "latest_sequence evs k r = (case max_sequence (object_events evs k r) of None \<Rightarrow> 0 | Some m \<Rightarrow> m)"

definition newest :: "nat \<Rightarrow> 'a list \<Rightarrow> 'a list" where
  "newest n xs = drop (length xs - n) xs"

lemma next_sequence_latest: "next_sequence evs k r = latest_sequence evs k r + 1"
  by (simp add: next_sequence_def latest_sequence_def)

subsection \<open>Sequences\<close>

lemma fold_max_upt: "a < b \<Longrightarrow> fold max [Suc a..<b] a = b - 1"
proof (induction b)
  case (Suc b)
  then show ?case by (cases "a < b") auto
qed simp

lemma fold_min_upt: "fold min [Suc a..<b] a = a"
proof (induction b)
  case (Suc b)
  then show ?case by (cases "Suc a \<le> b") auto
qed simp

lemma max_sequence_upt:
  assumes "map sg_sequence xs = [Suc lo..<Suc hi]"
  shows "max_sequence xs = (if lo < hi then Some hi else None)"
proof (cases "lo < hi")
  case True
  then have "map sg_sequence xs = Suc lo # [Suc (Suc lo)..<Suc hi]"
    using assms by (simp add: upt_conv_Cons)
  then show ?thesis
    using True fold_max_upt [of "Suc lo" "Suc hi"] by (simp add: max_sequence_def del: upt_Suc)
next
  case False
  then show ?thesis using assms by (simp add: max_sequence_def)
qed

lemma min_sequence_upt:
  assumes "map sg_sequence xs = [Suc lo..<Suc hi]"
  shows "min_sequence xs = (if lo < hi then Some (Suc lo) else None)"
proof (cases "lo < hi")
  case True
  then have "map sg_sequence xs = Suc lo # [Suc (Suc lo)..<Suc hi]"
    using assms by (simp add: upt_conv_Cons)
  then show ?thesis
    using True fold_min_upt [of "Suc lo" "Suc hi"] by (simp add: min_sequence_def del: upt_Suc)
next
  case False
  then show ?thesis using assms by (simp add: min_sequence_def)
qed

lemma filter_gt_upt: "filter ((<) c) [Suc lo..<Suc hi] = [Suc (max lo c)..<Suc hi]"
  by (induction hi) (auto simp: max_def)

lemma filter_gt_drop:
  "map f xs = [Suc lo..<Suc hi] \<Longrightarrow> filter (\<lambda>x. c < f x) xs = drop (c - lo) xs"
proof (induction xs arbitrary: lo)
  case (Cons x xs)
  then have "lo < hi" by (cases "lo < hi") auto
  then have x: "f x = Suc lo" and xs: "map f xs = [Suc (Suc lo)..<Suc hi]"
    using Cons.prems by (simp_all add: upt_conv_Cons del: upt_Suc)
  show ?case
    using Cons.IH [OF xs] x by (cases "c \<le> lo") (simp_all add: drop_Cons' not_le)
qed simp

subsection \<open>Rows of one object\<close>

lemma object_events_append [simp]:
  "object_events (evs @ evs') k r = object_events evs k r @ object_events evs' k r"
  by (simp add: object_events_def)

lemma object_events_row:
  "object_events [event_row e n] k r =
     (if k = ne_object_kind e \<and> r = ne_object_ref e then [event_row e n] else [])"
  by (auto simp: object_events_def of_object_def event_row_def)

lemma object_events_prune:
  "object_events (prune_object_tx evs k r n) k' r' =
     (if k' = k \<and> r' = r
      then filter (\<lambda>x. i64_of_u64 (n - MAX_SIGNIFICANT_EVENTS_PER_OBJECT) < sg_sequence x
                        \<or> n \<le> MAX_SIGNIFICANT_EVENTS_PER_OBJECT) (object_events evs k r)
      else object_events evs k' r')"
  by (auto simp: object_events_def of_object_def prune_object_tx_def Let_def intro!: filter_cong)

lemma sg_sequence_row [simp]: "sg_sequence (event_row e n) = n"
  by (simp add: event_row_def)

text \<open>Inserting the next event and pruning: what both \<open>append_significant_event\<close> and the task
  transitions do.\<close>

lemma insert_event_Ok:
  assumes "insert_significant_event_tx to_json evs e n = Ok evs'"
  shows "validate_event to_json e = Ok ()" "evs' = evs @ [event_row e (i64_of_u64 n)]"
  using assms by (auto simp: insert_significant_event_tx_def result_simps Let_def split: if_splits)

lemma insert_prune_log:
  assumes wf: "events_wf evs"
    and ins: "insert_significant_event_tx to_json evs e n = Ok evs'"
    and n: "n = latest_sequence evs (ne_object_kind e) (ne_object_ref e) + 1" "n \<le> nat i64_max"
  defines "evs'' \<equiv> prune_object_tx evs' (ne_object_kind e) (ne_object_ref e) n"
  shows "events_wf evs''"
    and "latest_sequence evs'' (ne_object_kind e) (ne_object_ref e) = n"
    and "(k, r) \<noteq> (ne_object_kind e, ne_object_ref e) \<Longrightarrow> object_events evs'' k r = object_events evs k r"
    and "object_events evs'' (ne_object_kind e) (ne_object_ref e)
      = newest MAX_SIGNIFICANT_EVENTS_PER_OBJECT
          (object_events evs (ne_object_kind e) (ne_object_ref e) @ [event_row e n])"
proof -
  let ?k = "ne_object_kind e" and ?r = "ne_object_ref e"
  let ?old = "object_events evs ?k ?r" and ?cut = "n - MAX_SIGNIFICANT_EVENTS_PER_OBJECT"
  obtain lo hi where seqs: "map sg_sequence ?old = [Suc lo..<Suc hi]"
    and lohi: "hi \<le> lo + MAX_SIGNIFICANT_EVENTS_PER_OBJECT"
    using wf unfolding events_wf_def object_log_wf_def sequences_def by metis
  have n_hi: "n = Suc (if lo < hi then hi else 0)"
    using n(1) max_sequence_upt [OF seqs] by (simp add: latest_sequence_def)
  have evs': "evs' = evs @ [event_row e n]"
    using insert_event_Ok(2) [OF ins] n(2) by (simp add: i64_of_u64_def)
  have cut: "i64_of_u64 ?cut = ?cut" using n(2) by (simp add: i64_of_u64_def)
  define lo' where "lo' = (if lo < hi then lo else 0)"
  have all: "map sg_sequence (?old @ [event_row e n]) = [Suc lo'..<Suc n]"
    using seqs n_hi by (auto simp: lo'_def)
  have same: "object_events evs'' ?k ?r = drop (?cut - lo') (?old @ [event_row e n])"
  proof -
    have pos: "0 < sg_sequence x" if "x \<in> set (?old @ [event_row e n])" for x
      using that all by (metis (no_types) image_eqI image_set atLeastLessThan_iff set_upt Suc_le_lessD gr_zeroI not_less0)
    have "object_events evs'' ?k ?r
        = filter (\<lambda>x. i64_of_u64 ?cut < sg_sequence x \<or> n \<le> MAX_SIGNIFICANT_EVENTS_PER_OBJECT)
            (?old @ [event_row e n])"
      by (simp add: evs''_def evs' object_events_prune object_events_row)
    also have "\<dots> = filter (\<lambda>x. ?cut < sg_sequence x) (?old @ [event_row e n])"
      using pos cut n_hi by (intro filter_cong refl) auto
    also have "\<dots> = drop (?cut - lo') (?old @ [event_row e n])"
      by (rule filter_gt_drop [OF all])
    finally show ?thesis .
  qed
  show other: "object_events evs'' k r = object_events evs k r"
    if "(k, r) \<noteq> (?k, ?r)" for k r
    using that by (auto simp: evs''_def evs' object_events_prune object_events_row)
  have "length (?old @ [event_row e n]) = n - lo'"
    using arg_cong [OF all, of length] by (simp del: upt_Suc)
  moreover have "?cut - lo' = n - lo' - MAX_SIGNIFICANT_EVENTS_PER_OBJECT" by simp
  ultimately have "?cut - lo' = length (?old @ [event_row e n]) - MAX_SIGNIFICANT_EVENTS_PER_OBJECT"
    by simp
  then show "object_events evs'' ?k ?r = newest MAX_SIGNIFICANT_EVENTS_PER_OBJECT (?old @ [event_row e n])"
    unfolding same newest_def by metis
  have same_seq: "sequences evs'' ?k ?r = [Suc (lo' + (?cut - lo'))..<Suc n]"
    unfolding sequences_def same drop_map [symmetric] all by (simp add: drop_upt del: upt_Suc)
  have "lo' + (?cut - lo') < n"
    using n_hi by (auto simp: lo'_def MAX_SIGNIFICANT_EVENTS_PER_OBJECT_def)
  then show "latest_sequence evs'' ?k ?r = n"
    using max_sequence_upt same_seq by (simp add: latest_sequence_def sequences_def del: upt_Suc)
  have "object_log_wf evs'' ?k ?r"
    unfolding object_log_wf_def same_seq
    by (intro exI [of _ "lo' + (?cut - lo')"] exI [of _ n] conjI) (use n(2) in simp_all)
  moreover have "object_log_wf evs'' k r" if "(k, r) \<noteq> (?k, ?r)" for k r
    using wf other [OF that] by (simp add: events_wf_def object_log_wf_def sequences_def)
  ultimately have "object_log_wf evs'' k r" for k r
    by (cases "(k, r) = (?k, ?r)") simp_all
  then show "events_wf evs''" by (simp add: events_wf_def)
qed


lemma append_event_cases:
  assumes "append_significant_event to_json evs e = (evs', res)"
  obtains (failed) err where "evs' = evs" "res = Err err"
  | (stored) n evs1 where "n = latest_sequence evs (ne_object_kind e) (ne_object_ref e) + 1"
      "n \<le> nat i64_max" "insert_significant_event_tx to_json evs e n = Ok evs1"
      "evs' = prune_object_tx evs1 (ne_object_kind e) (ne_object_ref e) n" "res = Ok (event_row e n)"
proof (cases res)
  case (Inl err)
  then show ?thesis
    using assms by (intro failed) (auto simp: append_significant_event_def split: sum.splits)
next
  case (Inr row)
  then obtain evs1 where
    "latest_sequence evs (ne_object_kind e) (ne_object_ref e) + 1 \<le> nat i64_max"
    "insert_significant_event_tx to_json evs e
       (latest_sequence evs (ne_object_kind e) (ne_object_ref e) + 1) = Ok evs1"
    "evs' = prune_object_tx evs1 (ne_object_kind e) (ne_object_ref e)
       (latest_sequence evs (ne_object_kind e) (ne_object_ref e) + 1)"
    "res = Ok (event_row e (latest_sequence evs (ne_object_kind e) (ne_object_ref e) + 1))"
    using assms
    by (auto simp: append_significant_event_def next_sequence_latest result_simps Let_def
        split: sum.splits if_splits)
  then show ?thesis by (rule stored [OF refl])
qed

subsection \<open>Properties of the store\<close>

text \<open>C32. Appending a significant event keeps the log of every object well formed (consecutive
  sequence numbers, at most 512 retained). On an error the table is unchanged; on success the new
  event carries the successor of the latest sequence number of its object, that object retains
  exactly its 512 newest events and no other object's log is touched.
\<close>

theorem event_append_log:
  assumes "events_wf evs" and "append_significant_event to_json evs e = (evs', res)"
  shows "events_wf evs' \<and>
    (case res of
       Inl err \<Rightarrow> evs' = evs
     | Inr row \<Rightarrow>
         row = event_row e (latest_sequence evs (ne_object_kind e) (ne_object_ref e) + 1) \<and>
         (\<forall>k r. object_events evs' k r =
            (if k = ne_object_kind e \<and> r = ne_object_ref e
             then newest MAX_SIGNIFICANT_EVENTS_PER_OBJECT (object_events evs k r @ [row])
             else object_events evs k r)))"
  using assms(2)
proof (cases rule: append_event_cases)
  case (failed err)
  then show ?thesis using assms(1) by simp
next
  case (stored n evs1)
  note log = insert_prune_log [OF assms(1) stored(3,1,2), folded stored(4)]
  then show ?thesis using stored(1,5) by auto
qed

definition event_safe :: "SignificantEvent \<Rightarrow> bool" where
  "event_safe x \<longleftrightarrow>
     \<not> list_ex secret_like_text
       (List.map_filter id [Some (sg_object_ref x), Some (sg_event_kind x), sg_reason_code x,
          sg_source_ref x, sg_safe_summary x])
     \<and> \<not> json_contains_secret_like (sg_safe_data x)
     \<and> length (sg_object_ref x) \<le> MAX_SIGNIFICANT_EVENT_REF_BYTES
     \<and> length (sg_event_kind x) \<le> MAX_SIGNIFICANT_EVENT_KIND_BYTES
     \<and> pred_option (\<lambda>s. length s \<le> MAX_SIGNIFICANT_EVENT_REASON_BYTES) (sg_reason_code x)
     \<and> pred_option (\<lambda>s. length s \<le> MAX_SIGNIFICANT_EVENT_REF_BYTES) (sg_source_ref x)
     \<and> pred_option (\<lambda>s. length s \<le> MAX_SIGNIFICANT_EVENT_SUMMARY_BYTES) (sg_safe_summary x)"

lemma event_validate_nonempty_Ok:
  "event_validate_nonempty v n fld = Ok u \<longleftrightarrow>
     \<not> trim_is_empty v \<and> length v \<le> n \<and> \<not> contains_char v line_breaks"
  by (auto simp: event_validate_nonempty_def)

lemma event_validate_optional_Ok:
  "event_validate_optional v n fld = Ok u \<longleftrightarrow>
     pred_option (\<lambda>s. \<not> trim_is_empty s \<and> length s \<le> n \<and> \<not> contains_char s line_breaks) v"
  by (cases v) (simp_all add: event_validate_optional_def event_validate_nonempty_Ok)

lemma validate_event_safe:
  assumes "validate_event to_json e = Ok u"
  shows "event_safe (event_row e n)"
  using assms
  by (auto simp: validate_event_def result_simps event_safe_def event_row_def event_texts_def
      event_validate_nonempty_Ok event_validate_optional_Ok list_ex_iff option.pred_set
      split: if_splits)

lemma prune_subset: "set (prune_object_tx evs k r n) \<subseteq> set evs"
  by (auto simp: prune_object_tx_def Let_def)

lemma insert_prune_safe:
  assumes "list_all event_safe evs" and "insert_significant_event_tx to_json evs e n = Ok evs'"
  shows "list_all event_safe (prune_object_tx evs' k r m)"
proof -
  have "list_all event_safe evs'"
    using assms insert_event_Ok [OF assms(2)] validate_event_safe by simp
  then show ?thesis using prune_subset by (force simp: list_all_iff)
qed

text \<open>No event in the store carries secret-like material: appending keeps the property that
  every text of every stored event and every key and string of its JSON data passes the secret
  filter and that every text is within its byte bound.
\<close>

theorem event_store_secret_free:
  assumes "list_all event_safe evs"
  shows "list_all event_safe (fst (append_significant_event to_json evs e))"
proof (cases "append_significant_event to_json evs e")
  case (Pair evs' res)
  then show ?thesis
  proof (cases rule: append_event_cases)
    case (stored n evs1)
    then show ?thesis using Pair insert_prune_safe assms by simp
  qed (use Pair assms in simp)
qed

subsection \<open>Paging\<close>

definition event_page ::
  "events \<times> EventObjectKind \<times> string \<times> u16 \<Rightarrow> nat option \<Rightarrow> SignificantEvent list \<times> nat option" where
  "event_page q after =
     (case q of (evs, k, r, limit) \<Rightarrow>
       case significant_events_for_object evs k r after limit of
         Inl _ \<Rightarrow> ([], None) | Inr p \<Rightarrow> (pg_events p, pg_next_sequence p))"

definition event_query_ok :: "events \<times> EventObjectKind \<times> string \<times> u16 \<Rightarrow> bool" where
  "event_query_ok q =
     (case q of (evs, k, r, limit) \<Rightarrow>
       events_wf evs \<and> \<not> trim_is_empty r \<and> length r \<le> MAX_SIGNIFICANT_EVENT_REF_BYTES
       \<and> limit \<noteq> 0 \<and> limit \<le> MAX_SIGNIFICANT_EVENT_PAGE)"

lemma object_log_wfE:
  assumes "events_wf evs"
  obtains lo hi where "map sg_sequence (object_events evs k r) = [Suc lo..<Suc hi]"
    "hi \<le> lo + MAX_SIGNIFICANT_EVENTS_PER_OBJECT" "hi \<le> nat i64_max"
  using assms unfolding events_wf_def object_log_wf_def sequences_def by metis

lemma events_sorted:
  assumes "events_wf evs"
  shows "sorted_wrt (\<lambda>x y. sg_sequence x < sg_sequence y) (object_events evs k r)"
proof -
  obtain lo hi where "map sg_sequence (object_events evs k r) = [Suc lo..<Suc hi]"
    using assms by (rule object_log_wfE)
  then have "sorted_wrt (<) (map sg_sequence (object_events evs k r))" by (simp del: upt_Suc)
  then show ?thesis by (simp add: sorted_wrt_map)
qed

lemma event_sequence_bounds:
  assumes "events_wf evs" and "x \<in> set (object_events evs k r)"
  shows "0 < sg_sequence x \<and> sg_sequence x \<le> nat i64_max"
proof -
  obtain lo hi where seqs: "map sg_sequence (object_events evs k r) = [Suc lo..<Suc hi]"
    and hi: "hi \<le> nat i64_max"
    using assms(1) by (rule object_log_wfE)
  have "sg_sequence x \<in> set [Suc lo..<Suc hi]"
    using assms(2) unfolding seqs [symmetric] by simp
  then show ?thesis using hi by auto
qed

lemmas event_sequence_pos = event_sequence_bounds [THEN conjunct1]
lemmas event_sequence_bound = event_sequence_bounds [THEN conjunct2]

lemma filter_sorted_id:
  assumes "events_wf evs"
  shows "sort_key sg_sequence (filter P (object_events evs k r)) = filter P (object_events evs k r)"
proof (rule sort_key_id_if_sorted)
  have "sorted_wrt (\<lambda>x y. sg_sequence x < sg_sequence y) (filter P (object_events evs k r))"
    using events_sorted [OF assms] by (rule sorted_wrt_filter)
  then show "sorted (map sg_sequence (filter P (object_events evs k r)))"
    by (auto simp: sorted_wrt_map elim: sorted_wrt_mono_rel [rotated])
qed

lemma unat_pos_iff: "(0 < unat (w :: 'a::len word)) = (w \<noteq> 0)"
  by (simp add: unat_gt_0)

lemma page_of_take:
  assumes "0 < n"
  shows "page_of n f xs =
    (take n (take (n + 1) xs),
     if n < length (take (n + 1) xs) \<and> take n (take (n + 1) xs) \<noteq> []
     then Some (f (last (take n (take (n + 1) xs)))) else None)"
  using assms by (auto simp: page_of_def min_def)

lemma event_page_eq:
  assumes "event_query_ok (evs, k, r, limit)"
  shows "event_page (evs, k, r, limit) after =
    page_of (unat limit) sg_sequence
      (filter (\<lambda>x. i64_of_u64 (case after of None \<Rightarrow> 0 | Some a \<Rightarrow> a) < sg_sequence x)
         (object_events evs k r))"
proof -
  have "0 < unat limit" and wf: "events_wf evs"
    using assms by (auto simp: event_query_ok_def unat_pos_iff)
  then show ?thesis
    using assms
    by (auto simp: event_page_def event_query_ok_def significant_events_for_object_def Let_def
        filter_sorted_id [OF wf] page_of_take not_less)
qed

interpretation event_log: paged_query
  event_query_ok "\<lambda>(evs, k, r, _). object_events evs k r" "\<lambda>(_, _, _, limit). unat limit"
  sg_sequence "\<lambda>_ a x. i64_of_u64 a < sg_sequence x" event_page
proof (unfold_locales, goal_cases)
  case (1 q)
  then show ?case by (cases q) (auto simp: event_query_ok_def unat_pos_iff)
next
  case (2 q)
  obtain evs k r limit where q: "q = (evs, k, r, limit)" by (cases q)
  have "0 < sg_sequence x" if "x \<in> set (object_events evs k r)" for x
    using 2 that by (auto simp: q event_query_ok_def intro: event_sequence_pos)
  then have "filter (\<lambda>x. i64_of_u64 0 < sg_sequence x) (object_events evs k r) = object_events evs k r"
    by (simp add: i64_of_u64_def)
  then show ?case
    using event_page_eq [OF 2 [unfolded q]] by (simp add: q)
next
  case (3 q c)
  then show ?case by (cases q) (simp add: event_page_eq)
next
  case (4 q xs y ys)
  obtain evs k r limit where q: "q = (evs, k, r, limit)" by (cases q)
  have wf: "events_wf evs" using 4(1) by (simp add: q event_query_ok_def)
  have split: "object_events evs k r = xs @ y # ys" using 4(2) by (simp add: q)
  have "sorted_wrt (\<lambda>x y. sg_sequence x < sg_sequence y) (xs @ y # ys)"
    using events_sorted [OF wf, of k r] by (simp add: split)
  moreover have "i64_of_u64 (sg_sequence y) = sg_sequence y"
    using event_sequence_bound [OF wf, of y k r] by (simp add: split i64_of_u64_def)
  ultimately show ?case
    by (auto simp: q split sorted_wrt_append intro!: filter_True filter_False)
qed

text \<open>C34. Reading the event log of an object page by page, from the beginning and following
  \<open>next_sequence\<close> until it is absent, yields exactly the retained events of that object, each
  once and in sequence order; one more request than there are events always suffices.
\<close>

theorem event_pages_complete:
  assumes "events_wf evs" and "\<not> trim_is_empty r" and "length r \<le> MAX_SIGNIFICANT_EVENT_REF_BYTES"
    and "limit \<noteq> 0" and "limit \<le> MAX_SIGNIFICANT_EVENT_PAGE"
  shows "follow (Suc (length (object_events evs k r))) (event_page (evs, k, r, limit)) None
     = Some (object_events evs k r)"
  using event_log.follow_all [of "(evs, k, r, limit)"] assms
  by (simp add: event_query_ok_def del: follow.simps)

text \<open>The flag \<open>gap_before_page\<close> is exact: a reader that continues after sequence number \<open>a\<close> is
  told of a gap exactly when an event after \<open>a\<close> has been pruned from the log before it could be
  read.
\<close>

theorem event_gap_exact:
  assumes "events_wf evs" and "a \<le> u64_max"
    and "significant_events_for_object evs k r (Some a) limit = Ok p"
  shows "pg_gap_before_page p \<longleftrightarrow>
    (\<exists>s. a < s \<and> s \<le> latest_sequence evs k r \<and> s \<notin> set (sequences evs k r))"
proof -
  obtain lo hi where seqs: "map sg_sequence (object_events evs k r) = [Suc lo..<Suc hi]"
    and hi: "hi \<le> nat i64_max"
    using assms(1) by (rule object_log_wfE)
  have small: "nat i64_max < u64_max" by (simp add: i64_max_def u64_max_def)
  have gap: "pg_gap_before_page p \<longleftrightarrow> lo < hi \<and> sat_add_u64 a 1 < Suc lo"
    using assms(3) min_sequence_upt [OF seqs]
    by (auto simp: significant_events_for_object_def Let_def split: if_splits)
  have pruned: "s \<notin> set (sequences evs k r) \<longleftrightarrow> s \<le> lo" if "lo < hi" "s \<le> hi" for s
    using that by (auto simp: sequences_def seqs simp del: upt_Suc)
  have "(\<exists>s. a < s \<and> s \<le> hi \<and> s \<notin> set (sequences evs k r)) \<longleftrightarrow> a < lo" if "lo < hi"
    using that pruned by (metis less_le_trans nat_le_linear not_le)
  moreover have "latest_sequence evs k r = (if lo < hi then hi else 0)"
    using max_sequence_upt [OF seqs] by (simp add: latest_sequence_def)
  moreover have "sat_add_u64 a 1 < Suc lo \<longleftrightarrow> a < lo" if "lo < hi"
    using that hi small assms(2) by (auto simp: sat_add_u64_def)
  ultimately show ?thesis
    unfolding gap by (cases "lo < hi") simp_all
qed


subsection \<open>Witnesses\<close>

definition demo_event :: NewSignificantEvent where
  "demo_event =
     \<lparr>ne_object_kind = ObjTask, ne_object_ref = ''task_1'', ne_principal = None,
      ne_event_kind = ''task.running'', ne_reason_code = Some ''started'', ne_source_ref = None,
      ne_safe_summary = Some ''ready'', ne_safe_data = JObject [(''pid'', JBool True)],
      ne_occurred_at_ms = 5\<rparr>"

definition demo_to_json :: "json \<Rightarrow> string option" where
  "demo_to_json j = Some ''{}''"

definition demo_events :: events where
  "demo_events = [event_row demo_event 1, event_row (demo_event\<lparr>ne_object_ref := ''task_2''\<rparr>) 1,
     event_row demo_event 2]"

lemma demo_event_fields:
  "ne_object_kind demo_event = ObjTask" "ne_object_ref demo_event = ''task_1''"
  "ne_safe_data demo_event = JObject [(''pid'', JBool True)]"
  by (simp_all add: demo_event_def)

lemma demo_events_log:
  "object_events demo_events k r =
     (if k = ObjTask \<and> r = ''task_1'' then [event_row demo_event 1, event_row demo_event 2]
      else if k = ObjTask \<and> r = ''task_2'' then [event_row (demo_event\<lparr>ne_object_ref := ''task_2''\<rparr>) 1]
      else [])"
  by (auto simp: demo_events_def object_events_def of_object_def event_row_def demo_event_def)

lemma demo_append:
  "append_significant_event demo_to_json demo_events demo_event
     = (demo_events @ [event_row demo_event 3], Ok (event_row demo_event 3))"
proof -
  have ok: "validate_event demo_to_json demo_event = Ok ()" by code_simp
  have mine: "object_events demo_events ObjTask ''task_1'' = [event_row demo_event 1, event_row demo_event 2]"
    by (simp add: demo_events_log)
  show ?thesis
    using ok
    by (simp add: append_significant_event_def insert_significant_event_tx_def next_sequence_def
        max_sequence_def mine encode_data_def demo_to_json_def prune_object_tx_def Let_def
        i64_of_u64_def i64_max_def MAX_SIGNIFICANT_EVENTS_PER_OBJECT_def
        MAX_SIGNIFICANT_EVENT_DATA_BYTES_def demo_event_fields numeral_3_eq_3)
qed

lemma demo_events_wf: "events_wf demo_events"
proof -
  have two: "(2 :: nat) \<le> nat i64_max" by (simp add: i64_max_def)
  have "\<exists>hi. sequences demo_events k r = [Suc 0..<Suc hi] \<and> hi \<le> 2" for k r
    by (intro exI [of _ "if k = ObjTask \<and> r = ''task_1'' then 2
          else if k = ObjTask \<and> r = ''task_2'' then 1 else 0"])
      (simp add: sequences_def demo_events_log upt_rec)
  then have "object_log_wf demo_events k r" for k r
    unfolding object_log_wf_def MAX_SIGNIFICANT_EVENTS_PER_OBJECT_def
  proof (elim meta_allE [of _ k] meta_allE [of _ r] exE conjE, intro exI conjI)
    fix hi :: nat
    assume "sequences demo_events k r = [Suc 0..<Suc hi]" "hi \<le> 2"
    then show "sequences demo_events k r = [Suc 0..<Suc hi]" "hi \<le> 0 + 512" "hi \<le> nat i64_max"
      using two by simp_all
  qed
  then show ?thesis by (simp add: events_wf_def)
qed

theorem event_append_log_witness:
  "events_wf (demo_events @ [event_row demo_event 3])
   \<and> latest_sequence demo_events ObjTask ''task_1'' = 2"
  using event_append_log [OF demo_events_wf demo_append]
  by (simp add: event_row_def demo_event_def)

theorem event_store_secret_free_witness:
  "list_all event_safe (demo_events @ [event_row demo_event 3])"
proof -
  have "validate_event demo_to_json demo_event = Ok ()"
    and "validate_event demo_to_json (demo_event\<lparr>ne_object_ref := ''task_2''\<rparr>) = Ok ()"
    by code_simp+
  then have "list_all event_safe demo_events" by (simp add: demo_events_def validate_event_safe)
  from event_store_secret_free [OF this, of demo_to_json demo_event] show ?thesis
    by (simp add: demo_append)
qed

theorem event_pages_complete_witness:
  "follow 3 (event_page (demo_events, ObjTask, ''task_1'', 1)) None
     = Some [event_row demo_event 1, event_row demo_event 2]"
proof -
  have "follow (Suc (length (object_events demo_events ObjTask ''task_1'')))
      (event_page (demo_events, ObjTask, ''task_1'', 1)) None
     = Some (object_events demo_events ObjTask ''task_1'')"
    by (rule event_pages_complete [OF demo_events_wf])
      (simp_all add: MAX_SIGNIFICANT_EVENT_REF_BYTES_def MAX_SIGNIFICANT_EVENT_PAGE_def
        ascii_white_space_def white_space2_def white_space3_def byte_def of_char_def)
  then show ?thesis by (simp add: demo_events_log numeral_3_eq_3 del: follow.simps)
qed

theorem event_gap_exact_witness:
  "\<not> pg_gap_before_page
     \<lparr>pg_events = [event_row demo_event 2], pg_retained_from_sequence = Some 1,
      pg_latest_sequence = 2, pg_gap_before_page = False, pg_next_sequence = None\<rparr>
   \<and> \<not> (\<exists>s. 1 < s \<and> s \<le> latest_sequence demo_events ObjTask ''task_1''
        \<and> s \<notin> set (sequences demo_events ObjTask ''task_1''))"
proof -
  have "significant_events_for_object demo_events ObjTask ''task_1'' (Some 1) 5 =
      Ok \<lparr>pg_events = [event_row demo_event 2], pg_retained_from_sequence = Some 1,
         pg_latest_sequence = 2, pg_gap_before_page = False, pg_next_sequence = None\<rparr>"
    by (simp add: significant_events_for_object_def demo_events_log min_sequence_def max_sequence_def
        MAX_SIGNIFICANT_EVENT_REF_BYTES_def MAX_SIGNIFICANT_EVENT_PAGE_def i64_of_u64_def i64_max_def
        sat_add_u64_def u64_max_def ascii_white_space_def white_space2_def white_space3_def byte_def
        of_char_def)
  from event_gap_exact [OF demo_events_wf _ this] show ?thesis by (simp add: u64_max_def)
qed

end
