(* ===== verification/Task_Store.thy ===== *)
theory Task_Store
  imports Event_Properties
begin

section \<open>Durable tasks\<close>

text \<open>
  \<^verbatim>\<open>portus-state/src/task.rs\<close> with the records of \<^verbatim>\<open>portus-protocol/src/task.rs\<close>. A \<open>TaskId\<close> is
  its text, as the database stores it; a text column whose values the schema restricts to an
  enumeration holds the enumeration. Tables with a text key are ordered maps, tables with a row id
  are lists in insertion order. The constraints of the schema that a caller can violate (primary
  key, unique, foreign key, check) are guards that answer \<open>StateSqlite\<close>; a failed statement or
  transaction leaves the database as it was.
\<close>

definition MAX_TASK_OBJECTIVE_BYTES :: nat where "MAX_TASK_OBJECTIVE_BYTES = 2048"
definition MAX_TASK_TITLE_BYTES :: nat where "MAX_TASK_TITLE_BYTES = 256"
definition MAX_TASK_REASON_BYTES :: nat where "MAX_TASK_REASON_BYTES = 512"
definition MAX_TASK_RESULT_BYTES :: nat where "MAX_TASK_RESULT_BYTES = 2048"
definition MAX_TASK_EVENT_SUMMARY_BYTES :: nat where "MAX_TASK_EVENT_SUMMARY_BYTES = 1024"
definition MAX_TASK_EVENT_DATA_BYTES :: nat where "MAX_TASK_EVENT_DATA_BYTES = 4096"
definition MAX_TASK_REF_BYTES :: nat where "MAX_TASK_REF_BYTES = 512"

subsection \<open>Records\<close>

record ProjectRecord =
  pj_project_ref :: string
  pj_owner :: Principal
  pj_workspace_path :: string
  pj_display_name :: "string option"
  pj_created_at_ms :: int
  pj_updated_at_ms :: int

record SessionReference =
  sr_session_ref :: string
  sr_owner :: Principal
  sr_project_ref :: "string option"
  sr_session_kind :: string
  sr_session_name :: "string option"
  sr_working_directory :: "string option"
  sr_role :: "string option"
  sr_model_name :: "string option"
  sr_status_observation :: "string option"
  sr_created_at_ms :: int
  sr_updated_at_ms :: int

text \<open>The columns that a task row and the protocol's \<open>TaskSummary\<close> share.\<close>

record TaskColumns =
  tk_task_id :: TaskId
  tk_owner :: Principal
  tk_title :: "string option"
  tk_objective_summary :: string
  tk_state :: TaskState
  tk_state_reason :: "string option"
  tk_waiting_reason :: "WaitingReason option"
  tk_project_ref :: "string option"
  tk_session_ref :: "string option"
  tk_parent_task_id :: "TaskId option"
  tk_retry_of_task_id :: "TaskId option"
  tk_requester_surface :: string
  tk_retry_safety :: RetrySafety
  tk_created_at_ms :: int
  tk_started_at_ms :: "int option"
  tk_finished_at_ms :: "int option"
  tk_updated_at_ms :: int
  tk_result_kind :: "TaskResultKind option"
  tk_result_summary :: "string option"
  tk_last_event_sequence :: nat

record TaskRow = TaskColumns +
  tk_cancellation_requested_at_ms :: "int option"

record TaskSummary = TaskColumns +
  ts_attempt_count :: nat
  ts_managed_relationships :: nat
  ts_associated_relationships :: nat

record TaskExecutionRelationship =
  rl_relation_id :: nat
  rl_task_id :: TaskId
  rl_mode :: ExecutionRelationshipMode
  rl_backend_kind :: TaskBackendKind
  rl_backend_ref :: string
  rl_generation_ref :: string
  rl_process_id :: "u32 option"
  rl_correlation_ref :: "string option"
  rl_status :: ExecutionRelationshipStatus
  rl_cancellation_supported :: bool
  rl_reconciliation_supported :: bool
  rl_created_at_ms :: int
  rl_updated_at_ms :: int
  rl_finished_at_ms :: "int option"

record TaskAttempt =
  at_attempt_id :: nat
  at_task_id :: TaskId
  at_attempt_number :: nat
  at_backend_kind :: TaskBackendKind
  at_backend_ref :: string
  at_started_at_ms :: int
  at_retry_safe :: bool
  at_finished_at_ms :: "int option"
  at_outcome :: "string option"
  at_failure_classification :: "string option"
  at_exit_code :: "int option"

record TaskView =
  tv_task :: TaskSummary
  tv_relationships :: "TaskExecutionRelationship list"

record TaskPage =
  tp_items :: "TaskSummary list"
  tp_next_cursor :: "string option"

record TaskEventPage =
  ep_events :: "TaskEvent list"
  ep_retained_from_sequence :: "nat option"
  ep_latest_sequence :: nat
  ep_gap_before_page :: bool
  ep_next_sequence :: "nat option"
  ep_terminal_state :: "TaskState option"

record NewTaskRecord =
  nt_task_id :: TaskId
  nt_owner :: Principal
  nt_title :: "string option"
  nt_objective_summary :: string
  nt_requester_surface :: string
  nt_project_ref :: "string option"
  nt_session_ref :: "string option"
  nt_parent_task_id :: "TaskId option"
  nt_retry_of_task_id :: "TaskId option"
  nt_retry_safety :: RetrySafety
  nt_created_at_ms :: int

record NewExecutionRelationship =
  nr_task_id :: TaskId
  nr_mode :: ExecutionRelationshipMode
  nr_backend_kind :: TaskBackendKind
  nr_backend_ref :: string
  nr_generation_ref :: string
  nr_process_id :: "u32 option"
  nr_correlation_ref :: "string option"
  nr_status :: ExecutionRelationshipStatus
  nr_cancellation_supported :: bool
  nr_reconciliation_supported :: bool
  nr_created_at_ms :: int

record TaskListFilter =
  tf_state :: "TaskState option"
  tf_project_ref :: "string option"

record TaskTransition =
  tt_expected :: TaskState
  tt_next :: TaskState
  tt_state_reason :: "string option"
  tt_waiting_reason :: "WaitingReason option"
  tt_result_kind :: "TaskResultKind option"
  tt_result_summary :: "string option"
  tt_event_kind :: string
  tt_event_summary :: "string option"
  tt_source_ref :: "string option"
  tt_event_data :: json
  tt_occurred_at_ms :: int

record PortusState =
  db_projects :: "(string, ProjectRecord) btree"
  db_sessions :: "(string, SessionReference) btree"
  db_tasks :: "(string, TaskRow) btree"
  db_attempts :: "TaskAttempt list"
  db_relationships :: "TaskExecutionRelationship list"
  db_events :: events

subsection \<open>Helpers\<close>

fun is_terminal :: "TaskState \<Rightarrow> bool" where
  "is_terminal TaskSucceeded = True"
| "is_terminal TaskFailed = True"
| "is_terminal TaskCancelled = True"
| "is_terminal TaskInterrupted = True"
| "is_terminal _ = False"

definition task_validate_nonempty :: "string \<Rightarrow> nat \<Rightarrow> string \<Rightarrow> StateError + unit" where
  "task_validate_nonempty v max_bytes fld =
     (if trim_is_empty v \<or> max_bytes < length v
      then Err (InvalidTaskState (fld @ '' is empty or exceeds '' @ show_nat max_bytes @ '' bytes''))
      else Ok ())"

definition task_validate_optional :: "string option \<Rightarrow> nat \<Rightarrow> string \<Rightarrow> StateError + unit" where
  "task_validate_optional v max_bytes fld =
     (case v of Some s \<Rightarrow> task_validate_nonempty s max_bytes fld | None \<Rightarrow> Ok ())"

definition next_rowid :: "nat list \<Rightarrow> nat" where
  "next_rowid ids = fold max ids 0 + 1"

definition u32_or_max :: "nat \<Rightarrow> nat" where
  "u32_or_max n = min n (2 ^ 32 - 1)"

subsection \<open>Projects and sessions\<close>

definition project_visible :: "PortusState \<Rightarrow> string \<Rightarrow> Principal \<Rightarrow> ProjectRecord option" where
  "project_visible db r p =
     (case bt_get (db_projects db) r of
        Some x \<Rightarrow> if pj_owner x = p then Some x else None
      | None \<Rightarrow> None)"

definition register_project ::
  "PortusState \<Rightarrow> Principal \<Rightarrow> string \<Rightarrow> string \<Rightarrow> string option \<Rightarrow> int
    \<Rightarrow> PortusState \<times> (StateError + ProjectRecord)" where
  "register_project db p r workspace_path display_name now =
     st_then (db,
       and_then (task_validate_nonempty r MAX_TASK_REF_BYTES ''project reference'') (\<lambda>_.
       and_then (task_validate_nonempty workspace_path MAX_TASK_REF_BYTES ''workspace path'') (\<lambda>_.
         task_validate_optional display_name MAX_TASK_TITLE_BYTES ''project display name''))) (\<lambda>db _.
     let db' = (case bt_get (db_projects db) r of
          None \<Rightarrow> db\<lparr>db_projects := bt_insert r
            \<lparr>pj_project_ref = r, pj_owner = p, pj_workspace_path = workspace_path,
             pj_display_name = display_name, pj_created_at_ms = now, pj_updated_at_ms = now\<rparr>
            (db_projects db)\<rparr>
        | Some x \<Rightarrow>
            if pj_owner x = p
            then db\<lparr>db_projects := bt_insert r
              (x\<lparr>pj_workspace_path := workspace_path, pj_display_name := display_name,
                 pj_updated_at_ms := now\<rparr>) (db_projects db)\<rparr>
            else db)
     in (db', ok_or (project_visible db' r p)
               (InvalidTaskState ''project reference belongs to another principal'')))"

definition session_visible :: "PortusState \<Rightarrow> string \<Rightarrow> Principal \<Rightarrow> SessionReference option" where
  "session_visible db r p =
     (case bt_get (db_sessions db) r of
        Some x \<Rightarrow> if sr_owner x = p then Some x else None
      | None \<Rightarrow> None)"

definition register_session_reference ::
  "PortusState \<Rightarrow> Principal \<Rightarrow> string \<Rightarrow> string \<Rightarrow> string option \<Rightarrow> string option \<Rightarrow> string option
    \<Rightarrow> string option \<Rightarrow> string option \<Rightarrow> string option \<Rightarrow> int
    \<Rightarrow> PortusState \<times> (StateError + SessionReference)" where
  "register_session_reference db p r session_kind project_ref session_name working_directory
       role model_name status_observation now =
     st_then (db,
       and_then (task_validate_nonempty r MAX_TASK_REF_BYTES ''session reference'') (\<lambda>_.
       and_then (task_validate_nonempty session_kind 64 ''session kind'') (\<lambda>_.
       and_then (try_each (\<lambda>(v, n, fld). task_validate_optional v n fld)
           [(session_name, MAX_TASK_TITLE_BYTES, ''session name''),
            (working_directory, MAX_TASK_REF_BYTES, ''working directory''),
            (role, 128, ''session role''),
            (model_name, 128, ''model name''),
            (status_observation, 128, ''status observation'')]) (\<lambda>_.
       case project_ref of
         Some pr \<Rightarrow> ensure (project_visible db pr p \<noteq> None)
           (InvalidTaskState ''session project is not visible to owner'')
       | None \<Rightarrow> Ok ())))) (\<lambda>db _.
     let db' = (case bt_get (db_sessions db) r of
          None \<Rightarrow> db\<lparr>db_sessions := bt_insert r
            \<lparr>sr_session_ref = r, sr_owner = p, sr_project_ref = project_ref,
             sr_session_kind = session_kind, sr_session_name = session_name,
             sr_working_directory = working_directory, sr_role = role, sr_model_name = model_name,
             sr_status_observation = status_observation, sr_created_at_ms = now,
             sr_updated_at_ms = now\<rparr> (db_sessions db)\<rparr>
        | Some x \<Rightarrow>
            if sr_owner x = p
            then db\<lparr>db_sessions := bt_insert r
              (x\<lparr>sr_project_ref := project_ref, sr_session_kind := session_kind,
                 sr_session_name := session_name, sr_working_directory := working_directory,
                 sr_role := role, sr_model_name := model_name,
                 sr_status_observation := status_observation, sr_updated_at_ms := now\<rparr>)
              (db_sessions db)\<rparr>
            else db)
     in (db', ok_or (session_visible db' r p)
               (InvalidTaskState ''session reference belongs to another principal'')))"

subsection \<open>Reading tasks\<close>

definition task_row_visible :: "PortusState \<Rightarrow> TaskId \<Rightarrow> Principal \<Rightarrow> TaskRow option" where
  "task_row_visible db t p =
     (case bt_get (db_tasks db) t of
        Some x \<Rightarrow> if tk_owner x = p then Some x else None
      | None \<Rightarrow> None)"

definition task_relationships :: "PortusState \<Rightarrow> TaskId \<Rightarrow> TaskExecutionRelationship list" where
  "task_relationships db t =
     sort_key rl_relation_id (filter (\<lambda>x. rl_task_id x = t) (db_relationships db))"

definition task_summary_from_row :: "PortusState \<Rightarrow> TaskRow \<Rightarrow> TaskSummary" where
  "task_summary_from_row db x =
     TaskColumns.extend (TaskColumns.truncate x)
       (TaskSummary.fields
          (u32_or_max (length (filter (\<lambda>a. at_task_id a = tk_task_id x) (db_attempts db))))
          (u32_or_max (length (filter (\<lambda>r. rl_task_id r = tk_task_id x \<and> rl_mode r = ModeManaged)
             (db_relationships db))))
          (u32_or_max (length (filter (\<lambda>r. rl_task_id r = tk_task_id x \<and> rl_mode r = ModeAssociated)
             (db_relationships db)))))"

definition task_summary_visible :: "PortusState \<Rightarrow> TaskId \<Rightarrow> Principal \<Rightarrow> TaskSummary option" where
  "task_summary_visible db t p = map_option (task_summary_from_row db) (task_row_visible db t p)"

definition task_view_visible :: "PortusState \<Rightarrow> TaskId \<Rightarrow> Principal \<Rightarrow> TaskView option" where
  "task_view_visible db t p =
     (case task_summary_visible db t p of
        None \<Rightarrow> None
      | Some task \<Rightarrow> Some \<lparr>tv_task = task, tv_relationships = task_relationships db t\<rparr>)"

definition task_matches :: "Principal \<Rightarrow> TaskListFilter \<Rightarrow> TaskId option \<Rightarrow> TaskId \<times> TaskRow \<Rightarrow> bool" where
  "task_matches p f after kx \<longleftrightarrow>
     tk_owner (snd kx) = p
   \<and> (case tf_state f of None \<Rightarrow> True | Some st \<Rightarrow> tk_state (snd kx) = st)
   \<and> (case tf_project_ref f of None \<Rightarrow> True | Some r \<Rightarrow> tk_project_ref (snd kx) = Some r)
   \<and> (case after of None \<Rightarrow> True | Some a \<Rightarrow> fst kx < a)"

definition list_tasks_visible ::
  "PortusState \<Rightarrow> Principal \<Rightarrow> TaskListFilter \<Rightarrow> u16 \<Rightarrow> TaskId option \<Rightarrow> StateError + TaskPage" where
  "list_tasks_visible db p f limit after =
     (if limit = 0 \<or> 200 < limit
      then Err (InvalidTaskState ''task page limit must be between 1 and 200'')
      else and_then (task_validate_optional (tf_project_ref f) MAX_TASK_REF_BYTES ''project filter'') (\<lambda>_.
        let ids = take (unat limit + 1) (rev (map fst (filter (task_matches p f after) (db_tasks db))));
            has_more = unat limit < length ids;
            items = List.map_filter (\<lambda>t. map_option tv_task (task_view_visible db t p))
                      (take (unat limit) ids)
        in Ok \<lparr>tp_items = items,
               tp_next_cursor =
                 (if has_more \<and> items \<noteq> [] then Some (tk_task_id (last items)) else None)\<rparr>))"

definition task_event_of :: "TaskId \<Rightarrow> SignificantEvent \<Rightarrow> TaskEvent" where
  "task_event_of t e =
     \<lparr>te_task_id = t, te_sequence = sg_sequence e, te_event_kind = sg_event_kind e,
      te_source_ref = sg_source_ref e, te_safe_summary = sg_safe_summary e,
      te_safe_data = sg_safe_data e, te_occurred_at_ms = sg_occurred_at_ms e\<rparr>"

definition task_events_visible ::
  "PortusState \<Rightarrow> TaskId \<Rightarrow> Principal \<Rightarrow> nat option \<Rightarrow> u16 \<Rightarrow> StateError + TaskEventPage option" where
  "task_events_visible db t p after_sequence limit =
     (case task_summary_visible db t p of
        None \<Rightarrow> Ok None
      | Some task \<Rightarrow>
          if limit = 0 \<or> 200 < limit
          then Err (InvalidTaskState ''task event limit must be between 1 and 200'')
          else and_then (significant_events_for_object (db_events db) ObjTask t after_sequence limit)
            (\<lambda>page. Ok (Some
               \<lparr>ep_events = map (task_event_of t) (pg_events page),
                ep_retained_from_sequence = pg_retained_from_sequence page,
                ep_latest_sequence = max (pg_latest_sequence page) (tk_last_event_sequence task),
                ep_gap_before_page = pg_gap_before_page page,
                ep_next_sequence = pg_next_sequence page,
                ep_terminal_state = (if is_terminal (tk_state task) then Some (tk_state task) else None)\<rparr>)))"

definition nonterminal_task_ids :: "PortusState \<Rightarrow> (TaskId \<times> Principal \<times> TaskState) list" where
  "nonterminal_task_ids db =
     map (\<lambda>(t, x). (t, tk_owner x, tk_state x))
       (filter (\<lambda>(t, x). \<not> is_terminal (tk_state x)) (db_tasks db))"

definition task_counts_visible :: "PortusState \<Rightarrow> Principal \<Rightarrow> nat \<times> nat" where
  "task_counts_visible db p =
     (length (filter (\<lambda>(t, x). tk_owner x = p \<and> \<not> is_terminal (tk_state x)) (db_tasks db)),
      length (filter (\<lambda>(t, x). tk_owner x = p \<and> is_terminal (tk_state x)) (db_tasks db)))"

subsection \<open>Writing tasks\<close>

definition created_row :: "NewTaskRecord \<Rightarrow> TaskRow" where
  "created_row spec =
     \<lparr>tk_task_id = nt_task_id spec, tk_owner = nt_owner spec, tk_title = nt_title spec,
      tk_objective_summary = nt_objective_summary spec, tk_state = TaskCreated,
      tk_state_reason = None, tk_waiting_reason = None, tk_project_ref = nt_project_ref spec,
      tk_session_ref = nt_session_ref spec, tk_parent_task_id = nt_parent_task_id spec,
      tk_retry_of_task_id = nt_retry_of_task_id spec,
      tk_requester_surface = nt_requester_surface spec, tk_retry_safety = nt_retry_safety spec,
      tk_created_at_ms = nt_created_at_ms spec, tk_started_at_ms = None, tk_finished_at_ms = None,
      tk_updated_at_ms = nt_created_at_ms spec, tk_result_kind = None, tk_result_summary = None,
      tk_last_event_sequence = 1, tk_cancellation_requested_at_ms = None\<rparr>"

definition created_event :: "NewTaskRecord \<Rightarrow> NewSignificantEvent" where
  "created_event spec =
     \<lparr>ne_object_kind = ObjTask, ne_object_ref = nt_task_id spec, ne_principal = Some (nt_owner spec),
      ne_event_kind = ''task.created'', ne_reason_code = Some ''identity_created'',
      ne_source_ref = Some ''portus-state'', ne_safe_summary = Some ''task identity created'',
      ne_safe_data = JObject [], ne_occurred_at_ms = nt_created_at_ms spec\<rparr>"

definition insert_task_row ::
  "(string, TaskRow) btree \<Rightarrow> TaskRow \<Rightarrow> StateError + (string, TaskRow) btree" where
  "insert_task_row tasks x =
     (let tasks' = bt_insert (tk_task_id x) x tasks;
          exists = (\<lambda>r. case r of None \<Rightarrow> True | Some t \<Rightarrow> bt_contains_key tasks' t)
      in if \<not> prefix ''task_'' (tk_task_id x) \<or> bt_contains_key tasks (tk_task_id x)
            \<or> \<not> exists (tk_parent_task_id x) \<or> \<not> exists (tk_retry_of_task_id x)
         then Err StateSqlite else Ok tasks')"

definition create_task ::
  "(json \<Rightarrow> string option) \<Rightarrow> PortusState \<Rightarrow> NewTaskRecord \<Rightarrow> PortusState \<times> (StateError + TaskView)" where
  "create_task to_json db spec =
     (case
        and_then (task_validate_nonempty (nt_objective_summary spec) MAX_TASK_OBJECTIVE_BYTES
            ''task objective summary'') (\<lambda>_.
        and_then (task_validate_optional (nt_title spec) MAX_TASK_TITLE_BYTES ''task title'') (\<lambda>_.
        and_then (task_validate_nonempty (nt_requester_surface spec) 64 ''requester surface'') (\<lambda>_.
        and_then (case nt_project_ref spec of
            Some r \<Rightarrow> ensure (project_visible db r (nt_owner spec) \<noteq> None)
              (InvalidTaskState ''task project is not visible to owner'')
          | None \<Rightarrow> Ok ()) (\<lambda>_.
        and_then (case nt_session_ref spec of
            Some r \<Rightarrow> ensure (session_visible db r (nt_owner spec) \<noteq> None)
              (InvalidTaskState ''task session is not visible to owner'')
          | None \<Rightarrow> Ok ()) (\<lambda>_.
        and_then (insert_task_row (db_tasks db) (created_row spec)) (\<lambda>tasks'.
        and_then (insert_significant_event_tx to_json (db_events db) (created_event spec) 1) (\<lambda>evs'.
          Ok (db\<lparr>db_tasks := tasks',
                 db_events := prune_object_tx evs' ObjTask (nt_task_id spec) 1\<rparr>)))))))) of
        Inl e \<Rightarrow> (db, Err e)
      | Inr db' \<Rightarrow> (db', ok_or (task_view_visible db' (nt_task_id spec) (nt_owner spec))
          (InvalidTaskState ''created task is not readable'')))"

definition transition_validate ::
  "(json \<Rightarrow> string option) \<Rightarrow> TaskTransition \<Rightarrow> StateError + unit" where
  "transition_validate to_json tr =
     and_then (task_validate_optional (tt_state_reason tr) MAX_TASK_REASON_BYTES ''task state reason'') (\<lambda>_.
     and_then (task_validate_optional (tt_result_summary tr) MAX_TASK_RESULT_BYTES ''task result summary'') (\<lambda>_.
     and_then (task_validate_nonempty (tt_event_kind tr) 128 ''task event kind'') (\<lambda>_.
     and_then (task_validate_optional (tt_event_summary tr) MAX_TASK_EVENT_SUMMARY_BYTES ''task event summary'') (\<lambda>_.
     and_then (task_validate_optional (tt_source_ref tr) MAX_TASK_REF_BYTES ''task event source'') (\<lambda>_.
     and_then (ok_or (to_json (tt_event_data tr)) (InvalidTaskState ''task event data is not serializable'')) (\<lambda>encoded.
     if MAX_TASK_EVENT_DATA_BYTES < length encoded
     then Err (InvalidTaskState ''task event data exceeds bounded size'') else Ok ()))))))"

definition transition_row :: "TaskTransition \<Rightarrow> nat \<Rightarrow> TaskRow \<Rightarrow> TaskRow" where
  "transition_row tr sequence x =
     x\<lparr>tk_state := tt_next tr, tk_state_reason := tt_state_reason tr,
       tk_waiting_reason := tt_waiting_reason tr, tk_result_kind := tt_result_kind tr,
       tk_result_summary := tt_result_summary tr,
       tk_started_at_ms :=
         (if tt_next tr = TaskRunning \<and> tk_started_at_ms x = None
          then Some (tt_occurred_at_ms tr) else tk_started_at_ms x),
       tk_finished_at_ms :=
         (if is_terminal (tt_next tr) then Some (tt_occurred_at_ms tr) else tk_finished_at_ms x),
       tk_last_event_sequence := i64_of_u64 sequence,
       tk_updated_at_ms := tt_occurred_at_ms tr,
       tk_cancellation_requested_at_ms :=
         (if tt_next tr = TaskCancelling then Some (tt_occurred_at_ms tr)
          else tk_cancellation_requested_at_ms x)\<rparr>"

definition transition_event :: "TaskId \<Rightarrow> Principal \<Rightarrow> TaskTransition \<Rightarrow> NewSignificantEvent" where
  "transition_event t p tr =
     \<lparr>ne_object_kind = ObjTask, ne_object_ref = t, ne_principal = Some p,
      ne_event_kind = tt_event_kind tr, ne_reason_code = tt_state_reason tr,
      ne_source_ref = tt_source_ref tr, ne_safe_summary = tt_event_summary tr,
      ne_safe_data = tt_event_data tr, ne_occurred_at_ms = tt_occurred_at_ms tr\<rparr>"

definition transition_tx ::
  "(json \<Rightarrow> string option) \<Rightarrow> PortusState \<Rightarrow> TaskId \<Rightarrow> Principal \<Rightarrow> TaskTransition \<Rightarrow> nat
    \<Rightarrow> StateError + PortusState" where
  "transition_tx to_json db t p tr sequence =
     (case task_row_visible db t p of
        Some x \<Rightarrow>
          if tk_state x = tt_expected tr
          then and_then (insert_significant_event_tx to_json (db_events db) (transition_event t p tr) sequence)
            (\<lambda>evs'. Ok (db\<lparr>db_tasks := bt_insert t (transition_row tr sequence x) (db_tasks db),
                             db_events := prune_object_tx evs' ObjTask t sequence\<rparr>))
          else Err (TaskPreconditionFailed (task_state_as_str (tt_expected tr)) (task_state_as_str (tk_state x)))
      | None \<Rightarrow> Err (TaskPreconditionFailed (task_state_as_str (tt_expected tr)) ''not_visible''))"

definition transition_task ::
  "(json \<Rightarrow> string option) \<Rightarrow> PortusState \<Rightarrow> TaskId \<Rightarrow> Principal \<Rightarrow> TaskTransition
    \<Rightarrow> PortusState \<times> (StateError + TaskView)" where
  "transition_task to_json db t p tr =
     (case
        and_then (transition_validate to_json tr) (\<lambda>_.
        and_then (ok_or (task_summary_visible db t p) (InvalidTaskState ''task is not visible'')) (\<lambda>current.
        if tk_state current \<noteq> tt_expected tr
        then Err (TaskPreconditionFailed (task_state_as_str (tt_expected tr)) (task_state_as_str (tk_state current)))
        else transition_tx to_json db t p tr (sat_add_u64 (tk_last_event_sequence current) 1))) of
        Inl e \<Rightarrow> (db, Err e)
      | Inr db' \<Rightarrow> (db', ok_or (task_view_visible db' t p)
          (InvalidTaskState ''transitioned task is not readable'')))"

definition start_task_attempt ::
  "PortusState \<Rightarrow> TaskId \<Rightarrow> TaskBackendKind \<Rightarrow> string \<Rightarrow> bool \<Rightarrow> int
    \<Rightarrow> PortusState \<times> (StateError + nat \<times> nat)" where
  "start_task_attempt db t kind backend_ref retry_safe started =
     st_then (db, task_validate_nonempty backend_ref MAX_TASK_REF_BYTES ''attempt backend reference'') (\<lambda>db _.
     let mine = filter (\<lambda>a. at_task_id a = t) (db_attempts db);
         nxt = fold max (map at_attempt_number mine) 0 + 1;
         rowid = next_rowid (map at_attempt_id (db_attempts db))
     in if \<not> bt_contains_key (db_tasks db) t then (db, Err StateSqlite)
        else (db\<lparr>db_attempts := db_attempts db @
                [\<lparr>at_attempt_id = rowid, at_task_id = t, at_attempt_number = nxt,
                  at_backend_kind = kind, at_backend_ref = backend_ref, at_started_at_ms = started,
                  at_retry_safe = retry_safe, at_finished_at_ms = None, at_outcome = None,
                  at_failure_classification = None, at_exit_code = None\<rparr>]\<rparr>,
              Ok (rowid, u32_or_max nxt)))"

definition finish_task_attempt ::
  "PortusState \<Rightarrow> nat \<Rightarrow> string \<Rightarrow> string option \<Rightarrow> int option \<Rightarrow> int
    \<Rightarrow> PortusState \<times> (StateError + unit)" where
  "finish_task_attempt db attempt_id outcome classification code finished =
     st_then (db,
       and_then (task_validate_nonempty outcome 64 ''attempt outcome'') (\<lambda>_.
         task_validate_optional classification 128 ''failure classification'')) (\<lambda>db _.
     (db\<lparr>db_attempts := map (\<lambda>a. if at_attempt_id a = attempt_id
          then a\<lparr>at_finished_at_ms := Some finished, at_outcome := Some outcome,
                 at_failure_classification := classification, at_exit_code := code\<rparr>
          else a) (db_attempts db)\<rparr>, Ok ()))"

definition relationship_row :: "NewExecutionRelationship \<Rightarrow> nat \<Rightarrow> TaskExecutionRelationship" where
  "relationship_row n rowid =
     \<lparr>rl_relation_id = rowid, rl_task_id = nr_task_id n, rl_mode = nr_mode n,
      rl_backend_kind = nr_backend_kind n, rl_backend_ref = nr_backend_ref n,
      rl_generation_ref = nr_generation_ref n, rl_process_id = nr_process_id n,
      rl_correlation_ref = nr_correlation_ref n, rl_status = nr_status n,
      rl_cancellation_supported = nr_cancellation_supported n,
      rl_reconciliation_supported = nr_reconciliation_supported n,
      rl_created_at_ms = nr_created_at_ms n, rl_updated_at_ms = nr_created_at_ms n,
      rl_finished_at_ms = None\<rparr>"

definition relationship_conflict :: "NewExecutionRelationship \<Rightarrow> TaskExecutionRelationship \<Rightarrow> bool" where
  "relationship_conflict n x \<longleftrightarrow>
     rl_task_id x = nr_task_id n \<and> rl_backend_kind x = nr_backend_kind n
   \<and> rl_backend_ref x = nr_backend_ref n \<and> rl_generation_ref x = nr_generation_ref n"

definition add_task_relationship ::
  "PortusState \<Rightarrow> NewExecutionRelationship \<Rightarrow> PortusState \<times> (StateError + nat)" where
  "add_task_relationship db n =
     st_then (db,
       and_then (task_validate_nonempty (nr_backend_ref n) MAX_TASK_REF_BYTES ''backend reference'') (\<lambda>_.
       and_then (task_validate_nonempty (nr_generation_ref n) MAX_TASK_REF_BYTES ''generation reference'') (\<lambda>_.
         task_validate_optional (nr_correlation_ref n) MAX_TASK_REF_BYTES ''correlation reference''))) (\<lambda>db _.
     let rowid = next_rowid (map rl_relation_id (db_relationships db)) in
     if \<not> bt_contains_key (db_tasks db) (nr_task_id n) \<or> nr_process_id n = Some 0
        \<or> list_ex (relationship_conflict n) (db_relationships db)
     then (db, Err StateSqlite)
     else (db\<lparr>db_relationships := db_relationships db @ [relationship_row n rowid]\<rparr>, Ok rowid))"

definition update_task_relationship_status ::
  "PortusState \<Rightarrow> nat \<Rightarrow> ExecutionRelationshipStatus \<Rightarrow> int \<Rightarrow> PortusState \<times> (StateError + unit)" where
  "update_task_relationship_status db relation_id status now =
     (db\<lparr>db_relationships := map (\<lambda>x. if rl_relation_id x = relation_id
          then x\<lparr>rl_status := status, rl_updated_at_ms := now,
                 rl_finished_at_ms :=
                   (if status \<in> {RelStopped, RelLost} then Some now else rl_finished_at_ms x)\<rparr>
          else x) (db_relationships db)\<rparr>, Ok ())"

end
