(* ===== verification/Task_Engine.thy ===== *)
theory Task_Engine
  imports Task_Store "HOL-Library.AList"
begin

section \<open>The task engine\<close>

text \<open>
  \<^verbatim>\<open>portus-task/src/lib.rs\<close>. The engine's state is the database, the table of attached children, the
  events handed to the event sink so far and a counter of the calls it has made to the operating
  system. The record \<open>Os\<close> is that system: what the clock, the id generator, \<open>spawn\<close>, \<open>try_wait\<close>,
  \<open>kill\<close> and \<open>wait\<close> answer at each call, by the counter, and the order in which the hash map of
  children is iterated. Every operation threads the state explicitly and keeps the changes made
  before an early return. A program argument is its lossy UTF-8 rendering, the only view of it the
  code takes before the process is spawned.
\<close>

datatype TaskError =
    TaskStateError StateError
  | InvalidTransition TaskState TaskState
  | PreconditionFailed TaskState TaskState
  | TaskNotFound
  | TaskUnsupported string
  | InvalidSpec string
  | TaskIo string

definition task_error_of_state :: "StateError \<Rightarrow> TaskError" where
  "task_error_of_state e =
     (case e of
        TaskPreconditionFailed expected found \<Rightarrow>
          (let parse = (\<lambda>s. case task_state_from_str s of Inr st \<Rightarrow> st | Inl _ \<Rightarrow> TaskInterrupted)
           in PreconditionFailed (parse expected) (parse found))
      | other \<Rightarrow> TaskStateError other)"

definition MAX_MANAGED_ARGUMENTS :: nat where "MAX_MANAGED_ARGUMENTS = 128"
definition MAX_MANAGED_ARGUMENT_BYTES :: nat where "MAX_MANAGED_ARGUMENT_BYTES = 4096"
definition MAX_MANAGED_TOTAL_ARGUMENT_BYTES :: nat where "MAX_MANAGED_TOTAL_ARGUMENT_BYTES = 64 * 1024"

record ManagedProcessSpec =
  mp_program :: string
  mp_args :: "string list"
  mp_safe_backend_ref :: string
  mp_title :: "string option"
  mp_objective_summary :: string
  mp_requester_surface :: string
  mp_project_ref :: "string option"
  mp_session_ref :: "string option"
  mp_retry_safety :: RetrySafety

definition managed_process_spec_new :: "string \<Rightarrow> string \<Rightarrow> string \<Rightarrow> ManagedProcessSpec" where
  "managed_process_spec_new program safe_backend_ref objective_summary =
     \<lparr>mp_program = program, mp_args = [], mp_safe_backend_ref = safe_backend_ref, mp_title = None,
      mp_objective_summary = objective_summary, mp_requester_surface = ''internal'',
      mp_project_ref = None, mp_session_ref = None, mp_retry_safety = RetryNever\<rparr>"

record AssociatedExecutionSpec =
  as_backend_kind :: TaskBackendKind
  as_backend_ref :: string
  as_generation_ref :: string
  as_correlation_ref :: "string option"
  as_title :: "string option"
  as_objective_summary :: string
  as_requester_surface :: string
  as_project_ref :: "string option"
  as_session_ref :: "string option"
  as_retry_safety :: RetrySafety

record ManagedChild =
  mc_pid :: u32
  mc_owner :: Principal
  mc_relation_id :: nat
  mc_attempt_id :: nat

type_synonym ExitCode = "int option"
type_synonym Children = "(TaskId \<times> ManagedChild) list"

record Os =
  os_time :: "nat \<Rightarrow> int"
  os_task_id :: "nat \<Rightarrow> TaskId"
  os_spawn :: "nat \<Rightarrow> string + u32"
  os_try_wait :: "nat \<Rightarrow> u32 \<Rightarrow> string + ExitCode option"
  os_kill :: "nat \<Rightarrow> u32 \<Rightarrow> string + unit"
  os_wait :: "nat \<Rightarrow> u32 \<Rightarrow> string + ExitCode"
  os_hash_order :: "Children \<Rightarrow> Children"
  os_to_json :: "json \<Rightarrow> string option"

record TaskEngine =
  te_db :: PortusState
  te_children :: Children
  te_sink :: "TaskEvent list"
  te_calls :: nat

definition os_call :: "(nat \<Rightarrow> 'a) \<Rightarrow> TaskEngine \<Rightarrow> TaskEngine \<times> (TaskError + 'a)" where
  "os_call f s = (s\<lparr>te_calls := te_calls s + 1\<rparr>, Ok (f (te_calls s)))"

definition unix_time_ms :: "Os \<Rightarrow> TaskEngine \<Rightarrow> TaskEngine \<times> (TaskError + int)" where
  "unix_time_ms os = os_call (os_time os)"

definition db_call ::
  "(PortusState \<Rightarrow> PortusState \<times> (StateError + 'a)) \<Rightarrow> TaskEngine \<Rightarrow> TaskEngine \<times> (StateError + 'a)" where
  "db_call f s = (let (db', r) = f (te_db s) in (s\<lparr>te_db := db'\<rparr>, r))"

text \<open>A failing database call with \<open>?\<close> converts its error; \<open>let _ = ...\<close> ignores it.\<close>

definition db_try ::
  "(PortusState \<Rightarrow> PortusState \<times> (StateError + 'a)) \<Rightarrow> TaskEngine \<Rightarrow> TaskEngine \<times> (TaskError + 'a)" where
  "db_try f s = st_map_err task_error_of_state (db_call f s)"

definition ignore_result :: "TaskEngine \<times> ('e + 'a) \<Rightarrow> TaskEngine \<times> ('f + unit)" where
  "ignore_result m = (fst m, Ok ())"

fun can_transition :: "TaskState \<Rightarrow> TaskState \<Rightarrow> bool" where
  "can_transition TaskCreated st = (st \<in> {TaskQueued, TaskStarting, TaskCancelling})"
| "can_transition TaskQueued st = (st \<in> {TaskStarting, TaskCancelling, TaskFailed, TaskReconciling})"
| "can_transition TaskStarting st =
     (st \<in> {TaskRunning, TaskWaiting, TaskCancelling, TaskFailed, TaskReconciling})"
| "can_transition TaskRunning st =
     (st \<in> {TaskWaiting, TaskPaused, TaskCancelling, TaskSucceeded, TaskFailed, TaskReconciling})"
| "can_transition TaskWaiting st = (st \<in> {TaskRunning, TaskCancelling, TaskFailed, TaskReconciling})"
| "can_transition TaskPaused st = (st \<in> {TaskRunning, TaskQueued, TaskCancelling, TaskReconciling})"
| "can_transition TaskReconciling st =
     (st \<in> {TaskRunning, TaskWaiting, TaskPaused, TaskCancelling, TaskSucceeded, TaskFailed,
             TaskCancelled, TaskInterrupted})"
| "can_transition TaskCancelling st = (st \<in> {TaskCancelled, TaskRunning, TaskReconciling, TaskFailed})"
| "can_transition TaskSucceeded st = False"
| "can_transition TaskFailed st = False"
| "can_transition TaskCancelled st = False"
| "can_transition TaskInterrupted st = False"

definition notify_event ::
  "TaskId \<Rightarrow> Principal \<Rightarrow> nat \<Rightarrow> TaskEngine \<Rightarrow> TaskEngine \<times> (TaskError + unit)" where
  "notify_event t owner sequence s =
     st_then (s, map_err task_error_of_state
         (task_events_visible (te_db s) t owner (Some (sequence - 1)) 1)) (\<lambda>s page.
     st_then (s, ok_or page TaskNotFound) (\<lambda>s page.
     case find (\<lambda>e. te_sequence e = sequence) (ep_events page) of
       Some e \<Rightarrow> (s\<lparr>te_sink := te_sink s @ [e]\<rparr>, Ok ())
     | None \<Rightarrow> (s, Ok ())))"

definition transition ::
  "Os \<Rightarrow> TaskId \<Rightarrow> Principal \<Rightarrow> TaskState \<Rightarrow> TaskState \<Rightarrow> string \<Rightarrow> TaskResultKind option \<Rightarrow> string option
    \<Rightarrow> string \<Rightarrow> string \<Rightarrow> json \<Rightarrow> TaskEngine \<Rightarrow> TaskEngine \<times> (TaskError + TaskView)" where
  "transition os t owner from to reason result_kind result_summary event_kind event_summary event_data s =
     (if \<not> can_transition from to then (s, Err (InvalidTransition from to))
      else
        st_then (unix_time_ms os s) (\<lambda>s now.
        st_then (db_try (\<lambda>db. transition_task (os_to_json os) db t owner
            \<lparr>tt_expected = from, tt_next = to, tt_state_reason = Some reason, tt_waiting_reason = None,
             tt_result_kind = result_kind, tt_result_summary = result_summary,
             tt_event_kind = event_kind, tt_event_summary = Some event_summary,
             tt_source_ref = Some ''portus-task'', tt_event_data = event_data,
             tt_occurred_at_ms = now\<rparr>) s) (\<lambda>s view.
        st_then (notify_event t owner (tk_last_event_sequence (tv_task view)) s) (\<lambda>s _.
        (s, Ok view)))))"

text \<open>Both ways to start a task create its row and then announce its first event.\<close>

definition create_notified ::
  "Os \<Rightarrow> TaskId \<Rightarrow> Principal \<Rightarrow> NewTaskRecord \<Rightarrow> TaskEngine \<Rightarrow> TaskEngine \<times> (TaskError + unit)" where
  "create_notified os t owner spec s =
     st_then (db_try (\<lambda>db. create_task (os_to_json os) db spec) s) (\<lambda>s _. notify_event t owner 1 s)"

definition json_code :: "ExitCode \<Rightarrow> json" where
  "json_code c = JObject [(''exit_code'', case c of None \<Rightarrow> JNull
     | Some n \<Rightarrow> JNumber (if n < 0 then NegInt n else PosInt (of_int n)))]"

definition register_associated_execution ::
  "Os \<Rightarrow> Principal \<Rightarrow> AssociatedExecutionSpec \<Rightarrow> TaskEngine \<Rightarrow> TaskEngine \<times> (TaskError + TaskView)" where
  "register_associated_execution os owner spec s =
     (if trim_is_empty (as_backend_ref spec) \<or> trim_is_empty (as_generation_ref spec)
      then (s, Err (InvalidSpec ''associated backend and generation references must be non-empty''))
      else
        st_then (unix_time_ms os s) (\<lambda>s now.
        st_then (os_call (os_task_id os) s) (\<lambda>s t.
        st_then (create_notified os t owner
            \<lparr>nt_task_id = t, nt_owner = owner, nt_title = as_title spec,
             nt_objective_summary = as_objective_summary spec,
             nt_requester_surface = as_requester_surface spec, nt_project_ref = as_project_ref spec,
             nt_session_ref = as_session_ref spec, nt_parent_task_id = None,
             nt_retry_of_task_id = None, nt_retry_safety = as_retry_safety spec,
             nt_created_at_ms = now\<rparr> s) (\<lambda>s _.
        st_then (transition os t owner TaskCreated TaskStarting ''associating_existing_backend'' None None
            ''task.starting'' ''existing backend association is being recorded''
            (JObject [(''backend_kind'', JString (task_backend_kind_as_str (as_backend_kind spec)))]) s) (\<lambda>s _.
        st_then (db_try (\<lambda>db. add_task_relationship db
            \<lparr>nr_task_id = t, nr_mode = ModeAssociated, nr_backend_kind = as_backend_kind spec,
             nr_backend_ref = as_backend_ref spec, nr_generation_ref = as_generation_ref spec,
             nr_process_id = None, nr_correlation_ref = as_correlation_ref spec, nr_status = RelRunning,
             nr_cancellation_supported = False, nr_reconciliation_supported = False,
             nr_created_at_ms = now\<rparr>) s) (\<lambda>s _.
        transition os t owner TaskStarting TaskRunning ''associated_backend_observed'' None None
            ''task.running'' ''associated backend is recorded as running''
            (JObject [(''ownership'', JString ''associated'')]) s))))))"

subsection \<open>Managed processes\<close>

definition validate_managed_spec :: "ManagedProcessSpec \<Rightarrow> TaskError + unit" where
  "validate_managed_spec spec =
     (if mp_program spec = [] then Err (InvalidSpec ''program is empty'')
      else if trim_is_empty (mp_safe_backend_ref spec)
      then Err (InvalidSpec ''safe backend reference is empty'')
      else if MAX_MANAGED_ARGUMENTS < length (mp_args spec)
      then Err (InvalidSpec ''too many managed process arguments'')
      else and_then (try_fold (\<lambda>total argument.
          if MAX_MANAGED_ARGUMENT_BYTES < length argument
          then Err (InvalidSpec ''managed process argument exceeds bounded size'')
          else Ok (sat_add_u64 total (length argument))) 0 (mp_args spec)) (\<lambda>total.
        if MAX_MANAGED_TOTAL_ARGUMENT_BYTES < total
        then Err (InvalidSpec ''managed process argument vector exceeds bounded size'')
        else Ok ()))"

definition spawn_failed ::
  "Os \<Rightarrow> Principal \<Rightarrow> TaskId \<Rightarrow> nat \<Rightarrow> string \<Rightarrow> TaskEngine \<Rightarrow> TaskEngine \<times> (TaskError + TaskView)" where
  "spawn_failed os owner t attempt_id io s =
     st_then (unix_time_ms os s) (\<lambda>s now.
     st_then (db_try (\<lambda>db. finish_task_attempt db attempt_id ''spawn_failed'' (Some ''launch_error'') None now) s) (\<lambda>s _.
     st_then (transition os t owner TaskStarting TaskFailed ''managed_backend_launch_failed''
         (Some ResultFailure) (Some ''managed backend could not be launched'')
         ''task.failed'' ''managed backend launch failed'' (JObject []) s) (\<lambda>s _.
     (s, Err (TaskIo io)))))"

definition kill_and_wait :: "Os \<Rightarrow> u32 \<Rightarrow> TaskEngine \<Rightarrow> TaskEngine \<times> (TaskError + ExitCode)" where
  "kill_and_wait os pid s =
     st_then (os_call (\<lambda>n. os_kill os n pid) s) (\<lambda>s _.
     st_then (os_call (\<lambda>n. os_wait os n pid) s) (\<lambda>s r.
     (s, Ok (case r of Inr code \<Rightarrow> code | Inl _ \<Rightarrow> None))))"

definition relationship_failed ::
  "Os \<Rightarrow> Principal \<Rightarrow> TaskId \<Rightarrow> nat \<Rightarrow> u32 \<Rightarrow> StateError \<Rightarrow> TaskEngine
    \<Rightarrow> TaskEngine \<times> (TaskError + TaskView)" where
  "relationship_failed os owner t attempt_id pid err s =
     st_then (kill_and_wait os pid s) (\<lambda>s code.
     st_then (unix_time_ms os s) (\<lambda>s now.
     st_then (db_try (\<lambda>db. finish_task_attempt db attempt_id ''relationship_persist_failed''
         (Some ''state_error'') code now) s) (\<lambda>s _.
     st_then (ignore_result (transition os t owner TaskStarting TaskFailed
         ''managed_relationship_persist_failed'' (Some ResultFailure)
         (Some ''managed backend was stopped because its durable relationship could not be recorded'')
         ''task.failed'' ''managed backend relationship persistence failed'' (JObject []) s)) (\<lambda>s _.
     (s, Err (TaskStateError err))))))"

definition running_failed ::
  "Os \<Rightarrow> nat \<Rightarrow> nat \<Rightarrow> u32 \<Rightarrow> TaskError \<Rightarrow> TaskEngine \<Rightarrow> TaskEngine \<times> (TaskError + TaskView)" where
  "running_failed os relation_id attempt_id pid err s =
     st_then (kill_and_wait os pid s) (\<lambda>s code.
     st_then (unix_time_ms os s) (\<lambda>s now.
     st_then (ignore_result (db_call (\<lambda>db. update_task_relationship_status db relation_id RelStopped now) s)) (\<lambda>s _.
     st_then (ignore_result (db_call (\<lambda>db. finish_task_attempt db attempt_id
         ''task_running_transition_failed'' (Some ''state_error'') code now) s)) (\<lambda>s _.
     (s, Err err)))))"

definition generation_ref_of :: "TaskId \<Rightarrow> nat \<Rightarrow> u32 \<Rightarrow> int \<Rightarrow> string" where
  "generation_ref_of t attempt pid launched_at =
     ''managed:'' @ t @ '':'' @ show_nat attempt @ '':'' @ show_word pid @ '':'' @ show_nat (nat launched_at)"

definition managed_relation ::
  "ManagedProcessSpec \<Rightarrow> TaskId \<Rightarrow> nat \<Rightarrow> u32 \<Rightarrow> int \<Rightarrow> NewExecutionRelationship" where
  "managed_relation spec t attempt_number pid launched_at =
     \<lparr>nr_task_id = t, nr_mode = ModeManaged, nr_backend_kind = BackendNativeProcess,
      nr_backend_ref = mp_safe_backend_ref spec,
      nr_generation_ref = generation_ref_of t attempt_number pid launched_at,
      nr_process_id = Some pid,
      nr_correlation_ref = Some (t @ '':attempt:'' @ show_nat attempt_number),
      nr_status = RelRunning, nr_cancellation_supported = True,
      nr_reconciliation_supported = False, nr_created_at_ms = launched_at\<rparr>"

definition attach_child ::
  "Os \<Rightarrow> Principal \<Rightarrow> ManagedProcessSpec \<Rightarrow> TaskId \<Rightarrow> nat \<Rightarrow> nat \<Rightarrow> u32 \<Rightarrow> TaskEngine
    \<Rightarrow> TaskEngine \<times> (TaskError + TaskView)" where
  "attach_child os owner spec t attempt_id attempt_number pid s =
     st_then (unix_time_ms os s) (\<lambda>s launched_at.
     case db_call (\<lambda>db. add_task_relationship db
         (managed_relation spec t attempt_number pid launched_at)) s of
       (s, Inl err) \<Rightarrow> relationship_failed os owner t attempt_id pid err s
     | (s, Inr relation_id) \<Rightarrow>
         (case transition os t owner TaskStarting TaskRunning ''managed_backend_running'' None None
              ''task.running'' ''managed backend is running''
              (JObject [(''backend_kind'', JString ''native_process'')]) s of
            (s, Inl err) \<Rightarrow> running_failed os relation_id attempt_id pid err s
          | (s, Inr view) \<Rightarrow>
              (s\<lparr>te_children := AList.update t
                   \<lparr>mc_pid = pid, mc_owner = owner, mc_relation_id = relation_id,
                    mc_attempt_id = attempt_id\<rparr> (te_children s)\<rparr>, Ok view)))"

definition launch_managed_process ::
  "Os \<Rightarrow> Principal \<Rightarrow> ManagedProcessSpec \<Rightarrow> TaskEngine \<Rightarrow> TaskEngine \<times> (TaskError + TaskView)" where
  "launch_managed_process os owner spec s =
     st_then (s, validate_managed_spec spec) (\<lambda>s _.
     st_then (unix_time_ms os s) (\<lambda>s now.
     st_then (os_call (os_task_id os) s) (\<lambda>s t.
     st_then (create_notified os t owner
         \<lparr>nt_task_id = t, nt_owner = owner, nt_title = mp_title spec,
          nt_objective_summary = mp_objective_summary spec,
          nt_requester_surface = mp_requester_surface spec, nt_project_ref = mp_project_ref spec,
          nt_session_ref = mp_session_ref spec, nt_parent_task_id = None,
          nt_retry_of_task_id = None, nt_retry_safety = mp_retry_safety spec,
          nt_created_at_ms = now\<rparr> s) (\<lambda>s _.
     st_then (transition os t owner TaskCreated TaskStarting ''launching_managed_backend'' None None
         ''task.starting'' ''managed execution starting''
         (JObject [(''backend_kind'', JString ''native_process'')]) s) (\<lambda>s _.
     st_then (db_try (\<lambda>db. start_task_attempt db t BackendNativeProcess (mp_safe_backend_ref spec)
         (mp_retry_safety spec \<noteq> RetryNever) now) s) (\<lambda>s (attempt_id, attempt_number).
     st_then (os_call (os_spawn os) s) (\<lambda>s spawned.
     case spawned of
       Inl io \<Rightarrow> spawn_failed os owner t attempt_id io s
     | Inr pid \<Rightarrow> attach_child os owner spec t attempt_id attempt_number pid s)))))))"

subsection \<open>Refreshing\<close>

fun poll_children ::
  "Os \<Rightarrow> Children \<Rightarrow> TaskEngine \<Rightarrow> TaskEngine \<times> (TaskError + (TaskId \<times> ManagedChild \<times> ExitCode) list)" where
  "poll_children os [] s = (s, Ok [])"
| "poll_children os ((t, m) # cs) s =
     st_then (os_call (\<lambda>n. os_try_wait os n (mc_pid m)) s) (\<lambda>s r.
     case r of
       Inl io \<Rightarrow> (s, Err (TaskIo io))
     | Inr status \<Rightarrow>
         st_then (poll_children os cs s) (\<lambda>s rest.
         (s, Ok (case status of None \<Rightarrow> rest | Some code \<Rightarrow> (t, m, code) # rest))))"

definition exit_outcome :: "TaskState \<Rightarrow> bool \<Rightarrow> TaskState \<times> TaskResultKind \<times> string \<times> string \<times> string" where
  "exit_outcome st success =
     (if st = TaskCancelling
      then (TaskCancelled, ResultCancelled, ''cancellation_confirmed'',
            ''managed backend stopped after cancellation'', ''task.cancelled'')
      else if success
      then (TaskSucceeded, ResultSuccess, ''managed_backend_succeeded'',
            ''managed backend completed successfully'', ''task.succeeded'')
      else (TaskFailed, ResultFailure, ''managed_backend_failed'',
            ''managed backend exited unsuccessfully'', ''task.failed''))"

definition record_exit ::
  "Os \<Rightarrow> TaskEngine \<Rightarrow> TaskId \<times> ManagedChild \<times> ExitCode \<Rightarrow> TaskEngine \<times> (TaskError + unit)" where
  "record_exit os s c =
     (case c of (t, m, code) \<Rightarrow>
      case task_view_visible (te_db s) t (mc_owner m) of
        None \<Rightarrow> (s, Ok ())
      | Some view \<Rightarrow>
          st_then (unix_time_ms os s) (\<lambda>s now.
          st_then (db_try (\<lambda>db. update_task_relationship_status db (mc_relation_id m) RelStopped now) s) (\<lambda>s _.
          let st = tk_state (tv_task view); success = (code = Some 0) in
          if is_terminal st then (s, Ok ())
          else
            st_then (unix_time_ms os s) (\<lambda>s now.
            st_then (db_try (\<lambda>db. finish_task_attempt db (mc_attempt_id m)
                (if success then ''succeeded'' else ''failed'')
                (if success then None else Some ''process_exit'') code now) s) (\<lambda>s _.
            case exit_outcome st success of (nxt, result_kind, reason, result_summary, event_kind) \<Rightarrow>
            st_then (transition os t (mc_owner m) st nxt reason (Some result_kind) (Some result_summary)
                event_kind result_summary (json_code code) s) (\<lambda>s _.
            (s, Ok ())))))))"

definition refresh_all :: "Os \<Rightarrow> TaskEngine \<Rightarrow> TaskEngine \<times> (TaskError + unit)" where
  "refresh_all os s =
     st_then (poll_children os (os_hash_order os (te_children s)) s) (\<lambda>s completed.
     let s = s\<lparr>te_children := filter (\<lambda>(t, m). t \<notin> fst ` set completed) (te_children s)\<rparr> in
     st_each (record_exit os) s completed)"

subsection \<open>Cancellation\<close>

definition cancellable_managed :: "TaskExecutionRelationship \<Rightarrow> bool" where
  "cancellable_managed r \<longleftrightarrow> rl_mode r = ModeManaged \<and> rl_cancellation_supported r \<and> rl_status r = RelRunning"

definition cancel_confirmed ::
  "Os \<Rightarrow> Principal \<Rightarrow> TaskId \<Rightarrow> ManagedChild \<Rightarrow> ExitCode \<Rightarrow> TaskEngine \<Rightarrow> TaskEngine \<times> (TaskError + TaskView)" where
  "cancel_confirmed os owner t m code s =
     st_then (unix_time_ms os s) (\<lambda>s now.
     st_then (db_try (\<lambda>db. update_task_relationship_status db (mc_relation_id m) RelStopped now) s) (\<lambda>s _.
     st_then (db_try (\<lambda>db. finish_task_attempt db (mc_attempt_id m) ''cancelled'' None code now) s) (\<lambda>s _.
     transition os t owner TaskCancelling TaskCancelled ''cancellation_confirmed'' (Some ResultCancelled)
       (Some ''managed backend cancellation was confirmed'') ''task.cancelled''
       ''managed backend cancellation confirmed'' (JObject []) s)))"

definition cancel_lost_race ::
  "Os \<Rightarrow> Principal \<Rightarrow> TaskId \<Rightarrow> ManagedChild \<Rightarrow> ExitCode \<Rightarrow> TaskEngine \<Rightarrow> TaskEngine \<times> (TaskError + TaskView)" where
  "cancel_lost_race os owner t m code s =
     st_then (unix_time_ms os s) (\<lambda>s now.
     st_then (db_try (\<lambda>db. update_task_relationship_status db (mc_relation_id m) RelStopped now) s) (\<lambda>s _.
     let success = (code = Some 0) in
     st_then (db_try (\<lambda>db. finish_task_attempt db (mc_attempt_id m)
         (if success then ''succeeded'' else ''failed'')
         (if success then None else Some ''process_exit'') code now) s) (\<lambda>s _.
     st_then (transition os t owner TaskCancelling TaskReconciling
         ''cancellation_not_applied_backend_already_exited'' None None ''task.reconciling''
         ''backend exited before cancellation could be confirmed'' (JObject []) s) (\<lambda>s _.
     transition os t owner TaskReconciling (if success then TaskSucceeded else TaskFailed)
       (if success then ''managed_backend_succeeded'' else ''managed_backend_failed'')
       (Some (if success then ResultSuccess else ResultFailure))
       (Some (if success then ''managed backend completed before cancellation could be applied''
              else ''managed backend failed before cancellation could be applied''))
       (if success then ''task.succeeded'' else ''task.failed'')
       ''backend completion won the cancellation race'' (json_code code) s))))"

definition cancel_unknown ::
  "Os \<Rightarrow> Principal \<Rightarrow> TaskId \<Rightarrow> string \<Rightarrow> TaskEngine \<Rightarrow> TaskEngine \<times> (TaskError + TaskView)" where
  "cancel_unknown os owner t io s =
     st_then (transition os t owner TaskCancelling TaskReconciling ''cancellation_state_unknown'' None None
         ''task.reconciling'' ''backend state became unknown during cancellation'' (JObject []) s) (\<lambda>s _.
     st_then (transition os t owner TaskReconciling TaskInterrupted ''backend_state_unverifiable''
         (Some ResultInterrupted) (Some ''backend state could not be established after cancellation'')
         ''task.interrupted'' ''task interrupted because backend state is unverifiable'' (JObject []) s) (\<lambda>s _.
     (s, Err (TaskIo io))))"

definition stop_backend ::
  "Os \<Rightarrow> Principal \<Rightarrow> TaskId \<Rightarrow> TaskEngine \<Rightarrow> TaskEngine \<times> (TaskError + TaskView)" where
  "stop_backend os owner t s =
     (case map_of (te_children s) t of
        None \<Rightarrow> (s, Err (TaskUnsupported ''managed backend is no longer attached to this runtime''))
      | Some m \<Rightarrow>
          st_then (os_call (\<lambda>n. os_kill os n (mc_pid m))
              (s\<lparr>te_children := filter (\<lambda>(t', _). t' \<noteq> t) (te_children s)\<rparr>)) (\<lambda>s kill_result.
          st_then (os_call (\<lambda>n. os_wait os n (mc_pid m)) s) (\<lambda>s wait_result.
          case wait_result of
            Inl io \<Rightarrow> cancel_unknown os owner t io s
          | Inr code \<Rightarrow>
              (case kill_result of
                 Inr _ \<Rightarrow> cancel_confirmed os owner t m code s
               | Inl _ \<Rightarrow> cancel_lost_race os owner t m code s))))"

definition cancel_task ::
  "Os \<Rightarrow> Principal \<Rightarrow> TaskId \<Rightarrow> TaskState option \<Rightarrow> TaskEngine \<Rightarrow> TaskEngine \<times> (TaskError + TaskView)" where
  "cancel_task os owner t expected_state s =
     st_then (refresh_all os s) (\<lambda>s _.
     st_then (s, ok_or (task_view_visible (te_db s) t owner) TaskNotFound) (\<lambda>s view.
     let prior = tk_state (tv_task view) in
     if (case expected_state of Some e \<Rightarrow> prior \<noteq> e | None \<Rightarrow> False)
     then (s, Err (PreconditionFailed (the expected_state) prior))
     else if is_terminal prior
     then (s, Err (TaskUnsupported ''terminal tasks cannot be cancelled''))
     else if \<not> list_ex cancellable_managed (tv_relationships view)
     then (s, Err (TaskUnsupported ''task has no live managed backend with confirmed cancellation support''))
     else
       st_then (transition os t owner prior TaskCancelling ''cancellation_requested'' None None
           ''task.cancellation_requested'' ''cancellation requested'' (JObject []) s) (\<lambda>s _.
       stop_backend os owner t s)))"

subsection \<open>After a restart of the runtime\<close>

definition reconcile_task ::
  "Os \<Rightarrow> TaskEngine \<Rightarrow> TaskId \<times> Principal \<times> TaskState \<Rightarrow> TaskEngine \<times> (TaskError + unit)" where
  "reconcile_task os s c =
     (case c of (t, owner, current) \<Rightarrow>
      if current = TaskCreated \<or> current = TaskQueued then (s, Ok ())
      else
        st_then (if current = TaskReconciling then (s, Ok current)
          else st_then (transition os t owner current TaskReconciling ''runtime_restart'' None None
              ''task.reconciling'' ''runtime restarted; backend state requires verification'' (JObject []) s)
            (\<lambda>s view. (s, Ok (tk_state (tv_task view))))) (\<lambda>s reconciling.
        if reconciling = TaskReconciling
        then st_then (transition os t owner TaskReconciling TaskInterrupted ''backend_state_unverifiable''
            (Some ResultInterrupted)
            (Some ''current host-safe backend cannot prove prior live process generation after runtime restart'')
            ''task.interrupted'' ''task interrupted rather than guessing prior backend state'' (JObject []) s)
          (\<lambda>s _. (s, Ok ()))
        else (s, Ok ())))"

definition reconcile_after_runtime_restart :: "Os \<Rightarrow> TaskEngine \<Rightarrow> TaskEngine \<times> (TaskError + unit)" where
  "reconcile_after_runtime_restart os s =
     st_each (reconcile_task os) s (nonterminal_task_ids (te_db s))"

end
