(* ===== verification/Task_Properties.thy ===== *)
theory Task_Properties
  imports Task_Store
begin

section \<open>The task store\<close>

text \<open>
  The invariant of the task tables (a row is stored under its own id, its event counter is the
  number of its latest event, its id is acceptable as an event reference) and what each operation
  does to them. \<open>task_store_step\<close> is the relation of all state-changing operations; its invariants
  are proved by rule induction.
\<close>

definition ref_ok :: "string \<Rightarrow> bool" where
  "ref_ok t \<longleftrightarrow> \<not> trim_is_empty t \<and> length t \<le> MAX_SIGNIFICANT_EVENT_REF_BYTES
     \<and> \<not> contains_char t line_breaks \<and> \<not> secret_like_text t"

definition task_row_wf :: "events \<Rightarrow> TaskId \<Rightarrow> TaskRow \<Rightarrow> bool" where
  "task_row_wf evs t x \<longleftrightarrow> tk_task_id x = t \<and> ref_ok t \<and> 0 < tk_last_event_sequence x
     \<and> tk_last_event_sequence x = latest_sequence evs ObjTask t"

definition task_db_wf :: "PortusState \<Rightarrow> bool" where
  "task_db_wf db \<longleftrightarrow> bt_sorted (db_tasks db) \<and> events_wf (db_events db) \<and>
     (\<forall>t. case bt_get (db_tasks db) t of
        None \<Rightarrow> object_events (db_events db) ObjTask t = []
      | Some x \<Rightarrow> task_row_wf (db_events db) t x)"

definition empty_state :: PortusState where
  "empty_state = \<lparr>db_projects = [], db_sessions = [], db_tasks = [], db_attempts = [],
     db_relationships = [], db_events = []\<rparr>"

lemma events_wf_Nil: "events_wf []"
  unfolding events_wf_def object_log_wf_def
  by (intro allI exI [of _ 0]) (simp add: sequences_def object_events_def)

lemma empty_state_wf: "task_db_wf empty_state"
  by (simp add: task_db_wf_def empty_state_def bt_sorted_def bt_get_def events_wf_Nil)
     (simp add: object_events_def)

lemma task_db_wf_row:
  "task_db_wf db \<Longrightarrow> bt_get (db_tasks db) t = Some x \<Longrightarrow> task_row_wf (db_events db) t x"
  unfolding task_db_wf_def by (metis option.simps(5))

lemma task_row_visible_Some:
  "task_row_visible db t p = Some x \<longleftrightarrow> bt_get (db_tasks db) t = Some x \<and> tk_owner x = p"
  by (auto simp: task_row_visible_def split: option.splits)

lemma summary_columns [simp]:
  "tk_task_id (task_summary_from_row db x) = tk_task_id x"
  "tk_owner (task_summary_from_row db x) = tk_owner x"
  "tk_state (task_summary_from_row db x) = tk_state x"
  "tk_last_event_sequence (task_summary_from_row db x) = tk_last_event_sequence x"
  by (cases x; simp add: task_summary_from_row_def TaskColumns.defs TaskSummary.defs)+

lemma task_view_Some:
  "task_view_visible db t p = Some v \<longleftrightarrow>
     (\<exists>x. bt_get (db_tasks db) t = Some x \<and> tk_owner x = p
        \<and> v = \<lparr>tv_task = task_summary_from_row db x, tv_relationships = task_relationships db t\<rparr>)"
  by (auto simp: task_view_visible_def task_summary_visible_def task_row_visible_def split: option.splits)

subsection \<open>Creation\<close>

lemma created_fields [simp]:
  "tk_task_id (created_row spec) = nt_task_id spec" "tk_owner (created_row spec) = nt_owner spec"
  "tk_state (created_row spec) = TaskCreated" "tk_last_event_sequence (created_row spec) = 1"
  "ne_object_kind (created_event spec) = ObjTask" "ne_object_ref (created_event spec) = nt_task_id spec"
  by (simp_all add: created_row_def created_event_def)

lemma create_task_cases:
  assumes "create_task to_json db spec = (db', res)"
  obtains (failed) e where "db' = db" "res = Err e"
  | (created) evs' where "bt_get (db_tasks db) (nt_task_id spec) = None"
      "insert_significant_event_tx to_json (db_events db) (created_event spec) 1 = Ok evs'"
      "db' = db\<lparr>db_tasks := bt_insert (nt_task_id spec) (created_row spec) (db_tasks db),
                db_events := prune_object_tx evs' ObjTask (nt_task_id spec) 1\<rparr>"
      "res = Ok \<lparr>tv_task = task_summary_from_row db' (created_row spec),
                 tv_relationships = task_relationships db' (nt_task_id spec)\<rparr>"
proof (cases res)
  case (Inl e)
  have "db' = db"
  proof (rule ccontr)
    assume "db' \<noteq> db"
    then obtain tasks' where "insert_task_row (db_tasks db) (created_row spec) = Ok tasks'"
      "db_tasks db' = tasks'" "ok_or (task_view_visible db' (nt_task_id spec) (nt_owner spec))
          (InvalidTaskState ''created task is not readable'') = Err e"
      using assms Inl unfolding create_task_def
      by (auto simp: result_simps split: sum.splits)
    then have "db_tasks db' = bt_insert (nt_task_id spec) (created_row spec) (db_tasks db)"
      and "task_view_visible db' (nt_task_id spec) (nt_owner spec) = None"
      by (auto simp: insert_task_row_def Let_def result_simps split: if_splits)
    then show False
      by (simp add: task_view_visible_def task_summary_visible_def task_row_visible_def btree_simps)
  qed
  with Inl show ?thesis by (rule failed [rotated])
next
  case (Inr v)
  then obtain tasks' evs' where "insert_task_row (db_tasks db) (created_row spec) = Ok tasks'"
    and ev: "insert_significant_event_tx to_json (db_events db) (created_event spec) 1 = Ok evs'"
    and db': "db' = db\<lparr>db_tasks := tasks', db_events := prune_object_tx evs' ObjTask (nt_task_id spec) 1\<rparr>"
    and v: "task_view_visible db' (nt_task_id spec) (nt_owner spec) = Some v"
    using assms by (auto simp: create_task_def result_simps split: sum.splits)
  then have "tasks' = bt_insert (nt_task_id spec) (created_row spec) (db_tasks db)"
    and "bt_get (db_tasks db) (nt_task_id spec) = None"
    by (auto simp: insert_task_row_def Let_def bt_contains_key_def split: if_splits)
  then show ?thesis
    using ev db' v Inr by (intro created) (auto simp: task_view_Some btree_simps)
qed

lemma ref_ok_validated: "validate_event to_json e = Ok u \<Longrightarrow> ref_ok (ne_object_ref e)"
  by (auto simp: validate_event_def result_simps event_validate_nonempty_Ok event_texts_def ref_ok_def
      split: if_splits)

lemma log_empty_latest: "object_events evs k r = [] \<Longrightarrow> latest_sequence evs k r = 0"
  by (simp add: latest_sequence_def max_sequence_def)

lemma latest_cong: "object_events evs k r = object_events evs' k r
    \<Longrightarrow> latest_sequence evs k r = latest_sequence evs' k r"
  by (simp add: latest_sequence_def)

text \<open>A row and its next event written together keep the invariant.\<close>

lemma write_row_wf:
  assumes wf: "task_db_wf db"
    and ins: "insert_significant_event_tx to_json (db_events db) e n = Ok evs'"
    and e: "ne_object_kind e = ObjTask" "ne_object_ref e = t"
    and n: "n = latest_sequence (db_events db) ObjTask t + 1" "n \<le> nat i64_max"
    and x: "tk_task_id x = t" "tk_last_event_sequence x = n"
  shows "task_db_wf (db\<lparr>db_tasks := bt_insert t x (db_tasks db),
                        db_events := prune_object_tx evs' ObjTask t n\<rparr>)"
proof -
  have ev: "events_wf (db_events db)" using wf by (simp add: task_db_wf_def)
  note log = insert_prune_log [OF ev ins, unfolded e, OF n]
  have ref: "ref_ok t"
    using ref_ok_validated insert_event_Ok(1) [OF ins] e by auto
  have same: "object_events (prune_object_tx evs' ObjTask t n) ObjTask t' = object_events (db_events db) ObjTask t'"
    if "t' \<noteq> t" for t'
    using log(3) [of ObjTask t'] that by simp
  show ?thesis
    unfolding task_db_wf_def
  proof (intro conjI allI, goal_cases)
    case 1
    then show ?case using wf by (simp add: task_db_wf_def btree_simps)
  next
    case 2
    then show ?case using log(1) by simp
  next
    case (3 t')
    show ?case
    proof (cases "t' = t")
      case True
      then show ?thesis using log(2) ref x n by (simp add: btree_simps task_row_wf_def)
    next
      case False
      have "case bt_get (db_tasks db) t' of
          None \<Rightarrow> object_events (db_events db) ObjTask t' = []
        | Some x \<Rightarrow> task_row_wf (db_events db) t' x"
        using wf unfolding task_db_wf_def by blast
      then show ?thesis
        using False same [OF False] latest_cong [OF same [OF False]]
        by (simp add: btree_simps task_row_wf_def split: option.splits)
    qed
  qed
qed

lemma create_task_wf:
  assumes "task_db_wf db" and "create_task to_json db spec = (db', res)"
  shows "task_db_wf db'"
  using assms(2)
proof (cases rule: create_task_cases)
  case (created evs')
  have "object_events (db_events db) ObjTask (nt_task_id spec) = []"
    using assms(1) created(1) unfolding task_db_wf_def by (metis option.simps(4))
  then have n: "1 = latest_sequence (db_events db) ObjTask (nt_task_id spec) + 1"
    by (simp add: log_empty_latest)
  show ?thesis
    unfolding created(3)
    by (rule write_row_wf [OF assms(1) created(2) _ _ n]) (simp_all add: i64_max_def)
qed (use assms(1) in simp)

subsection \<open>Transitions\<close>

lemma transition_fields [simp]:
  "tk_task_id (transition_row tr n x) = tk_task_id x" "tk_owner (transition_row tr n x) = tk_owner x"
  "tk_state (transition_row tr n x) = tt_next tr"
  "tk_last_event_sequence (transition_row tr n x) = i64_of_u64 n"
  "ne_object_kind (transition_event t p tr) = ObjTask" "ne_object_ref (transition_event t p tr) = t"
  by (simp_all add: transition_row_def transition_event_def)

lemma transition_task_cases:
  assumes "transition_task to_json db t p tr = (db', res)"
  obtains (failed) e where "db' = db" "res = Err e"
  | (moved) x n evs' where "bt_get (db_tasks db) t = Some x" "tk_owner x = p"
      "tk_state x = tt_expected tr" "n = sat_add_u64 (tk_last_event_sequence x) 1"
      "insert_significant_event_tx to_json (db_events db) (transition_event t p tr) n = Ok evs'"
      "db' = db\<lparr>db_tasks := bt_insert t (transition_row tr n x) (db_tasks db),
                db_events := prune_object_tx evs' ObjTask t n\<rparr>"
      "res = Ok \<lparr>tv_task = task_summary_from_row db' (transition_row tr n x),
                 tv_relationships = task_relationships db' t\<rparr>"
proof (cases "and_then (transition_validate to_json tr) (\<lambda>_.
        and_then (ok_or (task_summary_visible db t p) (InvalidTaskState ''task is not visible'')) (\<lambda>current.
        if tk_state current \<noteq> tt_expected tr
        then Err (TaskPreconditionFailed (task_state_as_str (tt_expected tr)) (task_state_as_str (tk_state current)))
        else transition_tx to_json db t p tr (sat_add_u64 (tk_last_event_sequence current) 1)))")
  case (Inl e)
  then show ?thesis using assms by (intro failed [of e]) (simp_all add: transition_task_def)
next
  case (Inr db1)
  then obtain x where x: "task_row_visible db t p = Some x" "tk_state x = tt_expected tr"
    and tx: "transition_tx to_json db t p tr (sat_add_u64 (tk_last_event_sequence x) 1) = Ok db1"
    by (auto simp: result_simps task_summary_visible_def split: if_splits)
  let ?n = "sat_add_u64 (tk_last_event_sequence x) 1"
  from tx x obtain evs' where
    ev: "insert_significant_event_tx to_json (db_events db) (transition_event t p tr) ?n = Ok evs'"
    and db1: "db1 = db\<lparr>db_tasks := bt_insert t (transition_row tr ?n x) (db_tasks db),
                      db_events := prune_object_tx evs' ObjTask t ?n\<rparr>"
    by (auto simp: transition_tx_def result_simps)
  have "task_view_visible db1 t p = Some \<lparr>tv_task = task_summary_from_row db1 (transition_row tr ?n x),
      tv_relationships = task_relationships db1 t\<rparr>"
    using x by (auto simp: task_view_Some db1 btree_simps task_row_visible_Some)
  moreover have "db' = db1" "res = ok_or (task_view_visible db1 t p)
      (InvalidTaskState ''transitioned task is not readable'')"
    using assms by (auto simp: transition_task_def Inr)
  ultimately show ?thesis
    using x ev db1 by (intro moved [of x ?n evs']) (simp_all add: task_row_visible_Some)
qed

lemma max_sequence_mem: "max_sequence xs = Some m \<Longrightarrow> m \<in> sg_sequence ` set xs"
proof -
  have "fold max ys a \<in> insert a (set ys)" for ys and a :: nat
    by (induction ys arbitrary: a) (auto, (metis insert_iff max_def)+)
  then show "max_sequence xs = Some m \<Longrightarrow> m \<in> sg_sequence ` set xs"
    by (auto simp: max_sequence_def split: list.splits) (metis insert_iff list.set_map list.simps(15))
qed

text \<open>A counter at the largest \<open>i64\<close> cannot advance: the clamped number is taken.\<close>

lemma next_event_number:
  assumes wf: "task_db_wf db" and x: "bt_get (db_tasks db) t = Some x"
    and ins: "insert_significant_event_tx to_json (db_events db) e (sat_add_u64 (tk_last_event_sequence x) 1) = Ok evs'"
    and e: "ne_object_kind e = ObjTask" "ne_object_ref e = t"
  defines "n \<equiv> sat_add_u64 (tk_last_event_sequence x) 1"
  shows "n = latest_sequence (db_events db) ObjTask t + 1" and "n \<le> nat i64_max"
proof -
  let ?last = "tk_last_event_sequence x"
  have pos: "0 < ?last" and latest: "?last = latest_sequence (db_events db) ObjTask t"
    using task_db_wf_row [OF wf x] by (simp_all add: task_row_wf_def)
  then have "max_sequence (object_events (db_events db) ObjTask t) = Some ?last"
    by (auto simp: latest_sequence_def split: option.splits)
  then obtain y where y: "y \<in> set (object_events (db_events db) ObjTask t)" "sg_sequence y = ?last"
    by (auto dest!: max_sequence_mem)
  have bound: "?last \<le> nat i64_max"
    using event_sequence_bound [OF _ y(1)] wf y(2) by (simp add: task_db_wf_def)
  have small: "nat i64_max < u64_max" by (simp add: i64_max_def u64_max_def)
  then have n: "n = ?last + 1" using bound by (simp add: n_def sat_add_u64_def)
  then show "n = latest_sequence (db_events db) ObjTask t + 1" using latest by simp
  show "n \<le> nat i64_max"
  proof (rule ccontr)
    assume "\<not> n \<le> nat i64_max"
    then have "i64_of_u64 n = ?last" using n bound by (simp add: i64_of_u64_def)
    then show False
      using ins y e unfolding n_def [symmetric]
      by (auto simp: insert_significant_event_tx_def result_simps list_ex_iff Let_def split: if_splits)
  qed
qed

lemma transition_task_wf:
  assumes "task_db_wf db" and "transition_task to_json db t p tr = (db', res)"
  shows "task_db_wf db'"
  using assms(2)
proof (cases rule: transition_task_cases)
  case (moved x n evs')
  note seq = next_event_number [OF assms(1) moved(1) moved(5) [unfolded moved(4)], folded moved(4)]
  have "tk_task_id x = t"
    using task_db_wf_row [OF assms(1) moved(1)] by (simp add: task_row_wf_def)
  then show ?thesis
    unfolding moved(6)
    by (intro write_row_wf [OF assms(1) moved(5) _ _ seq]) (simp_all add: seq(2) i64_of_u64_def)
qed (use assms(1) in simp)

subsection \<open>The other tables\<close>

text \<open>Projects, sessions, attempts and relationships are written without touching a task row or an
  event.\<close>

definition same_tasks :: "PortusState \<Rightarrow> PortusState \<Rightarrow> bool" where
  "same_tasks db db' \<longleftrightarrow> db_tasks db' = db_tasks db \<and> db_events db' = db_events db"

lemma same_tasks_wf: "same_tasks db db' \<Longrightarrow> task_db_wf db \<Longrightarrow> task_db_wf db'"
  unfolding same_tasks_def task_db_wf_def by (elim conjE) (simp only: simp_thms)

lemma st_then_same_tasks:
  "(\<And>x. same_tasks db (fst (f db x))) \<Longrightarrow> same_tasks db (fst (st_then (db, r) f))"
  by (cases r) (simp_all add: same_tasks_def)

lemma aux_same_tasks:
  "same_tasks db (fst (register_project db p r w d now))"
  "same_tasks db (fst (register_session_reference db p r sk pr sn wd ro mn so now))"
  "same_tasks db (fst (start_task_attempt db t k b rs st))"
  "same_tasks db (fst (finish_task_attempt db a out cl code fin))"
  "same_tasks db (fst (add_task_relationship db n))"
  "same_tasks db (fst (update_task_relationship_status db rid status now))"
  unfolding register_project_def register_session_reference_def start_task_attempt_def
    finish_task_attempt_def add_task_relationship_def update_task_relationship_status_def
  by (rule st_then_same_tasks, simp add: same_tasks_def Let_def split: option.split)+
     (simp add: same_tasks_def)

text \<open>All operations that change the database.\<close>

inductive task_store_step :: "(json \<Rightarrow> string option) \<Rightarrow> PortusState \<Rightarrow> PortusState \<Rightarrow> bool"
  for to_json where
  step_project: "task_store_step to_json db (fst (register_project db p r w d now))"
| step_session: "task_store_step to_json db (fst (register_session_reference db p r sk pr sn wd ro mn so now))"
| step_create: "task_store_step to_json db (fst (create_task to_json db spec))"
| step_transition: "task_store_step to_json db (fst (transition_task to_json db t p tr))"
| step_start_attempt: "task_store_step to_json db (fst (start_task_attempt db t k b rs st))"
| step_finish_attempt: "task_store_step to_json db (fst (finish_task_attempt db a out cl code fin))"
| step_relationship: "task_store_step to_json db (fst (add_task_relationship db n))"
| step_status: "task_store_step to_json db (fst (update_task_relationship_status db rid status now))"

lemma create_task_fst_wf: "task_db_wf db \<Longrightarrow> task_db_wf (fst (create_task to_json db spec))"
  by (cases "create_task to_json db spec") (auto intro: create_task_wf)

lemma transition_task_fst_wf: "task_db_wf db \<Longrightarrow> task_db_wf (fst (transition_task to_json db t p tr))"
  by (cases "transition_task to_json db t p tr") (auto intro: transition_task_wf)

lemma task_store_step_wf: "task_store_step to_json db db' \<Longrightarrow> task_db_wf db \<Longrightarrow> task_db_wf db'"
  by (induction rule: task_store_step.induct)
     (auto intro: create_task_fst_wf transition_task_fst_wf same_tasks_wf aux_same_tasks)

subsection \<open>Properties of the store\<close>

text \<open>C25. In every database the operations of the task store can produce from the empty one, every
  task row is stored under its own id, its \<open>last_event_sequence\<close> is the sequence number of its
  newest event, an id without a row has no events, and every event log is well formed.
\<close>

theorem task_store_invariant:
  assumes "(task_store_step to_json)\<^sup>*\<^sup>* empty_state db"
  shows "task_db_wf db"
  using assms by (induction rule: rtranclp_induct) (auto intro: empty_state_wf task_store_step_wf)

lemma transition_task_outcome:
  assumes "task_db_wf db" and "transition_task to_json db t p tr = (db', res)"
  shows "case res of
      Inl e \<Rightarrow> db' = db
    | Inr v \<Rightarrow> \<exists>x n. bt_get (db_tasks db) t = Some x \<and> tk_owner x = p \<and> tk_state x = tt_expected tr
        \<and> n = tk_last_event_sequence x + 1
        \<and> bt_get (db_tasks db') = (bt_get (db_tasks db))(t \<mapsto> transition_row tr n x)
        \<and> tk_last_event_sequence (tv_task v) = n \<and> tk_state (tv_task v) = tt_next tr
        \<and> (\<forall>k r. object_events (db_events db') k r =
              (if k = ObjTask \<and> r = t
               then newest MAX_SIGNIFICANT_EVENTS_PER_OBJECT
                 (object_events (db_events db) k r @ [event_row (transition_event t p tr) n])
               else object_events (db_events db) k r))"
  using assms(2)
proof (cases rule: transition_task_cases)
  case (moved x n evs')
  note seq = next_event_number [OF assms(1) moved(1) moved(5) [unfolded moved(4)], folded moved(4), unfolded transition_fields, OF refl refl]
  have ev: "events_wf (db_events db)" using assms(1) by (simp add: task_db_wf_def)
  note log = insert_prune_log [OF ev moved(5), unfolded transition_fields, OF seq]
  have n: "n = tk_last_event_sequence x + 1" "i64_of_u64 n = n"
    using seq task_db_wf_row [OF assms(1) moved(1)] by (simp_all add: task_row_wf_def i64_of_u64_def)
  have logs: "object_events (db_events db') k r =
      (if k = ObjTask \<and> r = t
       then newest MAX_SIGNIFICANT_EVENTS_PER_OBJECT
         (object_events (db_events db) k r @ [event_row (transition_event t p tr) n])
       else object_events (db_events db) k r)" for k r
    using log(3) [of k r] log(4) by (auto simp: moved(6))
  show ?thesis
    unfolding moved(7) sum.case
    by (intro exI [of _ x] exI [of _ n] conjI allI logs)
       (simp_all add: moved(1-3,6) n(1) n(2) [unfolded n(1)] btree_simps fun_eq_iff del: add_Suc_right Suc_eq_plus1 One_nat_def)
qed simp

text \<open>C24. A task transition is atomic. On an error nothing changes. On success the task was visible to
  the caller and in the expected state; its row moves to the next state with its event counter
  advanced by one, exactly one event, with that number and the transition's data, is added to its
  log, and no other row or log changes.
\<close>

theorem transition_task_atomic:
  assumes "task_db_wf db" and "transition_task to_json db t p tr = (db', res)"
  shows "case res of
      Inl e \<Rightarrow> db' = db
    | Inr v \<Rightarrow> \<exists>x n. bt_get (db_tasks db) t = Some x \<and> tk_owner x = p \<and> tk_state x = tt_expected tr
        \<and> n = tk_last_event_sequence x + 1
        \<and> bt_get (db_tasks db') = (bt_get (db_tasks db))(t \<mapsto> transition_row tr n x)
        \<and> tk_last_event_sequence (tv_task v) = n \<and> tk_state (tv_task v) = tt_next tr
        \<and> (\<forall>k r. object_events (db_events db') k r =
              (if k = ObjTask \<and> r = t
               then newest MAX_SIGNIFICANT_EVENTS_PER_OBJECT
                 (object_events (db_events db) k r @ [event_row (transition_event t p tr) n])
               else object_events (db_events db) k r))"
  using assms by (rule transition_task_outcome)

subsection \<open>Ownership\<close>





subsection \<open>Paging\<close>

definition matching_tasks :: "PortusState \<Rightarrow> Principal \<Rightarrow> TaskListFilter \<Rightarrow> TaskSummary list" where
  "matching_tasks db p f =
     map (\<lambda>kx. task_summary_from_row db (snd kx)) (rev (filter (task_matches p f None) (db_tasks db)))"

definition task_page ::
  "PortusState \<times> Principal \<times> TaskListFilter \<times> u16 \<Rightarrow> TaskId option \<Rightarrow> TaskSummary list \<times> TaskId option" where
  "task_page q after =
     (case q of (db, p, f, limit) \<Rightarrow>
       case list_tasks_visible db p f limit after of
         Inl _ \<Rightarrow> ([], None) | Inr pg \<Rightarrow> (tp_items pg, tp_next_cursor pg))"

definition task_query_ok :: "PortusState \<times> Principal \<times> TaskListFilter \<times> u16 \<Rightarrow> bool" where
  "task_query_ok q =
     (case q of (db, p, f, limit) \<Rightarrow>
       task_db_wf db \<and> limit \<noteq> 0 \<and> limit \<le> 200
       \<and> task_validate_optional (tf_project_ref f) MAX_TASK_REF_BYTES ''project filter'' = Ok ())"

lemma task_matches_after:
  "task_matches p f after kx \<longleftrightarrow>
     task_matches p f None kx \<and> (case after of None \<Rightarrow> True | Some a \<Rightarrow> fst kx < a)"
  by (cases after) (auto simp: task_matches_def)

lemma stored_under_own_id:
  assumes "task_db_wf db" and "kx \<in> set (db_tasks db)"
  shows "bt_get (db_tasks db) (fst kx) = Some (snd kx)" and "tk_task_id (snd kx) = fst kx"
proof -
  show get: "bt_get (db_tasks db) (fst kx) = Some (snd kx)"
    using assms by (cases kx) (auto simp: task_db_wf_def bt_get_in_set)
  show "tk_task_id (snd kx) = fst kx"
    using task_db_wf_row [OF assms(1) get] by (simp add: task_row_wf_def)
qed

lemma map_filter_Some: "(\<And>x. x \<in> set xs \<Longrightarrow> f x = Some (g x)) \<Longrightarrow> List.map_filter f xs = map g xs"
  by (induction xs) (simp_all add: List.map_filter_def)

lemma listed_items:
  assumes "task_db_wf db" and "set xs \<subseteq> set (db_tasks db)" and "\<And>kx. kx \<in> set xs \<Longrightarrow> tk_owner (snd kx) = p"
  shows "List.map_filter (\<lambda>t. map_option tv_task (task_view_visible db t p)) (map fst xs)
    = map (\<lambda>kx. task_summary_from_row db (snd kx)) xs"
proof -
  have "List.map_filter (\<lambda>t. map_option tv_task (task_view_visible db t p)) (map fst xs)
    = List.map_filter (\<lambda>kx. map_option tv_task (task_view_visible db (fst kx) p)) xs"
    by (simp add: List.map_filter_def comp_def filter_map)
  also have "\<dots> = map (\<lambda>kx. task_summary_from_row db (snd kx)) xs"
  proof (rule map_filter_Some)
    fix kx assume "kx \<in> set xs"
    then have "bt_get (db_tasks db) (fst kx) = Some (snd kx)" and "tk_owner (snd kx) = p"
      using assms(2,3) stored_under_own_id [OF assms(1)] by auto
    then show "map_option tv_task (task_view_visible db (fst kx) p) = Some (task_summary_from_row db (snd kx))"
      by (simp add: task_view_visible_def task_summary_visible_def task_row_visible_def)
  qed
  finally show ?thesis .
qed

lemma task_page_eq:
  assumes ok: "task_query_ok (db, p, f, limit)"
  shows "task_page (db, p, f, limit) after =
    page_of (unat limit) tk_task_id
      (filter (\<lambda>x. case after of None \<Rightarrow> True | Some a \<Rightarrow> tk_task_id x < a) (matching_tasks db p f))"
proof -
  have wf: "task_db_wf db" and pos: "0 < unat limit"
    using ok by (auto simp: task_query_ok_def unat_pos_iff)
  define xs where "xs = rev (filter (task_matches p f after) (db_tasks db))"
  have items: "List.map_filter (\<lambda>t. map_option tv_task (task_view_visible db t p)) (take n (map fst xs))
      = take n (map (\<lambda>kx. task_summary_from_row db (snd kx)) xs)" for n
    unfolding take_map
    by (rule listed_items [OF wf]) (auto simp: xs_def task_matches_def dest!: in_set_takeD)
  have rows: "filter (\<lambda>x. case after of None \<Rightarrow> True | Some a \<Rightarrow> tk_task_id x < a) (matching_tasks db p f)
      = map (\<lambda>kx. task_summary_from_row db (snd kx)) xs"
  proof -
    have "filter (\<lambda>kx. task_matches p f None kx \<and>
          (case after of None \<Rightarrow> True | Some a \<Rightarrow> tk_task_id (task_summary_from_row db (snd kx)) < a)) (db_tasks db)
        = filter (task_matches p f after) (db_tasks db)"
      using stored_under_own_id(2) [OF wf]
      by (intro filter_cong refl) (subst task_matches_after [of p f after], simp cong: option.case_cong)
    then show ?thesis
      by (simp add: matching_tasks_def xs_def filter_map rev_filter [symmetric] comp_def)
  qed
  have limit: "\<not> (limit = 0 \<or> 200 < limit)"
    using ok by (auto simp: task_query_ok_def)
  have ids: "rev (map fst (filter (task_matches p f after) (db_tasks db))) = map fst xs"
    by (simp add: xs_def rev_map)
  have "list_tasks_visible db p f limit after =
      (let items = take (unat limit) (map (\<lambda>kx. task_summary_from_row db (snd kx)) xs)
       in Ok \<lparr>tp_items = items,
              tp_next_cursor = (if unat limit < length xs \<and> items \<noteq> [] then Some (tk_task_id (last items)) else None)\<rparr>)"
    using ok limit unfolding list_tasks_visible_def ids
    by (simp add: task_query_ok_def Let_def items min_def del: take_map)
  then show ?thesis
    unfolding rows using pos by (auto simp: task_page_def Let_def page_of_def)
qed


lemma matching_sorted:
  assumes "task_db_wf db"
  shows "sorted_wrt (\<lambda>x y. tk_task_id y < tk_task_id x) (matching_tasks db p f)"
proof -
  have "sorted_wrt (\<lambda>kx ky. fst kx < fst ky) (db_tasks db)"
    using assms by (simp add: task_db_wf_def bt_sorted_def sorted_wrt_map)
  then have "sorted_wrt (\<lambda>kx ky. fst ky < fst kx) (rev (filter (task_matches p f None) (db_tasks db)))"
    by (simp add: sorted_wrt_rev sorted_wrt_filter)
  then show ?thesis
    unfolding matching_tasks_def sorted_wrt_map
    by (rule sorted_wrt_mono_rel [rotated]) (simp add: stored_under_own_id(2) [OF assms])
qed

interpretation task_list: paged_query
  task_query_ok "\<lambda>(db, p, f, _). matching_tasks db p f" "\<lambda>(_, _, _, limit). unat limit"
  tk_task_id "\<lambda>_ c x. tk_task_id x < c" task_page
proof (unfold_locales, goal_cases)
  case (1 q)
  then show ?case by (cases q) (auto simp: task_query_ok_def unat_pos_iff)
next
  case (2 q)
  then show ?case by (cases q) (simp add: task_page_eq)
next
  case (3 q c)
  then show ?case by (cases q) (simp add: task_page_eq)
next
  case (4 q xs y ys)
  obtain db p f limit where q: "q = (db, p, f, limit)" by (cases q)
  have split: "matching_tasks db p f = xs @ y # ys" using 4(2) by (simp add: q)
  have "sorted_wrt (\<lambda>x y. tk_task_id y < tk_task_id x) (xs @ y # ys)"
    using matching_sorted [of db p f] 4(1) by (simp add: q task_query_ok_def split)
  then show ?case
    by (auto simp: q split sorted_wrt_append intro!: filter_True filter_False dest: order.asym)
qed

text \<open>Listing the tasks of a principal page by page and following \<open>next_cursor\<close> until it is absent
  delivers every task of that principal that passes the filter exactly once, newest id first; one
  more request than there are tasks always suffices.
\<close>

theorem task_pages_complete:
  assumes "task_db_wf db" and "limit \<noteq> 0" and "limit \<le> 200"
    and "task_validate_optional (tf_project_ref f) MAX_TASK_REF_BYTES ''project filter'' = Ok ()"
  shows "follow (Suc (length (matching_tasks db p f))) (task_page (db, p, f, limit)) None
    = Some (matching_tasks db p f)"
  using task_list.follow_all [of "(db, p, f, limit)"] assms
  by (simp add: task_query_ok_def del: follow.simps)


subsection \<open>Witnesses\<close>

definition demo_spec :: NewTaskRecord where
  "demo_spec =
     \<lparr>nt_task_id = ''task_1'', nt_owner = principal_new 1000 1000, nt_title = None,
      nt_objective_summary = ''build'', nt_requester_surface = ''cli'', nt_project_ref = None,
      nt_session_ref = None, nt_parent_task_id = None, nt_retry_of_task_id = None,
      nt_retry_safety = RetryNever, nt_created_at_ms = 10\<rparr>"

definition demo_transition :: TaskTransition where
  "demo_transition =
     \<lparr>tt_expected = TaskCreated, tt_next = TaskStarting, tt_state_reason = Some ''launching'',
      tt_waiting_reason = None, tt_result_kind = None, tt_result_summary = None,
      tt_event_kind = ''task.starting'', tt_event_summary = None, tt_source_ref = Some ''portus-task'',
      tt_event_data = JObject [], tt_occurred_at_ms = 11\<rparr>"

definition demo_db :: PortusState where
  "demo_db = empty_state\<lparr>db_tasks := [(''task_1'', created_row demo_spec)],
     db_events := [event_row (created_event demo_spec) 1]\<rparr>"

lemma u32_or_max_code [code]: "u32_or_max n = (if int n \<le> 2 ^ 32 - 1 then n else 2 ^ 32 - 1)"
  by (auto simp: u32_or_max_def)

lemma demo_create: "create_task demo_to_json empty_state demo_spec =
    (demo_db, Ok \<lparr>tv_task = task_summary_from_row demo_db (created_row demo_spec), tv_relationships = []\<rparr>)"
  by code_simp


lemma demo_reachable: "(task_store_step demo_to_json)\<^sup>*\<^sup>* empty_state demo_db"
  using step_create [of demo_to_json empty_state demo_spec] by (simp add: demo_create r_into_rtranclp)

lemma demo_db_wf: "task_db_wf demo_db"
  using create_task_wf [OF empty_state_wf demo_create] .

definition demo_moved_db :: PortusState where
  "demo_moved_db = demo_db\<lparr>db_tasks := [(''task_1'', transition_row demo_transition 2 (created_row demo_spec))],
     db_events := db_events demo_db @
       [event_row (transition_event ''task_1'' (principal_new 1000 1000) demo_transition) 2]\<rparr>"

lemma demo_move: "transition_task demo_to_json demo_db ''task_1'' (principal_new 1000 1000) demo_transition =
    (demo_moved_db, Ok \<lparr>tv_task = task_summary_from_row demo_moved_db
        (transition_row demo_transition 2 (created_row demo_spec)), tv_relationships = []\<rparr>)"
  by code_simp

theorem task_store_invariant_witness:
  "task_db_wf demo_db \<and> bt_get (db_tasks demo_db) ''task_1'' = Some (created_row demo_spec)"
  using task_store_invariant [OF demo_reachable] by (simp add: demo_db_def bt_get_def)

theorem transition_task_atomic_witness:
  "object_events (db_events demo_moved_db) ObjTask ''task_1'' =
     newest 512 (object_events (db_events demo_db) ObjTask ''task_1''
       @ [event_row (transition_event ''task_1'' (principal_new 1000 1000) demo_transition) 2])"
  using transition_task_atomic [OF demo_db_wf demo_move]
  by (auto simp: demo_db_def bt_get_def MAX_SIGNIFICANT_EVENTS_PER_OBJECT_def numeral_2_eq_2)


theorem task_pages_complete_witness:
  "follow 2 (task_page (demo_db, principal_new 1000 1000, \<lparr>tf_state = None, tf_project_ref = None\<rparr>, 1)) None
     = Some [task_summary_from_row demo_db (created_row demo_spec)]"
proof -
  have all: "matching_tasks demo_db (principal_new 1000 1000) \<lparr>tf_state = None, tf_project_ref = None\<rparr>
      = [task_summary_from_row demo_db (created_row demo_spec)]"
    by code_simp
  have "follow (Suc (length (matching_tasks demo_db (principal_new 1000 1000)
        \<lparr>tf_state = None, tf_project_ref = None\<rparr>)))
      (task_page (demo_db, principal_new 1000 1000, \<lparr>tf_state = None, tf_project_ref = None\<rparr>, 1)) None
    = Some (matching_tasks demo_db (principal_new 1000 1000) \<lparr>tf_state = None, tf_project_ref = None\<rparr>)"
    by (rule task_pages_complete [OF demo_db_wf]) (simp_all add: task_validate_optional_def)
  then show ?thesis by (simp add: all numeral_2_eq_2 del: follow.simps)
qed

end
