(* ===== verification/Task_Engine_Properties.thy ===== *)
theory Task_Engine_Properties
  imports Task_Engine Task_Properties
begin

section \<open>The task engine: lifecycle and notifications\<close>

text \<open>
  Every operation of the engine is a sequence of \<open>engine_step\<close>s: a task created and announced, a
  task moved along an edge of \<open>can_transition\<close> and announced, or a change that concerns no task row
  and no event. What holds of the operations is proved by induction on that relation.
\<close>

abbreviation engine_wf :: "TaskEngine \<Rightarrow> bool" where
  "engine_wf s \<equiv> task_db_wf (te_db s)"

subsection \<open>Announcing an event\<close>

lemma page_of_newest:
  assumes wf: "events_wf evs" and log: "object_events evs k r = pre @ [row]"
    and ref: "ref_ok r" and n: "sg_sequence row = n"
  obtains p where "significant_events_for_object evs k r (Some (n - 1)) 1 = Ok p" "pg_events p = [row]"
proof -
  have srt: "sorted_wrt (\<lambda>x y. sg_sequence x < sg_sequence y) (pre @ [row])"
    using events_sorted [OF wf, of k r] by (simp add: log)
  have b: "0 < n" "n \<le> nat i64_max"
    using event_sequence_bounds [OF wf, of row k r] by (simp_all add: log n)
  then have "i64_of_u64 (n - 1) = n - 1" by (simp add: i64_of_u64_def)
  then have "filter (\<lambda>x. i64_of_u64 (n - 1) < sg_sequence x) (object_events evs k r) = [row]"
    using srt n b by (auto simp: log sorted_wrt_append intro!: filter_False)
  then show ?thesis
    using that ref
    by (auto simp: significant_events_for_object_def ref_ok_def MAX_SIGNIFICANT_EVENT_PAGE_def Let_def
        filter_sorted_id [OF wf])
qed

lemma notify_event_announces:
  assumes wf: "engine_wf s" and x: "bt_get (db_tasks (te_db s)) t = Some x" "tk_owner x = owner"
    and log: "object_events (db_events (te_db s)) ObjTask t = pre @ [row]" and n: "sg_sequence row = n"
  shows "notify_event t owner n s = (s\<lparr>te_sink := te_sink s @ [task_event_of t row]\<rparr>, Ok ())"
proof -
  have ev: "events_wf (db_events (te_db s))" using wf by (simp add: task_db_wf_def)
  have "ref_ok t" using task_db_wf_row [OF wf x(1)] by (simp add: task_row_wf_def)
  then obtain p where p: "significant_events_for_object (db_events (te_db s)) ObjTask t (Some (n - 1)) 1 = Ok p"
    "pg_events p = [row]"
    using page_of_newest [OF ev log _ n] by blast
  then show ?thesis
    using x n
    by (simp add: notify_event_def task_events_visible_def task_summary_visible_def task_row_visible_def
        task_event_of_def)
qed

lemma task_event_fields [simp]:
  "te_task_id (task_event_of t e) = t" "te_sequence (task_event_of t e) = sg_sequence e"
  by (simp_all add: task_event_of_def)

lemma newest_snoc: "0 < n \<Longrightarrow> \<exists>pre. newest n (xs @ [x]) = pre @ [x]"
  by (auto simp: newest_def)

lemma last_event_bound: "engine_wf s \<Longrightarrow> bt_get (db_tasks (te_db s)) t = Some x
    \<Longrightarrow> tk_last_event_sequence x = latest_sequence (db_events (te_db s)) ObjTask t"
  using task_db_wf_row by (auto simp: task_row_wf_def)

subsection \<open>Steps\<close>

definition last_of :: "PortusState \<Rightarrow> TaskId \<Rightarrow> nat" where
  "last_of db t = (case bt_get (db_tasks db) t of None \<Rightarrow> 0 | Some x \<Rightarrow> tk_last_event_sequence x)"

definition other_logs :: "TaskId \<Rightarrow> TaskEngine \<Rightarrow> TaskEngine \<Rightarrow> bool" where
  "other_logs t s s' \<longleftrightarrow> (\<forall>u. u \<noteq> t \<longrightarrow>
     object_events (db_events (te_db s')) ObjTask u = object_events (db_events (te_db s)) ObjTask u)"

inductive engine_step :: "TaskEngine \<Rightarrow> TaskEngine \<Rightarrow> bool" where
  quiet: "same_tasks (te_db s) (te_db s') \<Longrightarrow> te_sink s' = te_sink s \<Longrightarrow> engine_step s s'"
| created: "task_db_wf (te_db s') \<Longrightarrow> bt_get (db_tasks (te_db s)) t = None
    \<Longrightarrow> bt_get (db_tasks (te_db s')) = (bt_get (db_tasks (te_db s)))(t \<mapsto> x)
    \<Longrightarrow> tk_state x = TaskCreated \<Longrightarrow> tk_last_event_sequence x = 1
    \<Longrightarrow> te_sink s' = te_sink s @ [e] \<Longrightarrow> te_task_id e = t \<Longrightarrow> te_sequence e = 1
    \<Longrightarrow> other_logs t s s' \<Longrightarrow> engine_step s s'"
| moved: "task_db_wf (te_db s') \<Longrightarrow> bt_get (db_tasks (te_db s)) t = Some x
    \<Longrightarrow> can_transition (tk_state x) (tk_state x') \<Longrightarrow> tk_owner x' = tk_owner x
    \<Longrightarrow> tk_last_event_sequence x' = tk_last_event_sequence x + 1
    \<Longrightarrow> bt_get (db_tasks (te_db s')) = (bt_get (db_tasks (te_db s)))(t \<mapsto> x')
    \<Longrightarrow> te_sink s' = te_sink s @ [e] \<Longrightarrow> te_task_id e = t \<Longrightarrow> te_sequence e = tk_last_event_sequence x'
    \<Longrightarrow> other_logs t s s' \<Longrightarrow> engine_step s s'"

abbreviation engine_steps :: "TaskEngine \<Rightarrow> TaskEngine \<Rightarrow> bool" where
  "engine_steps \<equiv> engine_step\<^sup>*\<^sup>*"

lemma engine_step_wf: "engine_step s s' \<Longrightarrow> engine_wf s \<Longrightarrow> engine_wf s'"
  by (induction rule: engine_step.induct) (auto intro: same_tasks_wf)

lemma engine_steps_wf: "engine_steps s s' \<Longrightarrow> engine_wf s \<Longrightarrow> engine_wf s'"
  by (induction rule: rtranclp_induct) (auto intro: engine_step_wf)

lemma quiet_steps: "same_tasks (te_db s) (te_db s') \<Longrightarrow> te_sink s' = te_sink s \<Longrightarrow> engine_steps s s'"
  by (rule r_into_rtranclp, rule quiet)

lemma refl_same [simp]: "same_tasks db db"
  by (simp add: same_tasks_def)

lemma st_then_steps:
  assumes "engine_wf s" and "engine_steps s (fst m)"
    and "\<And>s1 x. m = (s1, Ok x) \<Longrightarrow> engine_wf s1 \<Longrightarrow> engine_steps s1 (fst (f s1 x))"
  shows "engine_steps s (fst (st_then m f))"
proof (cases "snd m")
  case (Inl e)
  then have "st_then m f = (fst m, Err e)" by (cases m) simp
  then show ?thesis using assms(2) by simp
next
  case (Inr x)
  then have m: "m = (fst m, Ok x)" by (cases m) simp
  then have "st_then m f = f (fst m) x" by (metis st_then_simps(1))
  moreover have "engine_steps (fst m) (fst (f (fst m) x))"
    using assms(3) [OF m] engine_steps_wf [OF assms(2,1)] .
  ultimately show ?thesis using assms(2) by simp
qed

lemma create_notified_cases:
  assumes wf: "engine_wf s" and "create_notified os (nt_task_id spec) (nt_owner spec) spec s = (s', r)"
  shows "engine_steps s s'"
proof -
  obtain db' res where c: "create_task (os_to_json os) (te_db s) spec = (db', res)"
    by (cases "create_task (os_to_json os) (te_db s) spec")
  let ?s1 = "s\<lparr>te_db := db'\<rparr>"
  have wf1: "engine_wf ?s1" using create_task_wf [OF wf c] by simp
  from c show ?thesis
  proof (cases rule: create_task_cases)
    case (failed e)
    then show ?thesis
      using assms(2) c by (auto simp: create_notified_def db_try_def db_call_def)
  next
    case (created evs')
    let ?row = "event_row (created_event spec) 1"
    have ev: "events_wf (db_events (te_db s))" using wf by (simp add: task_db_wf_def)
    have empty: "object_events (db_events (te_db s)) ObjTask (nt_task_id spec) = []"
      using wf created(1) unfolding task_db_wf_def by (metis option.simps(4))
    have n: "1 = latest_sequence (db_events (te_db s)) ObjTask (nt_task_id spec) + 1"
      by (simp add: log_empty_latest empty)
    have "object_events (db_events db') ObjTask (nt_task_id spec) = newest MAX_SIGNIFICANT_EVENTS_PER_OBJECT [?row]"
      using insert_prune_log(4) [OF ev created(2), unfolded created_fields, OF n]
      by (simp add: created(3) empty i64_max_def)
    then have log: "object_events (db_events (te_db ?s1)) ObjTask (nt_task_id spec) = [] @ [?row]"
      by (simp add: newest_def MAX_SIGNIFICANT_EVENTS_PER_OBJECT_def)
    have get: "bt_get (db_tasks (te_db ?s1)) = (bt_get (db_tasks (te_db s)))(nt_task_id spec \<mapsto> created_row spec)"
      by (simp add: created(3) btree_simps fun_eq_iff)
    have "notify_event (nt_task_id spec) (nt_owner spec) 1 ?s1
        = (?s1\<lparr>te_sink := te_sink ?s1 @ [task_event_of (nt_task_id spec) ?row]\<rparr>, Ok ())"
      by (rule notify_event_announces [where x = "created_row spec", OF wf1 _ _ log]) (use get in simp_all)
    then have s': "s' = ?s1\<lparr>te_sink := te_sink s @ [task_event_of (nt_task_id spec) ?row]\<rparr>"
      using assms(2) c created(4) by (simp add: create_notified_def db_try_def db_call_def)
    have others: "other_logs (nt_task_id spec) s s'"
      using insert_prune_log(3) [OF ev created(2), unfolded created_fields, OF n]
      by (simp add: other_logs_def s' created(3) i64_max_def)
    have "engine_step s s'"
      by (rule engine_step.created [of s' s "nt_task_id spec" "created_row spec" "task_event_of (nt_task_id spec) ?row"])
         (use wf1 created(1) get others in \<open>simp_all add: s'\<close>)
    then show ?thesis by simp
  qed
qed


text \<open>The engine's \<open>transition\<close> either changes no task and announces nothing, or moves the task,
  announces the new event and returns the view.\<close>

lemma transition_cases:
  assumes wf: "engine_wf s"
    and tr: "transition os t owner from to reason kind summary ekind esummary edata s = (s', r)"
  obtains (refused) e where "r = Err e" "te_db s' = te_db s" "te_sink s' = te_sink s"
      "te_children s' = te_children s"
  | (moved) x x' v row where "bt_get (db_tasks (te_db s)) t = Some x" "tk_owner x = owner"
      "tk_state x = from" "can_transition from to" "tk_owner x' = owner" "tk_state x' = to"
      "tk_last_event_sequence x' = tk_last_event_sequence x + 1"
      "bt_get (db_tasks (te_db s')) = (bt_get (db_tasks (te_db s)))(t \<mapsto> x')"
      "te_sink s' = te_sink s @ [task_event_of t row]" "sg_sequence row = tk_last_event_sequence x'"
      "te_children s' = te_children s" "r = Ok v" "tk_state (tv_task v) = to"
      "task_db_wf (te_db s')" "db_relationships (te_db s') = db_relationships (te_db s)"
      "tk_owner (tv_task v) = owner" "tk_task_id (tv_task v) = t" "other_logs t s s'"
proof (cases "can_transition from to")
  case False
  then show ?thesis using tr by (intro refused) (auto simp: transition_def)
next
  case True
  define T where "T = \<lparr>tt_expected = from, tt_next = to, tt_state_reason = Some reason, tt_waiting_reason = None,
     tt_result_kind = kind, tt_result_summary = summary, tt_event_kind = ekind,
     tt_event_summary = Some esummary, tt_source_ref = Some ''portus-task'', tt_event_data = edata,
     tt_occurred_at_ms = os_time os (te_calls s)\<rparr>"
  have T: "tt_expected T = from" "tt_next T = to" by (simp_all add: T_def)
  obtain db' res where m: "transition_task (os_to_json os) (te_db s) t owner T = (db', res)"
    by (cases "transition_task (os_to_json os) (te_db s) t owner T")
  let ?s1 = "s\<lparr>te_calls := te_calls s + 1, te_db := db'\<rparr>"
  have run: "(s', r) = (case res of Inl e \<Rightarrow> (?s1, Err (task_error_of_state e))
      | Inr v \<Rightarrow> st_then (notify_event t owner (tk_last_event_sequence (tv_task v)) ?s1) (\<lambda>s _. (s, Ok v)))"
    using tr True m
    by (auto simp: transition_def unix_time_ms_def os_call_def db_try_def db_call_def T_def split: sum.split)
  have wf1: "engine_wf ?s1" using transition_task_wf [OF wf m] by simp
  show ?thesis
  proof (cases res)
    case (Inl e)
    then have "db' = te_db s" using transition_task_outcome [OF wf m] by simp
    then show ?thesis using run Inl by (intro refused) auto
  next
    case (Inr v)
    from m [unfolded Inr] obtain x where x: "bt_get (db_tasks (te_db s)) t = Some x" "tk_owner x = owner"
      "tk_state x = from" and rel: "db_relationships db' = db_relationships (te_db s)"
      and own: "tk_owner (tv_task v) = owner" and vid: "tk_task_id (tv_task v) = tk_task_id x"
      by (cases rule: transition_task_cases) (auto simp: T)
    let ?n = "tk_last_event_sequence x + 1" and ?x' = "transition_row T (tk_last_event_sequence x + 1) x"
    let ?row = "event_row (transition_event t owner T) (tk_last_event_sequence x + 1)"
    from transition_task_outcome [OF wf m [unfolded Inr]] x
    have get: "bt_get (db_tasks db') = (bt_get (db_tasks (te_db s)))(t \<mapsto> ?x')"
      and v: "tk_last_event_sequence (tv_task v) = ?n" "tk_state (tv_task v) = to"
      and log: "object_events (db_events db') ObjTask t =
        newest MAX_SIGNIFICANT_EVENTS_PER_OBJECT (object_events (db_events (te_db s)) ObjTask t @ [?row])"
      and others: "\<forall>u. u \<noteq> t \<longrightarrow> object_events (db_events db') ObjTask u = object_events (db_events (te_db s)) ObjTask u"
      by (auto simp: T)
    obtain pre where pre: "object_events (db_events (te_db ?s1)) ObjTask t = pre @ [?row]"
      using log newest_snoc [of MAX_SIGNIFICANT_EVENTS_PER_OBJECT "object_events (db_events (te_db s)) ObjTask t" ?row]
      by (auto simp: MAX_SIGNIFICANT_EVENTS_PER_OBJECT_def)
    have "notify_event t owner ?n ?s1 = (?s1\<lparr>te_sink := te_sink ?s1 @ [task_event_of t ?row]\<rparr>, Ok ())"
      by (rule notify_event_announces [where x = ?x', OF wf1 _ _ pre]) (use get x in simp_all)
    then have s': "s' = ?s1\<lparr>te_sink := te_sink s @ [task_event_of t ?row]\<rparr>" "r = Ok v"
      using run Inr v by simp_all
    have "task_row_wf (db_events db') t ?x'"
      using task_db_wf_row [OF wf1, of t ?x'] get by simp
    moreover have "i64_of_u64 ?n = ?n"
      using event_sequence_bound [of "db_events db'" ?row ObjTask t] wf1 pre
      by (simp add: task_db_wf_def i64_of_u64_def)
    moreover have "tk_task_id x = t" using task_db_wf_row [OF wf x(1)] by (simp add: task_row_wf_def)
    ultimately show ?thesis
      using x True get v wf1 rel own vid others
      by (intro moved [of x ?x' ?row v]) (simp_all add: s' T other_logs_def)
  qed
qed

lemma transition_steps:
  assumes "engine_wf s"
  shows "engine_steps s (fst (transition os t owner from to reason kind summary ekind esummary edata s))"
proof (cases "transition os t owner from to reason kind summary ekind esummary edata s")
  case (Pair s' r)
  with assms show ?thesis
  proof (cases rule: transition_cases)
    case (refused e)
    then show ?thesis by (simp add: Pair quiet_steps)
  next
    case (moved x x' v row)
    have "engine_step s s'"
      by (rule engine_step.moved [of s' s t x x' "task_event_of t row"])
         (use moved in simp_all)
    then show ?thesis by (simp add: Pair)
  qed
qed


subsection \<open>The operations\<close>

lemma os_call_steps [inv_intros]: "engine_steps s (fst (os_call f s))"
  by (rule quiet_steps) (simp_all add: os_call_def)

lemma unix_time_steps [inv_intros]: "engine_steps s (fst (unix_time_ms os s))"
  by (simp add: unix_time_ms_def os_call_steps)

lemma pure_steps [inv_intros]: "engine_steps s (fst (s, r))"
  by simp

lemma db_call_steps: "same_tasks (te_db s) (fst (f (te_db s))) \<Longrightarrow> engine_steps s (fst (db_call f s))"
  by (rule quiet_steps) (cases "f (te_db s)"; simp add: db_call_def)+

lemma db_try_steps [inv_intros]:
  "same_tasks (te_db s) (fst (f (te_db s))) \<Longrightarrow> engine_steps s (fst (db_try f s))"
  by (simp add: db_try_def db_call_steps)

lemma ignore_steps [inv_intros]: "engine_steps s (fst m) \<Longrightarrow> engine_steps s (fst (ignore_result m))"
  by (simp add: ignore_result_def)

lemma children_steps: "engine_steps s s' \<Longrightarrow> engine_steps s (s'\<lparr>te_children := c\<rparr>)"
  by (erule rtranclp.rtrancl_into_rtrancl) (rule quiet, simp_all)

lemma create_notified_steps [inv_intros]:
  assumes "engine_wf s" and "nt_task_id spec = t" and "nt_owner spec = owner"
  shows "engine_steps s (fst (create_notified os t owner spec s))"
  using create_notified_cases [OF assms(1), of os spec] assms(2,3)
  by (cases "create_notified os t owner spec s") auto

declare aux_same_tasks [inv_intros] transition_steps [inv_intros]

lemma kill_and_wait_steps [inv_intros]: "engine_wf s \<Longrightarrow> engine_steps s (fst (kill_and_wait os pid s))"
  unfolding kill_and_wait_def by (intro st_then_steps inv_intros)

lemma register_associated_steps:
  "engine_wf s \<Longrightarrow> engine_steps s (fst (register_associated_execution os owner spec s))"
  unfolding register_associated_execution_def
  by (cases "trim_is_empty (as_backend_ref spec) \<or> trim_is_empty (as_generation_ref spec)")
     (simp_all only: if_True if_False fst_conv rtranclp.rtrancl_refl,
       intro st_then_steps inv_intros, simp_all)

lemma spawn_failed_steps [inv_intros]: "engine_wf s \<Longrightarrow> engine_steps s (fst (spawn_failed os owner t a io s))"
  unfolding spawn_failed_def by (intro st_then_steps inv_intros)

lemma relationship_failed_steps [inv_intros]:
  "engine_wf s \<Longrightarrow> engine_steps s (fst (relationship_failed os owner t a pid err s))"
  unfolding relationship_failed_def by (intro st_then_steps inv_intros)

lemma running_failed_steps [inv_intros]:
  "engine_wf s \<Longrightarrow> engine_steps s (fst (running_failed os rid a pid err s))"
  unfolding running_failed_def by (intro st_then_steps inv_intros db_call_steps)


lemma case_steps:
  assumes "engine_wf s" and "engine_steps s (fst m)"
    and "\<And>s1 e. m = (s1, Err e) \<Longrightarrow> engine_wf s1 \<Longrightarrow> engine_steps s1 (fst (g s1 e))"
    and "\<And>s1 x. m = (s1, Ok x) \<Longrightarrow> engine_wf s1 \<Longrightarrow> engine_steps s1 (fst (f s1 x))"
  shows "engine_steps s (fst (case m of (s1, Inl e) \<Rightarrow> g s1 e | (s1, Inr x) \<Rightarrow> f s1 x))"
proof (cases m)
  case (Pair s1 r)
  have "engine_wf s1" using engine_steps_wf [OF assms(2,1)] Pair by simp
  then have "engine_steps s1 (fst (case r of Inl e \<Rightarrow> g s1 e | Inr x \<Rightarrow> f s1 x))"
    using assms(3,4) Pair by (cases r) auto
  then show ?thesis using assms(2) Pair by simp
qed

lemma attach_child_steps [inv_intros]:
  "engine_wf s \<Longrightarrow> engine_steps s (fst (attach_child os owner spec t a n pid s))"
  unfolding attach_child_def
  by (intro st_then_steps case_steps inv_intros db_call_steps) (simp_all add: quiet_steps)

lemma launch_steps: "engine_wf s \<Longrightarrow> engine_steps s (fst (launch_managed_process os owner spec s))"
  unfolding launch_managed_process_def
  by (intro st_then_steps inv_intros)
     (auto split: sum.split prod.split intro!: st_then_steps inv_intros)

lemma poll_children_same:
  "te_db (fst (poll_children os cs s)) = te_db s \<and> te_sink (fst (poll_children os cs s)) = te_sink s
   \<and> te_children (fst (poll_children os cs s)) = te_children s"
proof (induction cs arbitrary: s)
  case (Cons c cs)
  obtain t m where c: "c = (t, m)" by (cases c)
  let ?s1 = "s\<lparr>te_calls := Suc (te_calls s)\<rparr>"
  have ih: "te_db (fst (poll_children os cs ?s1)) = te_db s \<and> te_sink (fst (poll_children os cs ?s1)) = te_sink s
      \<and> te_children (fst (poll_children os cs ?s1)) = te_children s"
    using Cons.IH [of ?s1] by simp
  obtain s2 r where "poll_children os cs ?s1 = (s2, r)" by (cases "poll_children os cs ?s1")
  then show ?case
    using ih by (cases r) (simp_all add: c os_call_def split: sum.split)
qed simp

lemma poll_children_steps [inv_intros]: "engine_steps s (fst (poll_children os cs s))"
  using poll_children_same [of os cs s] by (intro quiet_steps) simp_all

lemma record_exit_steps: "engine_wf s \<Longrightarrow> engine_steps s (fst (record_exit os s c))"
  unfolding record_exit_def
  by (auto simp: Let_def split: prod.split option.split intro!: st_then_steps inv_intros)

lemma st_each_steps:
  assumes "engine_wf s" and "\<And>s c. engine_wf s \<Longrightarrow> engine_steps s (fst (f s c))"
  shows "engine_steps s (fst (st_each f s cs))"
  using assms(1)
proof (induction cs arbitrary: s)
  case (Cons c cs)
  then show ?case by (auto intro!: st_then_steps assms(2))
qed simp

lemma refresh_steps [inv_intros]: "engine_wf s \<Longrightarrow> engine_steps s (fst (refresh_all os s))"
  unfolding refresh_all_def Let_def
proof (intro st_then_steps inv_intros)
  fix s1 and completed :: "(TaskId \<times> ManagedChild \<times> ExitCode) list"
  assume "engine_wf s1"
  let ?s2 = "s1\<lparr>te_children := filter (\<lambda>(t, m). t \<notin> fst ` set completed) (te_children s1)\<rparr>"
  have "engine_steps s1 ?s2" by (rule quiet_steps) simp_all
  moreover have "engine_steps ?s2 (fst (st_each (record_exit os) ?s2 completed))"
    using \<open>engine_wf s1\<close> by (intro st_each_steps record_exit_steps) simp_all
  ultimately show "engine_steps s1 (fst (st_each (record_exit os) ?s2 completed))" by simp
qed

lemma cancel_branch_steps [inv_intros]:
  "engine_wf s \<Longrightarrow> engine_steps s (fst (cancel_confirmed os owner t m code s))"
  "engine_wf s \<Longrightarrow> engine_steps s (fst (cancel_lost_race os owner t m code s))"
  "engine_wf s \<Longrightarrow> engine_steps s (fst (cancel_unknown os owner t io s))"
  unfolding cancel_confirmed_def cancel_lost_race_def cancel_unknown_def Let_def
  by (intro st_then_steps inv_intros; assumption)+


lemma stop_backend_steps [inv_intros]:
  assumes "engine_wf s"
  shows "engine_steps s (fst (stop_backend os owner t s))"
proof (cases "map_of (te_children s) t")
  case None
  then show ?thesis by (simp add: stop_backend_def)
next
  case (Some m)
  let ?s1 = "s\<lparr>te_children := filter (\<lambda>(t', _). t' \<noteq> t) (te_children s)\<rparr>"
  have "engine_steps s ?s1" by (rule quiet_steps) simp_all
  moreover have "engine_steps ?s1 (fst (stop_backend os owner t s))"
    unfolding stop_backend_def Some option.case
    by (intro st_then_steps inv_intros) (use assms in \<open>auto split: sum.split intro!: inv_intros\<close>)
  ultimately show ?thesis by (rule rtranclp_trans)
qed

lemma if_steps:
  "(b \<Longrightarrow> engine_steps s (fst x)) \<Longrightarrow> (\<not> b \<Longrightarrow> engine_steps s (fst y)) \<Longrightarrow> engine_steps s (fst (if b then x else y))"
  by simp

lemma cancel_steps: "engine_wf s \<Longrightarrow> engine_steps s (fst (cancel_task os owner t expected s))"
  unfolding cancel_task_def Let_def by (intro st_then_steps if_steps inv_intros)

lemma reconcile_task_steps: "engine_wf s \<Longrightarrow> engine_steps s (fst (reconcile_task os s c))"
  unfolding reconcile_task_def
  by (auto split: prod.split intro!: st_then_steps inv_intros)

lemma reconcile_steps: "engine_wf s \<Longrightarrow> engine_steps s (fst (reconcile_after_runtime_restart os s))"
  unfolding reconcile_after_runtime_restart_def by (intro st_each_steps reconcile_task_steps)


inductive engine_op :: "Os \<Rightarrow> TaskEngine \<Rightarrow> TaskEngine \<Rightarrow> bool" for os where
  op_associate: "engine_op os s (fst (register_associated_execution os owner aspec s))"
| op_launch: "engine_op os s (fst (launch_managed_process os owner mspec s))"
| op_refresh: "engine_op os s (fst (refresh_all os s))"
| op_cancel: "engine_op os s (fst (cancel_task os owner t expected s))"
| op_reconcile: "engine_op os s (fst (reconcile_after_runtime_restart os s))"

lemma engine_op_steps: "engine_op os s s' \<Longrightarrow> engine_wf s \<Longrightarrow> engine_steps s s'"
  by (induction rule: engine_op.induct)
     (auto intro: register_associated_steps launch_steps refresh_steps cancel_steps reconcile_steps)

lemma engine_ops_steps: "(engine_op os)\<^sup>*\<^sup>* s s' \<Longrightarrow> engine_wf s \<Longrightarrow> engine_steps s s'"
proof (induction rule: rtranclp_induct)
  case (step s' s'')
  then have "engine_steps s s'" and "engine_wf s'" using engine_steps_wf by auto
  with engine_op_steps [OF step(2)] show ?case by simp
qed simp

subsection \<open>Lifecycle\<close>

definition row_evolves :: "TaskRow \<Rightarrow> TaskRow \<Rightarrow> bool" where
  "row_evolves x x' \<longleftrightarrow> tk_owner x' = tk_owner x \<and> can_transition\<^sup>*\<^sup>* (tk_state x) (tk_state x')
     \<and> tk_last_event_sequence x \<le> tk_last_event_sequence x' \<and> (is_terminal (tk_state x) \<longrightarrow> x' = x)"

lemma terminal_no_transition: "is_terminal st \<Longrightarrow> \<not> can_transition st st'"
  by (cases st) auto

lemma row_evolves_refl [simp]: "row_evolves x x"
  by (simp add: row_evolves_def)




lemma engine_steps_log:
  assumes "engine_steps s s'" and "bt_get (db_tasks (te_db s)) t = Some x" and "is_terminal (tk_state x)"
  shows "bt_get (db_tasks (te_db s')) t = Some x
    \<and> object_events (db_events (te_db s')) ObjTask t = object_events (db_events (te_db s)) ObjTask t"
  using assms(1)
proof (induction rule: rtranclp_induct)
  case (step s' s'')
  from step(2,3) show ?case
  proof (induction rule: engine_step.induct)
    case (quiet s1 s2)
    then show ?case by (simp add: same_tasks_def)
  next
    case (created s2 s1 u y e)
    then show ?case by (cases "u = t") (auto simp: other_logs_def)
  next
    case (moved s2 s1 u y y' e)
    then have "u \<noteq> t" using assms(3) terminal_no_transition by auto
    with moved show ?case by (auto simp: other_logs_def)
  qed
qed (use assms(2) in simp)


subsection \<open>Notifications\<close>

definition announced :: "TaskEngine \<Rightarrow> TaskEngine \<Rightarrow> TaskId \<Rightarrow> nat list" where
  "announced s s' t =
     map te_sequence (filter (\<lambda>e. te_task_id e = t) (drop (length (te_sink s)) (te_sink s')))"

lemma engine_step_announced:
  assumes "engine_step s s'"
  shows "prefix (te_sink s) (te_sink s') \<and> last_of (te_db s) t \<le> last_of (te_db s') t
    \<and> announced s s' t = [Suc (last_of (te_db s) t)..<Suc (last_of (te_db s') t)]"
  using assms
proof (induction rule: engine_step.induct)
  case (quiet s s')
  then show ?case by (simp add: same_tasks_def announced_def last_of_def)
next
  case (created s' s u y e)
  then show ?case by (cases "u = t") (auto simp: announced_def last_of_def)
next
  case (moved s' s u y y' e)
  then show ?case by (cases "u = t") (auto simp: announced_def last_of_def)
qed

lemma announced_trans:
  assumes "prefix (te_sink s) (te_sink s1)" and "prefix (te_sink s1) (te_sink s2)"
  shows "announced s s2 t = announced s s1 t @ announced s1 s2 t"
  using assms by (auto simp: announced_def prefix_def)

lemma upt_join: "i \<le> j \<Longrightarrow> j \<le> k \<Longrightarrow> [i..<j] @ [j..<k] = [i..<k]"
  by (metis le_add_diff_inverse upt_add_eq_append)

lemma engine_steps_announced:
  assumes "engine_steps s s'"
  shows "prefix (te_sink s) (te_sink s') \<and> last_of (te_db s) t \<le> last_of (te_db s') t
    \<and> announced s s' t = [Suc (last_of (te_db s) t)..<Suc (last_of (te_db s') t)]"
  using assms
proof (induction rule: rtranclp_induct)
  case base
  then show ?case by (simp add: announced_def)
next
  case (step s1 s2)
  from engine_step_announced [OF step(2), of t] step(3)
  have "announced s s2 t = [Suc (last_of (te_db s) t)..<Suc (last_of (te_db s1) t)]
      @ [Suc (last_of (te_db s1) t)..<Suc (last_of (te_db s2) t)]"
    using announced_trans [of s s1 s2 t] by metis
  also have "\<dots> = [Suc (last_of (te_db s) t)..<Suc (last_of (te_db s2) t)]"
    using engine_step_announced [OF step(2), of t] step(3)
    by (metis Suc_le_mono upt_join)
  finally show ?case
    using engine_step_announced [OF step(2), of t] step(3) by (auto intro: prefix_order.trans)
qed

text \<open>C33. The event sink sees every committed task event exactly once and in order: over any run of
  engine operations, the sequence numbers announced for a task are precisely the consecutive
  numbers between its event counter before and after the run.
\<close>

theorem task_events_announced:
  assumes "engine_wf s" and "(engine_op os)\<^sup>*\<^sup>* s s'"
  shows "announced s s' t = [Suc (last_of (te_db s) t)..<Suc (last_of (te_db s') t)]"
  using engine_steps_announced [OF engine_ops_steps [OF assms(2,1)]] by blast


subsection \<open>Cancellation\<close>

lemma transition_Ok:
  assumes "engine_wf s"
    and "transition os t owner from to reason kind summary ekind esummary edata s = (s', Ok v)"
  shows "tk_state (tv_task v) = to \<and> te_children s' = te_children s \<and> engine_wf s'
    \<and> (\<exists>x. bt_get (db_tasks (te_db s')) t = Some x \<and> tk_state x = to \<and> tk_owner x = owner)"
  using assms by (cases rule: transition_cases) auto

text \<open>\<open>calm\<close>: a call that leaves the children attached and the database well formed.\<close>

definition calm :: "TaskEngine \<Rightarrow> TaskEngine \<Rightarrow> bool" where
  "calm s s' \<longleftrightarrow> te_children s' = te_children s \<and> (engine_wf s \<longrightarrow> engine_wf s')"

lemma calm_trans: "calm s s1 \<Longrightarrow> calm s1 s2 \<Longrightarrow> calm s s2"
  by (simp add: calm_def)

lemma calm_time: "unix_time_ms os s = (s', r) \<Longrightarrow> calm s s'"
  by (auto simp: unix_time_ms_def os_call_def calm_def)

lemma calm_os_call: "os_call f s = (s', r) \<Longrightarrow> calm s s'"
  by (auto simp: os_call_def calm_def)

lemma calm_db_try:
  assumes "\<And>db. same_tasks db (fst (f db))" and "db_try f s = (s', r)"
  shows "calm s s'"
proof -
  obtain db' r' where f: "f (te_db s) = (db', r')" by (cases "f (te_db s)")
  then have "s' = s\<lparr>te_db := db'\<rparr>" using assms(2) by (cases r') (auto simp: db_try_def db_call_def)
  then show ?thesis using assms(1) [of "te_db s"] same_tasks_wf by (auto simp: calm_def f)
qed

lemma calm_transition:
  assumes "engine_wf s" and "transition os t owner from to reason kind summary ekind esummary edata s = (s', r)"
  shows "calm s s'"
  using assms by (cases rule: transition_cases) (simp_all add: calm_def)

lemmas calm_aux = calm_db_try [OF aux_same_tasks(4)] calm_db_try [OF aux_same_tasks(6)]

definition ended :: "TaskEngine \<Rightarrow> TaskEngine \<Rightarrow> TaskId \<Rightarrow> TaskView \<Rightarrow> bool" where
  "ended s s' t v \<longleftrightarrow> calm s s' \<and> is_terminal (tk_state (tv_task v))
     \<and> (\<exists>x. bt_get (db_tasks (te_db s')) t = Some x \<and> tk_state x = tk_state (tv_task v))"

lemma transition_ended:
  assumes "engine_wf s" and "calm s0 s" and "is_terminal to"
    and "transition os t owner from to reason kind summary ekind esummary edata s = (s', Ok v)"
  shows "ended s0 s' t v"
  using transition_Ok [OF assms(1,4)] assms(2,3) by (auto simp: ended_def calm_def)

lemma cancel_confirmed_ended:
  assumes "engine_wf s" and "cancel_confirmed os owner t m code s = (s', Ok v)"
  shows "ended s s' t v"
proof -
  from assms(2) obtain s1 s2 s3 now where 1: "unix_time_ms os s = (s1, Ok now)"
    and 2: "db_try (\<lambda>db. update_task_relationship_status db (mc_relation_id m) RelStopped now) s1 = (s2, Ok ())"
    and 3: "db_try (\<lambda>db. finish_task_attempt db (mc_attempt_id m) ''cancelled'' None code now) s2 = (s3, Ok ())"
    and tr: "transition os t owner TaskCancelling TaskCancelled ''cancellation_confirmed'' (Some ResultCancelled)
       (Some ''managed backend cancellation was confirmed'') ''task.cancelled''
       ''managed backend cancellation confirmed'' (JObject []) s3 = (s', Ok v)"
    by (auto simp: cancel_confirmed_def result_simps)
  have "calm s s3" by (rule calm_trans [OF calm_time [OF 1] calm_trans [OF calm_aux(2) [OF 2] calm_aux(1) [OF 3]]])
  then show ?thesis using transition_ended [OF _ _ _ tr] assms(1) by (simp add: calm_def)
qed

lemma cancel_lost_race_ended:
  assumes "engine_wf s" and "cancel_lost_race os owner t m code s = (s', Ok v)"
  shows "ended s s' t v"
proof -
  from assms(2) obtain s1 s2 s3 s4 now v' u w where 1: "unix_time_ms os s = (s1, Ok now)"
    and 2: "db_try (\<lambda>db. update_task_relationship_status db (mc_relation_id m) RelStopped now) s1 = (s2, Ok u)"
    and 3: "db_try (\<lambda>db. finish_task_attempt db (mc_attempt_id m) (if code = Some 0 then ''succeeded'' else ''failed'')
         (if code = Some 0 then None else Some ''process_exit'') code now) s2 = (s3, Ok w)"
    and tr3: "transition os t owner TaskCancelling TaskReconciling
         ''cancellation_not_applied_backend_already_exited'' None None ''task.reconciling''
         ''backend exited before cancellation could be confirmed'' (JObject []) s3 = (s4, Ok v')"
    and tr: "transition os t owner TaskReconciling (if code = Some 0 then TaskSucceeded else TaskFailed)
       (if code = Some 0 then ''managed_backend_succeeded'' else ''managed_backend_failed'')
       (Some (if code = Some 0 then ResultSuccess else ResultFailure))
       (Some (if code = Some 0 then ''managed backend completed before cancellation could be applied''
              else ''managed backend failed before cancellation could be applied''))
       (if code = Some 0 then ''task.succeeded'' else ''task.failed'')
       ''backend completion won the cancellation race'' (json_code code) s4 = (s', Ok v)"
    unfolding cancel_lost_race_def Let_def result_simps by (elim exE conjE) (rule that)
  have c3: "calm s s3" by (rule calm_trans [OF calm_time [OF 1] calm_trans [OF calm_aux(2) [OF 2] calm_aux(1) [OF 3]]])
  then have "calm s s4" using calm_transition [OF _ tr3] assms(1) by (auto simp: calm_def)
  then show ?thesis using transition_ended [OF _ _ _ tr] assms(1) by (simp add: calm_def)
qed

lemma stop_backend_ended:
  assumes "engine_wf s" and "stop_backend os owner t s = (s', Ok v)"
  shows "is_terminal (tk_state (tv_task v))
    \<and> (\<exists>x. bt_get (db_tasks (te_db s')) t = Some x \<and> tk_state x = tk_state (tv_task v))
    \<and> t \<notin> fst ` set (te_children s')"
proof -
  let ?s1 = "s\<lparr>te_children := filter (\<lambda>(t', _). t' \<noteq> t) (te_children s)\<rparr>"
  from assms(2) obtain m s2 s3 killed waited where
    k: "os_call (\<lambda>n. os_kill os n (mc_pid m)) ?s1 = (s2, Ok killed)"
    and w: "os_call (\<lambda>n. os_wait os n (mc_pid m)) s2 = (s3, Ok waited)"
    and rest: "(case waited of Inl io \<Rightarrow> cancel_unknown os owner t io s3
        | Inr code \<Rightarrow> (case killed of Inr _ \<Rightarrow> cancel_confirmed os owner t m code s3
            | Inl _ \<Rightarrow> cancel_lost_race os owner t m code s3)) = (s', Ok v)"
    by (auto simp: stop_backend_def result_simps split: option.splits)
  have c: "calm ?s1 s3" by (rule calm_trans [OF calm_os_call [OF k] calm_os_call [OF w]])
  then have wf3: "engine_wf s3" using assms(1) by (simp add: calm_def)
  have "ended s3 s' t v"
    using rest cancel_confirmed_ended [OF wf3] cancel_lost_race_ended [OF wf3]
    by (auto simp: cancel_unknown_def result_simps split: sum.splits)
  then show ?thesis using c by (auto simp: ended_def calm_def)
qed

text \<open>When \<open>cancel_task\<close> reports success the task has really ended: the returned view and the stored
  row are in the same terminal state and no child process is attached to the task any more.
\<close>

theorem cancel_reports_the_end:
  assumes "engine_wf s" and "cancel_task os owner t expected s = (s', Ok v)"
  shows "is_terminal (tk_state (tv_task v))
    \<and> (\<exists>x. bt_get (db_tasks (te_db s')) t = Some x \<and> tk_state x = tk_state (tv_task v))
    \<and> t \<notin> fst ` set (te_children s')"
proof -
  from assms(2) obtain s1 s2 prior v2 where
    r: "refresh_all os s = (s1, Ok ())"
    and tr: "transition os t owner prior TaskCancelling ''cancellation_requested'' None None
           ''task.cancellation_requested'' ''cancellation requested'' (JObject []) s1 = (s2, Ok v2)"
    and stop: "stop_backend os owner t s2 = (s', Ok v)"
    by (auto simp: cancel_task_def result_simps Let_def split: if_splits option.splits; blast)
  have "engine_wf s1" using engine_steps_wf [OF refresh_steps] assms(1) r by (metis fst_conv)
  then have "engine_wf s2" using transition_Ok tr by blast
  then show ?thesis by (rule stop_backend_ended [OF _ stop])
qed

end
