(* ===== verification/Task_Recovery.thy ===== *)
theory Task_Recovery
  imports Task_Engine_Properties
begin

section \<open>Recovery after a restart\<close>

text \<open>
  When a transition of the engine succeeds, and the consequence for
  \<open>reconcile_after_runtime_restart\<close>: it returns and leaves no task in a state that claims a live
  backend. The texts the engine writes are constants, so that they pass the validators is computed.
\<close>

definition text_ok :: "nat \<Rightarrow> string \<Rightarrow> bool" where
  "text_ok n s \<longleftrightarrow> \<not> trim_is_empty s \<and> length s \<le> n \<and> \<not> contains_char s line_breaks \<and> \<not> secret_like_text s"

definition data_ok :: "(json \<Rightarrow> string option) \<Rightarrow> json \<Rightarrow> bool" where
  "data_ok to_json d \<longleftrightarrow> \<not> json_contains_secret_like d
     \<and> (case to_json d of None \<Rightarrow> False | Some enc \<Rightarrow> length enc \<le> MAX_TASK_EVENT_DATA_BYTES)"

lemma sequence_le_latest:
  assumes "events_wf evs" and "e \<in> set (object_events evs k r)"
  shows "sg_sequence e \<le> latest_sequence evs k r"
proof -
  obtain lo hi where seqs: "map sg_sequence (object_events evs k r) = [Suc lo..<Suc hi]"
    using assms(1) by (rule object_log_wfE)
  have "sg_sequence e \<in> set [Suc lo..<Suc hi]"
    using assms(2) unfolding seqs [symmetric] by simp
  then show ?thesis
    using max_sequence_upt [OF seqs] by (auto simp: latest_sequence_def)
qed

lemma transition_task_succeeds:
  assumes wf: "task_db_wf db" and x: "bt_get (db_tasks db) t = Some x" "tk_owner x = p" "tk_state x = tt_expected tr"
    and room: "tk_last_event_sequence x < nat i64_max"
    and texts: "pred_option (text_ok 256) (tt_state_reason tr)" "text_ok 128 (tt_event_kind tr)"
      "pred_option (text_ok 1024) (tt_event_summary tr)" "pred_option (text_ok 512) (tt_source_ref tr)"
      "pred_option (text_ok 2048) (tt_result_summary tr)" "data_ok to_json (tt_event_data tr)"
  shows "\<exists>v. snd (transition_task to_json db t p tr) = Ok v"
proof -
  have row: "ref_ok t" "tk_last_event_sequence x = latest_sequence (db_events db) ObjTask t"
    using task_db_wf_row [OF wf x(1)] by (simp_all add: task_row_wf_def)
  have small: "nat i64_max < u64_max" by (simp add: i64_max_def u64_max_def)
  let ?n = "sat_add_u64 (tk_last_event_sequence x) 1"
  have n: "?n = tk_last_event_sequence x + 1" "i64_of_u64 ?n = tk_last_event_sequence x + 1"
    using room small by (simp_all add: sat_add_u64_def i64_of_u64_def)
  have "transition_validate to_json tr = Ok ()"
    using texts
    by (auto simp: transition_validate_def task_validate_optional_def task_validate_nonempty_def text_ok_def
        data_ok_def MAX_TASK_REASON_BYTES_def MAX_TASK_RESULT_BYTES_def MAX_TASK_EVENT_SUMMARY_BYTES_def
        MAX_TASK_REF_BYTES_def split: option.splits)
  moreover have valid: "validate_event to_json (transition_event t p tr) = Ok ()"
    using texts row(1)
    by (auto simp: validate_event_def transition_event_def event_validate_optional_def
        event_validate_nonempty_def event_texts_def text_ok_def data_ok_def encode_data_def ref_ok_def
        MAX_SIGNIFICANT_EVENT_REASON_BYTES_def MAX_SIGNIFICANT_EVENT_KIND_BYTES_def
        MAX_SIGNIFICANT_EVENT_SUMMARY_BYTES_def MAX_SIGNIFICANT_EVENT_REF_BYTES_def
        MAX_SIGNIFICANT_EVENT_DATA_BYTES_def MAX_TASK_EVENT_DATA_BYTES_def split: option.splits)
  moreover have "\<not> list_ex (\<lambda>e. sg_sequence e = tk_last_event_sequence x + 1) (object_events (db_events db) ObjTask t)"
    using sequence_le_latest [of "db_events db"] wf row(2) by (fastforce simp: list_ex_iff task_db_wf_def)
  moreover have "encode_data to_json m (tt_event_data tr) = Ok ()" for m
    using texts(6)
    by (auto simp: encode_data_def data_ok_def MAX_SIGNIFICANT_EVENT_DATA_BYTES_def
        MAX_TASK_EVENT_DATA_BYTES_def split: option.splits)
  ultimately have ins: "insert_significant_event_tx to_json (db_events db) (transition_event t p tr) ?n
      = Ok (db_events db @ [event_row (transition_event t p tr) (tk_last_event_sequence x + 1)])"
    and "transition_validate to_json tr = Ok ()"
    unfolding insert_significant_event_tx_def n(2) by (simp_all add: transition_event_def Let_def)
  then have "\<exists>db'. transition_task to_json db t p tr =
      (db', ok_or (task_view_visible db' t p) (InvalidTaskState ''transitioned task is not readable''))
      \<and> bt_get (db_tasks db') t = Some (transition_row tr ?n x)"
    using x
    by (simp add: transition_task_def transition_tx_def task_summary_visible_def task_row_visible_def btree_simps)
  then show ?thesis
    using x(2) by (auto simp: task_view_visible_def task_summary_visible_def task_row_visible_def)
qed


lemma notify_db: "te_db (fst (notify_event t owner n s)) = te_db s"
  unfolding notify_event_def
  by (cases "task_events_visible (te_db s) t owner (Some (n - 1)) 1")
     (auto simp: st_then_def ok_or_def split: option.split)

lemma transition_succeeds:
  assumes wf: "engine_wf s" and x: "bt_get (db_tasks (te_db s)) t = Some x" "tk_owner x = owner" "tk_state x = from"
    and room: "tk_last_event_sequence x < nat i64_max" and edge: "can_transition from to"
    and texts: "text_ok 256 reason" "text_ok 128 ekind" "text_ok 1024 esummary"
      "pred_option (text_ok 2048) summary" "data_ok (os_to_json os) edata"
  obtains s' v x' where "transition os t owner from to reason kind summary ekind esummary edata s = (s', Ok v)"
    "engine_wf s'" "bt_get (db_tasks (te_db s')) = (bt_get (db_tasks (te_db s)))(t \<mapsto> x')"
    "tk_state x' = to" "tk_owner x' = owner" "tk_last_event_sequence x' = tk_last_event_sequence x + 1"
    "tk_state (tv_task v) = to"
proof -
  define T where "T = \<lparr>tt_expected = from, tt_next = to, tt_state_reason = Some reason, tt_waiting_reason = None,
     tt_result_kind = kind, tt_result_summary = summary, tt_event_kind = ekind,
     tt_event_summary = Some esummary, tt_source_ref = Some ''portus-task'', tt_event_data = edata,
     tt_occurred_at_ms = os_time os (te_calls s)\<rparr>"
  have portus: "text_ok 512 ''portus-task''" by code_simp
  have "\<exists>v. snd (transition_task (os_to_json os) (te_db s) t owner T) = Ok v"
    by (rule transition_task_succeeds [OF wf x(1,2) _ room])
       (use texts portus x(3) in \<open>simp_all add: T_def\<close>)
  then obtain db' v where T: "transition_task (os_to_json os) (te_db s) t owner T = (db', Ok v)"
    by (metis prod.collapse)
  obtain s' r where tr: "transition os t owner from to reason kind summary ekind esummary edata s = (s', r)"
    by (cases "transition os t owner from to reason kind summary ekind esummary edata s")
  let ?s1 = "s\<lparr>te_calls := te_calls s + 1, te_db := db'\<rparr>"
  have "s' = fst (st_then (notify_event t owner (tk_last_event_sequence (tv_task v)) ?s1) (\<lambda>s _. (s, Ok v)))"
    using tr edge T by (auto simp: transition_def unix_time_ms_def os_call_def db_try_def db_call_def T_def)
  then have db': "te_db s' = db'"
    using notify_db [of t owner "tk_last_event_sequence (tv_task v)" ?s1]
    by (cases "notify_event t owner (tk_last_event_sequence (tv_task v)) ?s1";
        cases "snd (notify_event t owner (tk_last_event_sequence (tv_task v)) ?s1)") auto
  from wf tr show ?thesis
  proof (cases rule: transition_cases)
    case (refused e)
    have "bt_get (db_tasks db') t = Some (transition_row T (tk_last_event_sequence x + 1) x)"
      using transition_task_outcome [OF wf T] x(1) by auto
    moreover have "tk_last_event_sequence x + 1 = i64_of_u64 (tk_last_event_sequence x + 1)"
      using room by (simp add: i64_of_u64_def)
    moreover from calculation(1) have "x = transition_row T (tk_last_event_sequence x + 1) x"
      using refused(2) db' x(1) by simp
    ultimately have "tk_last_event_sequence x = tk_last_event_sequence x + 1"
      by (metis transition_fields(4))
    then show ?thesis by simp
  next
    case (moved y y' v' row)
    then show ?thesis using tr x(1) by (intro that [of s' v' y']) auto
  qed
qed

text \<open>The constant texts of the two reconciling transitions.\<close>

lemma reconcile_texts:
  "text_ok 256 ''runtime_restart''" "text_ok 128 ''task.reconciling''"
  "text_ok 1024 ''runtime restarted; backend state requires verification''"
  "text_ok 256 ''backend_state_unverifiable''" "text_ok 128 ''task.interrupted''"
  "text_ok 1024 ''task interrupted rather than guessing prior backend state''"
  "text_ok 2048 ''current host-safe backend cannot prove prior live process generation after runtime restart''"
  by code_simp+

fun settled :: "TaskState \<Rightarrow> TaskState" where
  "settled TaskCreated = TaskCreated"
| "settled TaskQueued = TaskQueued"
| "settled st = (if is_terminal st then st else TaskInterrupted)"

lemma can_reconcile:
  "\<not> is_terminal st \<Longrightarrow> st \<noteq> TaskCreated \<Longrightarrow> st \<noteq> TaskQueued \<Longrightarrow> st \<noteq> TaskReconciling
    \<Longrightarrow> can_transition st TaskReconciling"
  by (cases st) auto

lemma reconcile_task_succeeds:
  assumes wf: "engine_wf s" and x: "bt_get (db_tasks (te_db s)) t = Some x" "\<not> is_terminal (tk_state x)"
    and room: "tk_last_event_sequence x + 2 \<le> nat i64_max" and data: "data_ok (os_to_json os) (JObject [])"
  obtains s' x' where "reconcile_task os s (t, tk_owner x, tk_state x) = (s', Ok ())" "engine_wf s'"
    "bt_get (db_tasks (te_db s')) = (bt_get (db_tasks (te_db s)))(t \<mapsto> x')"
    "tk_state x' = settled (tk_state x)"
proof -
  let ?goal = "\<lambda>s1 x1. \<exists>s' x'. st_then (transition os t (tk_owner x) TaskReconciling TaskInterrupted
        ''backend_state_unverifiable'' (Some ResultInterrupted)
        (Some ''current host-safe backend cannot prove prior live process generation after runtime restart'')
        ''task.interrupted'' ''task interrupted rather than guessing prior backend state'' (JObject []) s1)
        (\<lambda>s _. (s, Ok ())) = (s', Ok ())
      \<and> engine_wf s' \<and> bt_get (db_tasks (te_db s')) = (bt_get (db_tasks (te_db s1)))(t \<mapsto> x')
      \<and> tk_state x' = TaskInterrupted"
  have second: "?goal s1 x1" if a: "engine_wf s1" "bt_get (db_tasks (te_db s1)) t = Some x1"
    "tk_owner x1 = tk_owner x" "tk_state x1 = TaskReconciling" "tk_last_event_sequence x1 < nat i64_max" for s1 x1
    by (rule transition_succeeds [OF a, where to = TaskInterrupted and reason = "''backend_state_unverifiable''"
          and kind = "Some ResultInterrupted" and summary = "Some ''current host-safe backend cannot prove prior live process generation after runtime restart''"
          and ekind = "''task.interrupted''" and os = os
          and esummary = "''task interrupted rather than guessing prior backend state''" and edata = "JObject []"])
       (use data reconcile_texts in auto)
  consider (idle) "tk_state x = TaskCreated \<or> tk_state x = TaskQueued" | (mid) "tk_state x = TaskReconciling"
    | (live) "tk_state x \<noteq> TaskCreated" "tk_state x \<noteq> TaskQueued" "tk_state x \<noteq> TaskReconciling" by blast
  then show ?thesis
  proof cases
    case idle
    then show ?thesis using that [of s x] x wf by (auto simp: reconcile_task_def fun_upd_idem)
  next
    case mid
    then obtain s' x' where "reconcile_task os s (t, tk_owner x, tk_state x) = (s', Ok ())" "engine_wf s'"
      "bt_get (db_tasks (te_db s')) = (bt_get (db_tasks (te_db s)))(t \<mapsto> x')" "tk_state x' = TaskInterrupted"
      using second [OF wf x(1) refl] room by (auto simp: reconcile_task_def)
    then show ?thesis using that mid by simp
  next
    case live
    obtain s1 v x1 where one: "transition os t (tk_owner x) (tk_state x) TaskReconciling ''runtime_restart'' None
        None ''task.reconciling'' ''runtime restarted; backend state requires verification'' (JObject []) s = (s1, Ok v)"
      "engine_wf s1" "bt_get (db_tasks (te_db s1)) = (bt_get (db_tasks (te_db s)))(t \<mapsto> x1)"
      "tk_state x1 = TaskReconciling" "tk_owner x1 = tk_owner x"
      "tk_last_event_sequence x1 = tk_last_event_sequence x + 1" "tk_state (tv_task v) = TaskReconciling"
      by (rule transition_succeeds [OF wf x(1) refl refl, where to = TaskReconciling and reason = "''runtime_restart''"
            and kind = None and summary = None and ekind = "''task.reconciling''" and os = os
            and esummary = "''runtime restarted; backend state requires verification''" and edata = "JObject []"])
         (use data room reconcile_texts can_reconcile [OF x(2) live] in auto)
    obtain s' x' where "reconcile_task os s (t, tk_owner x, tk_state x) = (s', Ok ())" "engine_wf s'"
      "bt_get (db_tasks (te_db s')) = (bt_get (db_tasks (te_db s)))(t \<mapsto> x')" "tk_state x' = TaskInterrupted"
      using second [OF one(2), of x1] one live room by (auto simp: reconcile_task_def)
    moreover have "settled (tk_state x) = TaskInterrupted" using live x(2) by (cases "tk_state x") auto
    ultimately show ?thesis using that by simp
  qed
qed


lemma reconcile_list:
  assumes "engine_wf s" and "distinct (map fst cs)"
    and "\<And>t owner st. (t, owner, st) \<in> set cs \<Longrightarrow> \<exists>x. bt_get (db_tasks (te_db s)) t = Some x \<and> tk_owner x = owner
        \<and> tk_state x = st \<and> \<not> is_terminal st \<and> tk_last_event_sequence x + 2 \<le> nat i64_max"
    and "data_ok (os_to_json os) (JObject [])"
  shows "\<exists>s'. st_each (reconcile_task os) s cs = (s', Ok ())
    \<and> (\<forall>t. map_option tk_state (bt_get (db_tasks (te_db s')) t)
        = map_option (\<lambda>x. if t \<in> fst ` set cs then settled (tk_state x) else tk_state x)
            (bt_get (db_tasks (te_db s)) t))"
  using assms(1-3)
proof (induction cs arbitrary: s)
  case Nil
  then show ?case by (simp add: option.map_comp)
next
  case (Cons c cs)
  obtain t owner st where c: "c = (t, owner, st)" by (cases c)
  from Cons.prems(3) [of t owner st] obtain x where x: "bt_get (db_tasks (te_db s)) t = Some x"
    "tk_owner x = owner" "tk_state x = st" "\<not> is_terminal (tk_state x)" "tk_last_event_sequence x + 2 \<le> nat i64_max"
    by (auto simp: c)
  obtain s1 x1 where one: "reconcile_task os s c = (s1, Ok ())" "engine_wf s1"
    "bt_get (db_tasks (te_db s1)) = (bt_get (db_tasks (te_db s)))(t \<mapsto> x1)" "tk_state x1 = settled (tk_state x)"
    using reconcile_task_succeeds [OF Cons.prems(1) x(1,4,5) assms(4)] by (auto simp: c x(2,3))
  have new: "t \<notin> fst ` set cs" using Cons.prems(2) by (auto simp: c)
  have "\<exists>s'. st_each (reconcile_task os) s1 cs = (s', Ok ())
    \<and> (\<forall>t. map_option tk_state (bt_get (db_tasks (te_db s')) t)
        = map_option (\<lambda>x. if t \<in> fst ` set cs then settled (tk_state x) else tk_state x)
            (bt_get (db_tasks (te_db s1)) t))"
  proof (rule Cons.IH [OF one(2)])
    show "distinct (map fst cs)" using Cons.prems(2) by simp
    fix u owner' st' assume u: "(u, owner', st') \<in> set cs"
    then have "u \<noteq> t" using new by force
    then show "\<exists>x. bt_get (db_tasks (te_db s1)) u = Some x \<and> tk_owner x = owner' \<and> tk_state x = st'
        \<and> \<not> is_terminal st' \<and> tk_last_event_sequence x + 2 \<le> nat i64_max"
      using Cons.prems(3) [of u owner' st'] u by (simp add: one(3))
  qed
  then obtain s' where s': "st_each (reconcile_task os) s1 cs = (s', Ok ())"
    and rest: "\<And>u. map_option tk_state (bt_get (db_tasks (te_db s')) u)
        = map_option (\<lambda>x. if u \<in> fst ` set cs then settled (tk_state x) else tk_state x)
            (bt_get (db_tasks (te_db s1)) u)"
    by blast
  have "map_option tk_state (bt_get (db_tasks (te_db s')) u)
      = map_option (\<lambda>x. if u \<in> fst ` set (c # cs) then settled (tk_state x) else tk_state x)
          (bt_get (db_tasks (te_db s)) u)" for u
    unfolding rest one(3) using new x(1) one(4) by (cases "u = t") (simp_all add: c)
  with s' one(1) show ?case by (intro exI [of _ s']) simp
qed

text \<open>C23. After a restart the reconciliation always completes, and it settles every task: a task that
  had not started (created or queued) or had ended is left in its state, and every task whose row
  claims a live backend is interrupted. The hypotheses say that the encoder renders the empty object
  within the event bound and that no event counter is within two of the largest \<open>i64\<close>.
\<close>

theorem reconcile_settles_all:
  assumes "engine_wf s" and "data_ok (os_to_json os) (JObject [])"
    and "\<And>t x. bt_get (db_tasks (te_db s)) t = Some x \<Longrightarrow> tk_last_event_sequence x + 2 \<le> nat i64_max"
  shows "\<exists>s'. reconcile_after_runtime_restart os s = (s', Ok ())
    \<and> (\<forall>t. map_option tk_state (bt_get (db_tasks (te_db s')) t)
        = map_option (\<lambda>x. settled (tk_state x)) (bt_get (db_tasks (te_db s)) t))"
proof -
  let ?cs = "nonterminal_task_ids (te_db s)"
  have srt: "bt_sorted (db_tasks (te_db s))" using assms(1) by (simp add: task_db_wf_def)
  have ids: "map fst ?cs = map fst (filter (\<lambda>(t, x). \<not> is_terminal (tk_state x)) (db_tasks (te_db s)))"
    by (simp add: nonterminal_task_ids_def comp_def case_prod_beta)
  have "distinct (map fst ?cs)"
    using srt unfolding ids by (intro distinct_map_filter) (simp add: bt_sorted_def strict_sorted_iff)
  moreover have "\<exists>x. bt_get (db_tasks (te_db s)) t = Some x \<and> tk_owner x = owner \<and> tk_state x = st
      \<and> \<not> is_terminal st \<and> tk_last_event_sequence x + 2 \<le> nat i64_max" if "(t, owner, st) \<in> set ?cs" for t owner st
    using that assms(3) by (auto simp: nonterminal_task_ids_def bt_get_in_set [OF srt, symmetric])
  ultimately obtain s' where s': "reconcile_after_runtime_restart os s = (s', Ok ())"
    and all: "\<And>t. map_option tk_state (bt_get (db_tasks (te_db s')) t)
        = map_option (\<lambda>x. if t \<in> fst ` set ?cs then settled (tk_state x) else tk_state x)
            (bt_get (db_tasks (te_db s)) t)"
    using reconcile_list [OF assms(1) _ _ assms(2), of ?cs] by (auto simp: reconcile_after_runtime_restart_def)
  have "settled (tk_state x) = tk_state x" if "bt_get (db_tasks (te_db s)) t = Some x" "t \<notin> fst ` set ?cs" for t x
  proof -
    have "(t, x) \<in> set (db_tasks (te_db s))" using that(1) srt by (simp add: bt_get_in_set)
    then have "is_terminal (tk_state x)" using that(2) by (force simp: nonterminal_task_ids_def)
    then show ?thesis by (cases "tk_state x") auto
  qed
  then show ?thesis
    using s' all by (intro exI [of _ s']) (auto split: if_splits intro!: option.map_cong)
qed

end
