(* ===== verification/Task_Launch.thy ===== *)
theory Task_Launch
  imports Task_Recovery
begin

section \<open>Launching a managed process\<close>

text \<open>
  What a launch leaves behind: on success a running task whose child is attached and durably
  recorded, on failure no task that claims to run. Then the witnesses of the engine's properties.
\<close>

definition running_ids :: "PortusState \<Rightarrow> TaskId set" where
  "running_ids db = {t. \<exists>x. bt_get (db_tasks db) t = Some x \<and> tk_state x = TaskRunning}"

abbreviation running :: "TaskEngine \<Rightarrow> TaskId set" where
  "running s \<equiv> running_ids (te_db s)"

definition fails_quietly :: "TaskEngine \<Rightarrow> TaskEngine \<times> (TaskError + 'a) \<Rightarrow> bool" where
  "fails_quietly s m \<longleftrightarrow> is_ok (snd m) \<or> running (fst m) \<subseteq> running s"

lemma fails_quietly_Err [simp]: "fails_quietly s (s', Err e) \<longleftrightarrow> running s' \<subseteq> running s"
  by (simp add: fails_quietly_def is_ok_def)

lemma st_then_fails_quietly:
  assumes "engine_wf s" and "engine_steps s (fst m)" and "running (fst m) \<subseteq> running s"
    and "\<And>s1 x. m = (s1, Ok x) \<Longrightarrow> engine_wf s1 \<Longrightarrow> fails_quietly s1 (f s1 x)"
  shows "fails_quietly s (st_then m f)"
proof (cases "snd m")
  case (Inl e)
  then have "st_then m f = (fst m, Err e)" by (cases m) simp
  then show ?thesis using assms(3) by simp
next
  case (Inr x)
  then have m: "m = (fst m, Ok x)" by (cases m) simp
  then have "st_then m f = f (fst m) x" by (metis st_then_simps(1))
  moreover have "fails_quietly (fst m) (f (fst m) x)"
    using assms(4) [OF m] engine_steps_wf [OF assms(2,1)] .
  ultimately show ?thesis using assms(3) by (auto simp: fails_quietly_def)
qed

lemma running_same: "same_tasks (te_db s) (te_db s') \<Longrightarrow> running s' = running s"
  by (simp add: running_ids_def same_tasks_def)

lemma running_calls:
  "running (fst (os_call f s)) \<subseteq> running s"
  "running (fst (unix_time_ms os s)) \<subseteq> running s"
  "running (fst (s, r)) \<subseteq> running s"
  by (simp_all add: unix_time_ms_def os_call_def)

lemma running_db_call: "same_tasks (te_db s) (fst (f (te_db s))) \<Longrightarrow> running (fst (db_call f s)) \<subseteq> running s"
  using running_same [of s "fst (db_call f s)"] by (cases "f (te_db s)") (simp add: db_call_def)

lemma running_db_try: "same_tasks (te_db s) (fst (f (te_db s))) \<Longrightarrow> running (fst (db_try f s)) \<subseteq> running s"
  by (simp add: db_try_def running_db_call)

lemma running_ignore: "running (fst m) \<subseteq> running s \<Longrightarrow> running (fst (ignore_result m)) \<subseteq> running s"
  by (simp add: ignore_result_def)

lemma running_transition:
  assumes "engine_wf s" and "to \<noteq> TaskRunning"
  shows "running (fst (transition os t owner from to reason kind summary ekind esummary edata s)) \<subseteq> running s"
proof (cases "transition os t owner from to reason kind summary ekind esummary edata s")
  case (Pair s' r)
  with assms(1) show ?thesis
  proof (cases rule: transition_cases)
    case (moved x x' v row)
    then show ?thesis using assms(2) by (auto simp: Pair running_ids_def split: if_splits)
  qed (simp add: Pair)
qed

lemma running_create_notified:
  assumes "engine_wf s" "nt_task_id spec = t" "nt_owner spec = owner"
  shows "running (fst (create_notified os t owner spec s)) \<subseteq> running s"
proof -
  obtain db' res where c: "create_task (os_to_json os) (te_db s) spec = (db', res)"
    by (cases "create_task (os_to_json os) (te_db s) spec")
  have "te_db (fst (create_notified os t owner spec s)) = db'"
    using notify_db by (cases res) (simp_all add: create_notified_def db_try_def db_call_def c)
  moreover from c have "running_ids db' \<subseteq> running s"
    by (cases rule: create_task_cases) (auto simp: running_ids_def btree_simps split: if_splits)
  ultimately show ?thesis by simp
qed

lemmas running_intros = running_calls running_db_try running_ignore running_transition running_db_call
  running_create_notified aux_same_tasks

lemma kill_and_wait_quiet: "running (fst (kill_and_wait os pid s)) \<subseteq> running s"
  by (simp add: kill_and_wait_def os_call_def)

lemma running_refl_Err: "fails_quietly s (s, Err e)"
  by simp

lemma spawn_failed_quiet: "engine_wf s \<Longrightarrow> fails_quietly s (spawn_failed os owner t a io s)"
  unfolding spawn_failed_def
  by (intro st_then_fails_quietly inv_intros running_intros running_refl_Err) simp_all

lemma relationship_failed_quiet:
  "engine_wf s \<Longrightarrow> fails_quietly s (relationship_failed os owner t a pid err s)"
  unfolding relationship_failed_def
  by (intro st_then_fails_quietly inv_intros running_intros kill_and_wait_quiet running_refl_Err) simp_all

lemma running_failed_quiet:
  "engine_wf s \<Longrightarrow> fails_quietly s (running_failed os rid a pid err s)"
  unfolding running_failed_def
  by (intro st_then_fails_quietly inv_intros db_call_steps running_intros kill_and_wait_quiet running_refl_Err)

lemma attach_child_quiet:
  assumes "engine_wf s"
  shows "fails_quietly s (attach_child os owner spec t a n pid s)"
  unfolding attach_child_def
proof (rule st_then_fails_quietly [OF assms unix_time_steps running_calls(2)], goal_cases)
  case (1 s1 launched)
  let ?rel = "managed_relation spec t n pid launched"
  let ?m = "db_call (\<lambda>db. add_task_relationship db ?rel) s1"
  obtain s2 r where m: "?m = (s2, r)" by (cases ?m)
  have steps: "engine_steps s1 s2" using db_call_steps [of s1 "\<lambda>db. add_task_relationship db ?rel"] aux_same_tasks(5) m by simp
  have run: "running s2 \<subseteq> running s1"
    using running_db_call [of s1 "\<lambda>db. add_task_relationship db ?rel"] aux_same_tasks(5) m by simp
  have wf2: "engine_wf s2" using engine_steps_wf [OF steps 1(2)] .
  show ?case
  proof (cases r)
    case (Inl err)
    show ?thesis
      unfolding m Inl prod.case sum.case
      using relationship_failed_quiet [OF wf2, of os owner t a pid err] run
      by (auto simp: fails_quietly_def)
  next
    case (Inr rid)
    let ?tr = "transition os t owner TaskStarting TaskRunning ''managed_backend_running'' None None
              ''task.running'' ''managed backend is running''
              (JObject [(''backend_kind'', JString ''native_process'')]) s2"
    obtain s3 r3 where tr: "?tr = (s3, r3)" by (cases ?tr)
    show ?thesis
    proof (cases r3)
      case err: (Inl err)
      have db: "te_db s3 = te_db s2" using wf2 tr err by (cases rule: transition_cases) auto
      then have "fails_quietly s3 (running_failed os rid a pid err s3)"
        using wf2 by (intro running_failed_quiet) simp
      then show ?thesis
        unfolding m Inr prod.case sum.case tr err
        using run db by (auto simp: fails_quietly_def)
    next
      case ok: (Inr v)
      show ?thesis
        unfolding m Inr prod.case sum.case tr ok by (simp add: fails_quietly_def is_ok_def)
    qed
  qed
qed

text \<open>C36. A launch that fails leaves no task in the running state that was not running before, at whatever
  point it fails: an invalid specification, a record the store refuses (a failed validation, a limit or
  a constraint), a failed spawn, a relationship that cannot be recorded, a refused transition. Faults of
  the database engine itself, such as a read that fails after a commit, are outside the model.
\<close>

theorem failed_launch_leaves_nothing_running:
  assumes "engine_wf s" and "launch_managed_process os owner spec s = (s', Err e)"
  shows "running s' \<subseteq> running s"
proof -
  have "fails_quietly s (launch_managed_process os owner spec s)"
    unfolding launch_managed_process_def
    by (intro st_then_fails_quietly inv_intros running_intros assms(1))
       (auto split: sum.split prod.split intro!: st_then_fails_quietly inv_intros running_intros
         spawn_failed_quiet attach_child_quiet)
  then show ?thesis using assms(2) by simp
qed


lemma failed_branches_Err:
  "relationship_failed os owner t a pid err s \<noteq> (s', Ok v)"
  "running_failed os rid a pid err' s \<noteq> (s', Ok v)"
  "spawn_failed os owner t a io s \<noteq> (s', Ok v)"
  by (simp_all add: relationship_failed_def running_failed_def spawn_failed_def result_simps)

lemma attach_child_OkE:
  assumes "attach_child os owner spec t a n pid s = (s', Ok v)"
  obtains s1 launched s2 rid s3 where "unix_time_ms os s = (s1, Ok launched)"
    "db_call (\<lambda>db. add_task_relationship db (managed_relation spec t n pid launched)) s1 = (s2, Ok rid)"
    "transition os t owner TaskStarting TaskRunning ''managed_backend_running'' None None
       ''task.running'' ''managed backend is running''
       (JObject [(''backend_kind'', JString ''native_process'')]) s2 = (s3, Ok v)"
    "s' = s3\<lparr>te_children := AList.update t \<lparr>mc_pid = pid, mc_owner = owner, mc_relation_id = rid,
       mc_attempt_id = a\<rparr> (te_children s3)\<rparr>"
proof -
  let ?rel = "\<lambda>launched s1. db_call (\<lambda>db. add_task_relationship db (managed_relation spec t n pid launched)) s1"
  let ?tr = "\<lambda>s2. transition os t owner TaskStarting TaskRunning ''managed_backend_running'' None None
       ''task.running'' ''managed backend is running'' (JObject [(''backend_kind'', JString ''native_process'')]) s2"
  obtain s1 launched where time: "unix_time_ms os s = (s1, Ok launched)"
    by (simp add: unix_time_ms_def os_call_def)
  obtain s2 r where rel: "?rel launched s1 = (s2, r)" by (cases "?rel launched s1")
  note eq = assms [unfolded attach_child_def time st_then_simps rel prod.case]
  from eq obtain rid where r: "r = Ok rid" by (cases r) (simp_all add: failed_branches_Err)
  obtain s3 r3 where tr: "?tr s2 = (s3, r3)" by (cases "?tr s2")
  note eq' = eq [unfolded r sum.case tr prod.case]
  then have "r3 = Ok v" by (cases r3) (simp_all add: failed_branches_Err)
  then show ?thesis using that [OF time] rel [unfolded r] tr eq' by simp
qed

lemma add_task_relationship_Ok:
  "add_task_relationship db n = (db', Ok rid) \<Longrightarrow>
     db_relationships db' = db_relationships db @ [relationship_row n rid]"
  by (auto simp: add_task_relationship_def result_simps Let_def split: if_splits)

lemma attach_child_Ok:
  assumes wf: "engine_wf s" and "attach_child os owner spec t a n pid s = (s', Ok v)"
  shows "tk_task_id (tv_task v) = t \<and> t \<in> running s'
    \<and> (\<exists>m r. map_of (te_children s') t = Some m \<and> mc_owner m = owner \<and> mc_pid m = pid
        \<and> r \<in> set (db_relationships (te_db s')) \<and> rl_relation_id r = mc_relation_id m \<and> rl_task_id r = t
        \<and> rl_mode r = ModeManaged \<and> rl_process_id r = Some pid \<and> rl_status r = RelRunning)"
  using assms(2)
proof (rule attach_child_OkE)
  fix s1 launched s2 rid s3
  let ?n = "managed_relation spec t n pid launched"
  assume t1: "unix_time_ms os s = (s1, Ok launched)"
    and rel: "db_call (\<lambda>db. add_task_relationship db ?n) s1 = (s2, Ok rid)"
    and tr: "transition os t owner TaskStarting TaskRunning ''managed_backend_running'' None None
       ''task.running'' ''managed backend is running''
       (JObject [(''backend_kind'', JString ''native_process'')]) s2 = (s3, Ok v)"
    and s': "s' = s3\<lparr>te_children := AList.update t \<lparr>mc_pid = pid, mc_owner = owner, mc_relation_id = rid,
       mc_attempt_id = a\<rparr> (te_children s3)\<rparr>"
  have wf1: "engine_wf s1" using calm_time [OF t1] wf by (simp add: calm_def)
  have "engine_steps s1 s2"
    using db_call_steps [of s1 "\<lambda>db. add_task_relationship db ?n"] aux_same_tasks(5) by (simp add: rel)
  then have wf2: "engine_wf s2" using engine_steps_wf wf1 by blast
  from rel have "add_task_relationship (te_db s1) ?n = (te_db s2, Ok rid)"
    by (auto simp: db_call_def split: prod.splits)
  then have mem: "relationship_row ?n rid \<in> set (db_relationships (te_db s2))"
    by (simp add: add_task_relationship_Ok)
  from wf2 tr have "db_relationships (te_db s3) = db_relationships (te_db s2)
      \<and> tk_task_id (tv_task v) = t \<and> t \<in> running s3"
    by (cases rule: transition_cases) (simp_all add: running_ids_def)
  then show ?thesis
    unfolding s' using mem
    by (auto simp: update_conv managed_relation_def relationship_row_def intro!: bexI [OF _ mem])
qed

definition ends_attaching ::
  "Os \<Rightarrow> Principal \<Rightarrow> ManagedProcessSpec \<Rightarrow> TaskEngine \<Rightarrow> TaskEngine \<times> (TaskError + TaskView) \<Rightarrow> bool" where
  "ends_attaching os owner spec s m \<longleftrightarrow> (\<forall>s' v. m = (s', Ok v) \<longrightarrow>
     (\<exists>s1 t a n pid. engine_steps s s1 \<and> attach_child os owner spec t a n pid s1 = (s', Ok v)))"

lemma attach_child_ends: "ends_attaching os owner spec s (attach_child os owner spec t a n pid s)"
  unfolding ends_attaching_def by blast

lemma spawn_failed_ends: "ends_attaching os owner spec s (spawn_failed os owner t a io s)"
  by (simp add: ends_attaching_def failed_branches_Err)

lemma st_then_ends_attaching:
  assumes "engine_wf s" "engine_steps s (fst m)"
    and "\<And>s1 x. m = (s1, Ok x) \<Longrightarrow> engine_wf s1 \<Longrightarrow> ends_attaching os owner spec s1 (f s1 x)"
  shows "ends_attaching os owner spec s (st_then m f)"
  unfolding ends_attaching_def
proof (intro allI impI)
  fix s' v assume "st_then m f = (s', Ok v)"
  then obtain s1 x where m: "m = (s1, Ok x)" "f s1 x = (s', Ok v)" by (auto simp: result_simps)
  have "engine_steps s s1" "engine_wf s1" using engine_steps_wf [OF assms(2,1)] assms(2) m(1) by simp_all
  then show "\<exists>s1 t a n pid. engine_steps s s1 \<and> attach_child os owner spec t a n pid s1 = (s', Ok v)"
    using assms(3) [OF m(1)] m(2) unfolding ends_attaching_def by (metis rtranclp_trans)
qed

text \<open>A successful launch returns a running task that is completely recorded: its child is attached
  under the caller's identity and the database holds a running managed relationship with the same
  relation id and process id.
\<close>

theorem launch_attaches_recorded_child:
  assumes "engine_wf s" and "launch_managed_process os owner spec s = (s', Ok v)"
  shows "tk_task_id (tv_task v) \<in> running s' \<and>
    (\<exists>m r. map_of (te_children s') (tk_task_id (tv_task v)) = Some m \<and> mc_owner m = owner
      \<and> r \<in> set (db_relationships (te_db s')) \<and> rl_relation_id r = mc_relation_id m
      \<and> rl_task_id r = tk_task_id (tv_task v) \<and> rl_mode r = ModeManaged
      \<and> rl_process_id r = Some (mc_pid m) \<and> rl_status r = RelRunning)"
proof -
  have "ends_attaching os owner spec s (launch_managed_process os owner spec s)"
    unfolding launch_managed_process_def
    by (intro st_then_ends_attaching inv_intros assms(1))
       (auto split: sum.splits prod.splits
         intro!: st_then_ends_attaching inv_intros attach_child_ends spawn_failed_ends)
  then obtain s1 t a n pid where "engine_steps s s1" "attach_child os owner spec t a n pid s1 = (s', Ok v)"
    using assms(2) unfolding ends_attaching_def by blast
  moreover from this have "engine_wf s1" using engine_steps_wf assms(1) by blast
  ultimately show ?thesis using attach_child_Ok by metis
qed


subsection \<open>A cancellation that the operating system lets through\<close>

lemma cancel_texts:
  "text_ok 256 ''cancellation_requested''" "text_ok 128 ''task.cancellation_requested''"
  "text_ok 1024 ''cancellation requested''" "text_ok 256 ''cancellation_confirmed''"
  "text_ok 128 ''task.cancelled''" "text_ok 1024 ''managed backend cancellation confirmed''"
  "text_ok 2048 ''managed backend cancellation was confirmed''"
  by code_simp+

lemma finish_cancelled: "db_try (\<lambda>db. finish_task_attempt db a ''cancelled'' None code now) s
    = (s\<lparr>te_db := fst (finish_task_attempt (te_db s) a ''cancelled'' None code now)\<rparr>, Ok ())"
proof -
  have "task_validate_nonempty ''cancelled'' 64 ''attempt outcome'' = Ok ()" by code_simp
  then show ?thesis
    by (simp add: db_try_def db_call_def finish_task_attempt_def task_validate_optional_def)
qed

lemma cancel_confirmed_succeeds:
  assumes wf: "engine_wf s" and x: "bt_get (db_tasks (te_db s)) t = Some x" "tk_owner x = owner"
      "tk_state x = TaskCancelling"
    and room: "tk_last_event_sequence x < nat i64_max" and data: "data_ok (os_to_json os) (JObject [])"
  shows "\<exists>s' v. cancel_confirmed os owner t m code s = (s', Ok v)"
proof -
  obtain s1 now where t1: "unix_time_ms os s = (s1, Ok now)" "te_db s1 = te_db s"
    by (simp add: unix_time_ms_def os_call_def)
  let ?db2 = "fst (update_task_relationship_status (te_db s1) (mc_relation_id m) RelStopped now)"
  let ?db3 = "fst (finish_task_attempt ?db2 (mc_attempt_id m) ''cancelled'' None code now)"
  let ?s3 = "s1\<lparr>te_db := ?db3\<rparr>"
  have u: "db_try (\<lambda>db. update_task_relationship_status db (mc_relation_id m) RelStopped now) s1
      = (s1\<lparr>te_db := ?db2\<rparr>, Ok ())"
    by (simp add: db_try_def db_call_def update_task_relationship_status_def)
  have same: "same_tasks (te_db s) ?db3"
    using aux_same_tasks(6) [of "te_db s"] aux_same_tasks(4) [of ?db2] by (simp add: same_tasks_def t1)
  have wf3: "engine_wf ?s3" using same_tasks_wf [OF same wf] by simp
  have get3: "bt_get (db_tasks (te_db ?s3)) t = Some x" using same x(1) by (simp add: same_tasks_def)
  have "\<exists>s' v. transition os t owner TaskCancelling TaskCancelled ''cancellation_confirmed'' (Some ResultCancelled)
       (Some ''managed backend cancellation was confirmed'') ''task.cancelled''
       ''managed backend cancellation confirmed'' (JObject []) ?s3 = (s', Ok v)"
    by (rule transition_succeeds [OF wf3 get3 x(2,3) room, where to = TaskCancelled
          and reason = "''cancellation_confirmed''" and kind = "Some ResultCancelled"
          and summary = "Some ''managed backend cancellation was confirmed''" and ekind = "''task.cancelled''"
          and os = os and esummary = "''managed backend cancellation confirmed''" and edata = "JObject []"])
       (use data cancel_texts in auto)
  then show ?thesis
    by (simp add: cancel_confirmed_def t1(1) u finish_cancelled)
qed

lemma cancel_succeeds:
  assumes wf: "engine_wf s" and refreshed: "refresh_all os s = (s1, Ok ())"
    and x: "bt_get (db_tasks (te_db s1)) t = Some x" "tk_owner x = owner" "can_transition (tk_state x) TaskCancelling"
    and rel: "list_ex cancellable_managed (task_relationships (te_db s1) t)"
    and child: "map_of (te_children s1) t = Some m"
    and os: "\<And>n pid. os_kill os n pid = Ok ()" "\<And>n pid. \<exists>code. os_wait os n pid = Ok code"
    and room: "tk_last_event_sequence x + 1 < nat i64_max" and data: "data_ok (os_to_json os) (JObject [])"
  shows "\<exists>s' v. cancel_task os owner t None s = (s', Ok v)"
proof -
  have wf1: "engine_wf s1" using engine_steps_wf [OF refresh_steps [OF wf, of os] wf] refreshed by simp
  have live: "\<not> is_terminal (tk_state x)" using x(3) by (cases "tk_state x") auto
  have view: "task_view_visible (te_db s1) t owner
      = Some \<lparr>tv_task = task_summary_from_row (te_db s1) x, tv_relationships = task_relationships (te_db s1) t\<rparr>"
    using x by (simp add: task_view_Some)
  obtain s2 v2 x2 where tr: "transition os t owner (tk_state x) TaskCancelling ''cancellation_requested'' None None
      ''task.cancellation_requested'' ''cancellation requested'' (JObject []) s1 = (s2, Ok v2)"
    and s2: "engine_wf s2" "bt_get (db_tasks (te_db s2)) = (bt_get (db_tasks (te_db s1)))(t \<mapsto> x2)"
      "tk_state x2 = TaskCancelling" "tk_owner x2 = owner" "tk_last_event_sequence x2 = tk_last_event_sequence x + 1"
    by (rule transition_succeeds [OF wf1 x(1,2) refl, where to = TaskCancelling
          and reason = "''cancellation_requested''" and kind = None and summary = None
          and ekind = "''task.cancellation_requested''" and os = os
          and esummary = "''cancellation requested''" and edata = "JObject []"])
       (use data room x(3) cancel_texts in auto)
  have "te_children s2 = te_children s1" using transition_Ok [OF wf1 tr] by blast
  with child have m: "map_of (te_children s2) t = Some m" by simp
  let ?s3 = "s2\<lparr>te_children := filter (\<lambda>(t', _). t' \<noteq> t) (te_children s2), te_calls := te_calls s2 + 1 + 1\<rparr>"
  obtain code where code: "os_wait os (te_calls s2 + 1) (mc_pid m) = Ok code" using os(2) by blast
  have "\<exists>s' v. cancel_confirmed os owner t m code ?s3 = (s', Ok v)"
    by (rule cancel_confirmed_succeeds [where x = x2]) (use s2 room data in simp_all)
  then have "\<exists>s' v. stop_backend os owner t s2 = (s', Ok v)"
    using m code os(1) by (simp add: stop_backend_def os_call_def)
  then show ?thesis
    unfolding cancel_task_def refreshed st_then_simps view ok_or_simps
    using live rel tr by simp
qed

end
