(* ===== verification/Task_Engine_Witnesses.thy ===== *)
theory Task_Engine_Witnesses
  imports Task_Launch
begin

section \<open>A concrete run of the task engine\<close>

text \<open>
  One launch and one cancellation, state by state, and the witnesses of the engine's properties on
  them.
\<close>

definition demo_os :: Os where
  "demo_os = \<lparr>os_time = (\<lambda>n. int n), os_task_id = (\<lambda>_. ''task_1''), os_spawn = (\<lambda>_. Ok 7),
     os_try_wait = (\<lambda>_ _. Ok None), os_kill = (\<lambda>_ _. Ok ()), os_wait = (\<lambda>_ _. Ok (Some 0)),
     os_hash_order = (\<lambda>cs. cs), os_to_json = demo_to_json\<rparr>"

abbreviation demo_owner :: Principal where
  "demo_owner \<equiv> principal_new 1000 1000"

definition demo_engine :: TaskEngine where
  "demo_engine = \<lparr>te_db = empty_state, te_children = [], te_sink = [], te_calls = 0\<rparr>"

definition demo_process :: ManagedProcessSpec where
  "demo_process = managed_process_spec_new ''/bin/true'' ''true'' ''run''"

definition demo_new :: NewTaskRecord where
  "demo_new = \<lparr>nt_task_id = ''task_1'', nt_owner = demo_owner, nt_title = None,
     nt_objective_summary = ''run'', nt_requester_surface = ''internal'', nt_project_ref = None,
     nt_session_ref = None, nt_parent_task_id = None, nt_retry_of_task_id = None,
     nt_retry_safety = RetryNever, nt_created_at_ms = 0\<rparr>"

definition demo_starting :: TaskTransition where
  "demo_starting = \<lparr>tt_expected = TaskCreated, tt_next = TaskStarting,
     tt_state_reason = Some ''launching_managed_backend'', tt_waiting_reason = None,
     tt_result_kind = None, tt_result_summary = None, tt_event_kind = ''task.starting'',
     tt_event_summary = Some ''managed execution starting'', tt_source_ref = Some ''portus-task'',
     tt_event_data = JObject [(''backend_kind'', JString ''native_process'')], tt_occurred_at_ms = 2\<rparr>"

definition demo_running :: TaskTransition where
  "demo_running = \<lparr>tt_expected = TaskStarting, tt_next = TaskRunning,
     tt_state_reason = Some ''managed_backend_running'', tt_waiting_reason = None,
     tt_result_kind = None, tt_result_summary = None, tt_event_kind = ''task.running'',
     tt_event_summary = Some ''managed backend is running'', tt_source_ref = Some ''portus-task'',
     tt_event_data = JObject [(''backend_kind'', JString ''native_process'')], tt_occurred_at_ms = 5\<rparr>"

definition demo_e1 :: TaskEngine where
  "demo_e1 = \<lparr>te_db = empty_state\<lparr>db_tasks := [(''task_1'', created_row demo_new)],
       db_events := [event_row (created_event demo_new) 1]\<rparr>,
     te_children = [], te_sink = [task_event_of ''task_1'' (event_row (created_event demo_new) 1)],
     te_calls = 2\<rparr>"

definition demo_row2 :: TaskRow where
  "demo_row2 = transition_row demo_starting 2 (created_row demo_new)"

definition demo_event2 :: SignificantEvent where
  "demo_event2 = event_row (transition_event ''task_1'' demo_owner demo_starting) 2"

definition demo_e2 :: TaskEngine where
  "demo_e2 = \<lparr>te_db = empty_state\<lparr>db_tasks := [(''task_1'', demo_row2)],
       db_events := [event_row (created_event demo_new) 1, demo_event2]\<rparr>,
     te_children = [],
     te_sink = [task_event_of ''task_1'' (event_row (created_event demo_new) 1), task_event_of ''task_1'' demo_event2],
     te_calls = 3\<rparr>"

lemma demo_step1:
  "create_notified demo_os ''task_1'' demo_owner demo_new (demo_engine\<lparr>te_calls := 2\<rparr>) = (demo_e1, Ok ())"
  by code_simp

lemma demo_step2:
  "transition demo_os ''task_1'' demo_owner TaskCreated TaskStarting ''launching_managed_backend'' None None
      ''task.starting'' ''managed execution starting''
      (JObject [(''backend_kind'', JString ''native_process'')]) demo_e1
    = (demo_e2, Ok \<lparr>tv_task = task_summary_from_row (te_db demo_e2) demo_row2, tv_relationships = []\<rparr>)"
  by code_simp


definition demo_attempt :: TaskAttempt where
  "demo_attempt = \<lparr>at_attempt_id = 1, at_task_id = ''task_1'', at_attempt_number = 1,
     at_backend_kind = BackendNativeProcess, at_backend_ref = ''true'', at_started_at_ms = 0,
     at_retry_safe = False, at_finished_at_ms = None, at_outcome = None,
     at_failure_classification = None, at_exit_code = None\<rparr>"

definition demo_relation :: TaskExecutionRelationship where
  "demo_relation = relationship_row (managed_relation demo_process ''task_1'' 1 7 4) 1"

definition demo_e3 :: TaskEngine where
  "demo_e3 = demo_e2\<lparr>te_db := (te_db demo_e2)\<lparr>db_attempts := [demo_attempt]\<rparr>\<rparr>"

definition demo_e4 :: TaskEngine where
  "demo_e4 = demo_e3\<lparr>te_db := (te_db demo_e3)\<lparr>db_relationships := [demo_relation]\<rparr>, te_calls := 5\<rparr>"

definition demo_row3 :: TaskRow where
  "demo_row3 = transition_row demo_running 3 demo_row2"

definition demo_event3 :: SignificantEvent where
  "demo_event3 = event_row (transition_event ''task_1'' demo_owner demo_running) 3"

definition demo_e5 :: TaskEngine where
  "demo_e5 = demo_e4\<lparr>te_db := (te_db demo_e4)\<lparr>db_tasks := [(''task_1'', demo_row3)],
       db_events := db_events (te_db demo_e4) @ [demo_event3]\<rparr>,
     te_sink := te_sink demo_e4 @ [task_event_of ''task_1'' demo_event3], te_calls := 6\<rparr>"

definition demo_launched :: TaskEngine where
  "demo_launched = demo_e5\<lparr>te_children := [(''task_1'',
     \<lparr>mc_pid = 7, mc_owner = demo_owner, mc_relation_id = 1, mc_attempt_id = 1\<rparr>)]\<rparr>"

lemma demo_step3:
  "db_try (\<lambda>db. start_task_attempt db ''task_1'' BackendNativeProcess ''true'' False 0) demo_e2 = (demo_e3, Ok (1, 1))"
  by code_simp

lemma demo_step4:
  "db_call (\<lambda>db. add_task_relationship db (managed_relation demo_process ''task_1'' 1 7 4)) (demo_e3\<lparr>te_calls := 5\<rparr>)
    = (demo_e4, Ok 1)"
  by code_simp

lemma demo_step5:
  "transition demo_os ''task_1'' demo_owner TaskStarting TaskRunning ''managed_backend_running'' None None
      ''task.running'' ''managed backend is running''
      (JObject [(''backend_kind'', JString ''native_process'')]) demo_e4
    = (demo_e5, Ok \<lparr>tv_task = task_summary_from_row (te_db demo_e5) demo_row3, tv_relationships = [demo_relation]\<rparr>)"
  by code_simp

lemma demo_calls:
  "te_calls demo_engine = 0" "te_calls demo_e3 = 3" "te_children demo_e5 = []"
  "os_time demo_os n = int n" "os_task_id demo_os n = ''task_1''" "os_spawn demo_os n = Ok 7"
  by (simp_all add: demo_engine_def demo_e5_def demo_e4_def demo_e3_def demo_e2_def demo_os_def)

lemma demo_valid_spec: "validate_managed_spec demo_process = Ok ()"
  by (simp add: validate_managed_spec_def demo_process_def managed_process_spec_new_def
      MAX_MANAGED_ARGUMENTS_def MAX_MANAGED_TOTAL_ARGUMENT_BYTES_def ascii_white_space_def
      white_space2_def white_space3_def byte_def of_char_def)

lemma demo_spec_fields:
  "mp_safe_backend_ref demo_process = ''true''" "mp_retry_safety demo_process = RetryNever"
  "\<lparr>nt_task_id = ''task_1'', nt_owner = demo_owner, nt_title = mp_title demo_process,
    nt_objective_summary = mp_objective_summary demo_process,
    nt_requester_surface = mp_requester_surface demo_process, nt_project_ref = mp_project_ref demo_process,
    nt_session_ref = mp_session_ref demo_process, nt_parent_task_id = None, nt_retry_of_task_id = None,
    nt_retry_safety = RetryNever, nt_created_at_ms = 0\<rparr> = demo_new"
  by (simp_all add: demo_process_def managed_process_spec_new_def demo_new_def)

lemma demo_attach:
  "attach_child demo_os demo_owner demo_process ''task_1'' 1 1 7 (demo_e3\<lparr>te_calls := 4\<rparr>) =
    (demo_launched, Ok \<lparr>tv_task = task_summary_from_row (te_db demo_e5) demo_row3, tv_relationships = [demo_relation]\<rparr>)"
  by (simp add: attach_child_def unix_time_ms_def os_call_def demo_calls demo_step4 demo_step5 demo_launched_def
      del: One_nat_def)

lemma demo_launch: "launch_managed_process demo_os demo_owner demo_process demo_engine =
    (demo_launched, Ok \<lparr>tv_task = task_summary_from_row (te_db demo_e5) demo_row3, tv_relationships = [demo_relation]\<rparr>)"
proof -
  let ?e = "\<lambda>n. demo_engine\<lparr>te_calls := n\<rparr>"
  have c0: "unix_time_ms demo_os demo_engine = (?e 1, Ok 0)"
    by (simp add: unix_time_ms_def os_call_def demo_calls)
  have c1: "os_call (os_task_id demo_os) (?e 1) = (?e 2, Ok ''task_1'')"
    by (simp add: os_call_def demo_calls)
  have c3: "os_call (os_spawn demo_os) demo_e3 = (demo_e3\<lparr>te_calls := 4\<rparr>, Ok (Ok 7))"
    by (simp add: os_call_def demo_calls)
  have never: "(RetryNever \<noteq> RetryNever) = False" by simp
  show ?thesis
    unfolding launch_managed_process_def demo_valid_spec
    by (simp only: st_then_simps c0 c1 demo_spec_fields demo_step1 demo_step2 demo_step3 never c3
        prod.case sum.case demo_attach)
qed


subsection \<open>Witnesses\<close>

lemma demo_engine_wf: "engine_wf demo_engine"
  by (simp add: demo_engine_def empty_state_wf)

lemma demo_launched_wf: "engine_wf demo_launched"
  using engine_steps_wf [OF launch_steps [OF demo_engine_wf, of demo_os demo_owner demo_process] demo_engine_wf]
  by (simp add: demo_launch)

lemma demo_launched_op: "engine_op demo_os demo_engine demo_launched"
  using op_launch [of demo_os demo_engine demo_owner demo_process] by (simp add: demo_launch)

lemma demo_launched_row: "bt_get (db_tasks (te_db demo_launched)) u = (if u = ''task_1'' then Some demo_row3 else None)"
  by (simp add: demo_launched_def demo_e5_def bt_get_def)

lemma demo_row3_facts: "tk_state demo_row3 = TaskRunning" "tk_owner demo_row3 = demo_owner"
  "tk_last_event_sequence demo_row3 = 3"
  by (simp_all add: demo_row3_def demo_row2_def demo_running_def demo_new_def i64_of_u64_def i64_max_def)

lemma demo_data_ok: "data_ok (os_to_json demo_os) (JObject [])"
  by (simp add: data_ok_def demo_os_def demo_to_json_def MAX_TASK_EVENT_DATA_BYTES_def)

theorem launch_attaches_recorded_child_witness:
  "''task_1'' \<in> running demo_launched
   \<and> (\<exists>m. map_of (te_children demo_launched) ''task_1'' = Some m \<and> mc_owner m = demo_owner)"
proof -
  have "tk_task_id demo_row3 = ''task_1''"
    by (simp add: demo_row3_def demo_row2_def demo_new_def)
  then show ?thesis
    using launch_attaches_recorded_child [OF demo_engine_wf demo_launch] by auto
qed

text \<open>The same launch where the program cannot be spawned: the task has been recorded and started, and ends
  failed.\<close>

definition demo_no_spawn :: Os where
  "demo_no_spawn = demo_os\<lparr>os_spawn := (\<lambda>_. Err ''ENOENT'')\<rparr>"

lemma demo_no_spawn_same:
  "create_notified demo_no_spawn = create_notified demo_os" "transition demo_no_spawn = transition demo_os"
  "unix_time_ms demo_no_spawn = unix_time_ms demo_os" "os_task_id demo_no_spawn = os_task_id demo_os"
  by (simp_all add: fun_eq_iff demo_no_spawn_def create_notified_def transition_def unix_time_ms_def)

lemma demo_spawn_failed:
  "snd (spawn_failed demo_os demo_owner ''task_1'' 1 ''ENOENT'' (demo_e3\<lparr>te_calls := 4\<rparr>)) = Err (TaskIo ''ENOENT'')"
  "map_option tk_state (bt_get (db_tasks (te_db (fst (spawn_failed demo_os demo_owner ''task_1'' 1 ''ENOENT''
     (demo_e3\<lparr>te_calls := 4\<rparr>))))) ''task_1'') = Some TaskFailed"
  by code_simp+

lemma demo_failed_launch:
  "launch_managed_process demo_no_spawn demo_owner demo_process demo_engine
    = spawn_failed demo_os demo_owner ''task_1'' 1 ''ENOENT'' (demo_e3\<lparr>te_calls := 4\<rparr>)"
proof -
  let ?e = "\<lambda>n. demo_engine\<lparr>te_calls := n\<rparr>"
  have c0: "unix_time_ms demo_os demo_engine = (?e 1, Ok 0)"
    by (simp add: unix_time_ms_def os_call_def demo_calls)
  have c1: "os_call (os_task_id demo_os) (?e 1) = (?e 2, Ok ''task_1'')"
    by (simp add: os_call_def demo_calls)
  have c3: "os_call (os_spawn demo_no_spawn) demo_e3 = (demo_e3\<lparr>te_calls := 4\<rparr>, Ok (Err ''ENOENT''))"
    by (simp add: os_call_def demo_calls demo_no_spawn_def)
  have never: "(RetryNever \<noteq> RetryNever) = False" by simp
  have same: "spawn_failed demo_no_spawn = spawn_failed demo_os"
    unfolding spawn_failed_def demo_no_spawn_same ..
  show ?thesis
    unfolding launch_managed_process_def demo_valid_spec demo_no_spawn_same same
    by (simp only: st_then_simps c0 c1 demo_spec_fields demo_step1 demo_step2 demo_step3 never c3
        prod.case sum.case)
qed

theorem failed_launch_leaves_nothing_running_witness:
  "\<exists>s'. launch_managed_process demo_no_spawn demo_owner demo_process demo_engine = (s', Err (TaskIo ''ENOENT''))
     \<and> map_option tk_state (bt_get (db_tasks (te_db s')) ''task_1'') = Some TaskFailed \<and> running s' = {}"
proof -
  obtain s' where s': "launch_managed_process demo_no_spawn demo_owner demo_process demo_engine
      = (s', Err (TaskIo ''ENOENT''))"
    "map_option tk_state (bt_get (db_tasks (te_db s')) ''task_1'') = Some TaskFailed"
    using demo_spawn_failed unfolding demo_failed_launch by (metis prod.collapse)
  have "running demo_engine = {}"
    by (simp add: running_ids_def demo_engine_def empty_state_def bt_get_def)
  with s' failed_launch_leaves_nothing_running [OF demo_engine_wf s'(1)] show ?thesis by auto
qed


theorem task_events_announced_witness:
  "announced demo_engine demo_launched ''task_1'' = [1, 2, 3]"
proof -
  have "last_of (te_db demo_engine) ''task_1'' = 0"
    by (simp add: last_of_def demo_engine_def empty_state_def bt_get_def)
  moreover have "last_of (te_db demo_launched) ''task_1'' = 3"
    by (simp add: last_of_def demo_launched_row demo_row3_facts)
  ultimately show ?thesis
    using task_events_announced [OF demo_engine_wf r_into_rtranclp [of "engine_op demo_os", OF demo_launched_op], of "''task_1''"]
    by (simp add: upt_rec)
qed

theorem reconcile_settles_all_witness:
  "\<exists>s' x'. reconcile_after_runtime_restart demo_os demo_launched = (s', Ok ())
     \<and> bt_get (db_tasks (te_db s')) ''task_1'' = Some x' \<and> tk_state x' = TaskInterrupted"
proof -
  have room: "tk_last_event_sequence x + 2 \<le> nat i64_max"
    if "bt_get (db_tasks (te_db demo_launched)) t = Some x" for t x
    using that by (simp add: demo_launched_row demo_row3_facts i64_max_def split: if_splits)
  obtain s' where run: "reconcile_after_runtime_restart demo_os demo_launched = (s', Ok ())"
    and all: "\<And>t. map_option tk_state (bt_get (db_tasks (te_db s')) t)
        = map_option (\<lambda>x. settled (tk_state x)) (bt_get (db_tasks (te_db demo_launched)) t)"
    using reconcile_settles_all [OF demo_launched_wf demo_data_ok] room by blast
  have "map_option tk_state (bt_get (db_tasks (te_db s')) ''task_1'') = Some TaskInterrupted"
    using all [of "''task_1''"] by (simp add: demo_launched_row demo_row3_facts)
  then show ?thesis using run by auto
qed

theorem cancel_reports_the_end_witness:
  "\<exists>s' v. cancel_task demo_os demo_owner ''task_1'' None demo_launched = (s', Ok v)
     \<and> is_terminal (tk_state (tv_task v)) \<and> ''task_1'' \<notin> fst ` set (te_children s')"
proof -
  have refreshed: "refresh_all demo_os demo_launched = (demo_launched\<lparr>te_calls := 7\<rparr>, Ok ())"
    by (simp add: refresh_all_def demo_launched_def demo_os_def os_call_def) (simp add: demo_e5_def)
  have rel: "list_ex cancellable_managed (task_relationships (te_db (demo_launched\<lparr>te_calls := 7\<rparr>)) ''task_1'')"
    by (simp add: task_relationships_def demo_launched_def demo_e5_def demo_e4_def demo_relation_def
        relationship_row_def managed_relation_def cancellable_managed_def)
  have child: "map_of (te_children (demo_launched\<lparr>te_calls := 7\<rparr>)) ''task_1''
      = Some \<lparr>mc_pid = 7, mc_owner = demo_owner, mc_relation_id = 1, mc_attempt_id = 1\<rparr>"
    by (simp add: demo_launched_def)
  have "\<exists>s' v. cancel_task demo_os demo_owner ''task_1'' None demo_launched = (s', Ok v)"
    by (rule cancel_succeeds [OF demo_launched_wf refreshed _ _ _ rel child _ _ _ demo_data_ok, of demo_row3])
       (simp_all add: demo_launched_row demo_row3_facts demo_os_def i64_max_def)
  then show ?thesis using cancel_reports_the_end [OF demo_launched_wf] by blast
qed

end
