(* ===== verification/Framing.thy ===== *)
theory Framing
  imports Filesystem
begin

section \<open>Bounded newline-delimited frames\<close>

text \<open>
  \<^verbatim>\<open>portus-client/src/framing.rs\<close> and the admin-socket reader of \<^verbatim>\<open>portus-apid/src/unix.rs\<close>: one JSON
  value per line, with a bound on the bytes buffered for a line. A \<open>BufReader\<close> holds the bytes
  it has not handed out and the results of the \<open>read\<close> calls to come, an endless sequence, so
  that a peer may send for ever, stop, or fail at any point. The loops are defined with
  \<open>partial_function\<close>: that they return is a theorem, not a consequence of their definition.

  The two readers of the source are separate loops with the same steps; the locale
  \<open>line_reader\<close> holds the lemmas about those steps once.
\<close>

definition DEFAULT_MAX_FRAME_BYTES :: nat where
  "DEFAULT_MAX_FRAME_BYTES = 1024 * 1024"

definition newline :: char where
  "newline = CHR 0x0A"

datatype FrameError =
    FrameIo io_error
  | FrameTooLarge nat
  | TruncatedFrame
  | FrameInvalidJson

subsection \<open>Buffered readers and writers\<close>

record BufReader =
  buffered :: string
  reads :: "nat \<Rightarrow> io_error + string"
  calls :: nat

definition fill_buf :: "BufReader \<Rightarrow> BufReader \<times> (io_error + string)" where
  "fill_buf r =
     (if buffered r \<noteq> [] then (r, Ok (buffered r))
      else case reads r (calls r) of
        Inl e \<Rightarrow> (r\<lparr>calls := calls r + 1\<rparr>, Err e)
      | Inr bs \<Rightarrow> (r\<lparr>buffered := bs, calls := calls r + 1\<rparr>, Ok bs))"

definition consume :: "nat \<Rightarrow> BufReader \<Rightarrow> BufReader" where
  "consume n r = r\<lparr>buffered := drop n (buffered r)\<rparr>"

fun position :: "('a \<Rightarrow> bool) \<Rightarrow> 'a list \<Rightarrow> nat option" where
  "position P [] = None"
| "position P (x # xs) = (if P x then Some 0 else map_option Suc (position P xs))"

record 'w WritePort =
  port_write_all :: "'w \<Rightarrow> string \<Rightarrow> 'w \<times> (io_error + unit)"
  port_flush :: "'w \<Rightarrow> 'w \<times> (io_error + unit)"

definition vec_port :: "string WritePort" where
  "vec_port = \<lparr>port_write_all = (\<lambda>w bs. (w @ bs, Ok ())), port_flush = (\<lambda>w. (w, Ok ()))\<rparr>"

subsection \<open>Reading and writing one frame\<close>

partial_function (option) read_frame_loop ::
  "nat \<Rightarrow> string \<Rightarrow> BufReader \<Rightarrow> (BufReader \<times> (FrameError + string option)) option" where
  "read_frame_loop max_bytes frame r =
     (case fill_buf r of
        (r1, Inl e) \<Rightarrow> Some (r1, Err (FrameIo e))
      | (r1, Inr available) \<Rightarrow>
          if available = [] then
            Some (r1, if frame = [] then Ok None else Err TruncatedFrame)
          else
            let nl = position (\<lambda>b. b = newline) available;
                tak = (case nl of None \<Rightarrow> length available | Some index \<Rightarrow> index)
            in if max_bytes < sat_add_u64 (length frame) tak then
                 Some (r1, Err (FrameTooLarge max_bytes))
               else
                 let frame' = frame @ take tak available;
                     r2 = consume (tak + (if nl \<noteq> None then 1 else 0)) r1
                 in if nl \<noteq> None then Some (r2, Ok (Some frame'))
                    else read_frame_loop max_bytes frame' r2)"

definition read_frame ::
  "BufReader \<Rightarrow> nat \<Rightarrow> (BufReader \<times> (FrameError + string option)) option" where
  "read_frame r max_bytes = read_frame_loop max_bytes [] r"

definition decode_frame :: "(string \<Rightarrow> 'a option) \<Rightarrow> FrameError + string option \<Rightarrow> FrameError + 'a option" where
  "decode_frame from_slice res =
     and_then res (\<lambda>frame. case frame of
       None \<Rightarrow> Ok None
     | Some bs \<Rightarrow> map_err (\<lambda>_. FrameInvalidJson)
         (and_then (ok_or (from_slice bs) ()) (\<lambda>v. Ok (Some v))))"

definition read_json_line ::
  "(string \<Rightarrow> 'a option) \<Rightarrow> BufReader \<Rightarrow> nat \<Rightarrow> (BufReader \<times> (FrameError + 'a option)) option" where
  "read_json_line from_slice r max_bytes =
     map_option (\<lambda>(r', res). (r', decode_frame from_slice res)) (read_frame r max_bytes)"

definition write_json_line ::
  "('a \<Rightarrow> string option) \<Rightarrow> 'w WritePort \<Rightarrow> 'w \<Rightarrow> 'a \<Rightarrow> nat \<Rightarrow> 'w \<times> (FrameError + unit)" where
  "write_json_line to_vec port w v max_bytes =
     (case to_vec v of
        None \<Rightarrow> (w, Err FrameInvalidJson)
      | Some frame \<Rightarrow>
          if max_bytes < length frame then (w, Err (FrameTooLarge max_bytes))
          else
            st_then (st_map_err FrameIo (port_write_all port w frame)) (\<lambda>w _.
            st_then (st_map_err FrameIo (port_write_all port w [newline])) (\<lambda>w _.
            st_map_err FrameIo (port_flush port w))))"

subsection \<open>The admin-socket reader of the protected API daemon\<close>

text \<open>
  \<open>read_secret_json_line\<close> repeats the loop over a buffer that is zeroed when it is dropped, and
  reports an oversized and a truncated frame by one message.
\<close>

datatype ServerError =
    ServerIo io_error
  | ServerFrame FrameError
  | ServerInvalidConfiguration string
  | ServerPeerCredentials

definition secret_frame_bound :: ServerError where
  "secret_frame_bound = ServerInvalidConfiguration ''admin protocol frame exceeds bound or is truncated''"

partial_function (option) read_secret_loop ::
  "nat \<Rightarrow> string \<Rightarrow> BufReader \<Rightarrow> (BufReader \<times> (ServerError + string option)) option" where
  "read_secret_loop limit bytes r =
     (case fill_buf r of
        (r1, Inl e) \<Rightarrow> Some (r1, Err (ServerIo e))
      | (r1, Inr available) \<Rightarrow>
          if available = [] then
            Some (r1, if bytes = [] then Ok None else Err secret_frame_bound)
          else
            let nl = position (\<lambda>b. b = newline) available;
                tak = (case nl of None \<Rightarrow> length available | Some index \<Rightarrow> index)
            in if limit < sat_add_u64 (length bytes) tak then
                 Some (r1, Err secret_frame_bound)
               else
                 let bytes' = bytes @ take tak available;
                     r2 = consume (tak + (if nl \<noteq> None then 1 else 0)) r1
                 in if nl \<noteq> None then Some (r2, Ok (Some bytes'))
                    else read_secret_loop limit bytes' r2)"

definition read_secret_json_line ::
  "(string \<Rightarrow> 'a option) \<Rightarrow> BufReader \<Rightarrow> nat \<Rightarrow> (BufReader \<times> (ServerError + 'a option)) option" where
  "read_secret_json_line from_slice r limit =
     map_option (\<lambda>(r', res). (r', and_then res (\<lambda>frame. case frame of
         None \<Rightarrow> Ok None
       | Some bs \<Rightarrow> and_then (ok_or (from_slice bs)
           (ServerInvalidConfiguration ''admin protocol frame is invalid JSON'')) (\<lambda>v. Ok (Some v)))))
     (read_secret_loop limit [] r)"

subsection \<open>Newlines\<close>

lemma position_None: "position P xs = None \<longleftrightarrow> (\<forall>x\<in>set xs. \<not> P x)"
  by (induction xs) auto

lemma position_Some:
  "position P xs = Some i \<Longrightarrow> i < length xs \<and> P (xs ! i) \<and> take i xs = takeWhile (\<lambda>x. \<not> P x) xs"
  by (induction xs arbitrary: i) (auto split: if_splits)

definition line_of :: "string \<Rightarrow> string" where
  "line_of bs = takeWhile (\<lambda>b. b \<noteq> newline) bs"

definition after_line :: "string \<Rightarrow> string" where
  "after_line bs = drop (Suc (length (line_of bs))) bs"

lemma line_of_append [simp]:
  "newline \<notin> set xs \<Longrightarrow> line_of (xs @ ys) = xs @ line_of ys"
  "newline \<in> set xs \<Longrightarrow> line_of (xs @ ys) = line_of xs"
  by (auto simp: line_of_def takeWhile_append)

lemma after_line_append:
  "newline \<notin> set xs \<Longrightarrow> after_line (xs @ ys) = after_line ys"
  "newline \<in> set xs \<Longrightarrow> after_line (xs @ ys) = after_line xs @ ys"
proof -
  show "newline \<notin> set xs \<Longrightarrow> after_line (xs @ ys) = after_line ys"
    by (simp add: after_line_def)
  assume nl: "newline \<in> set xs"
  have "line_of xs \<noteq> xs"
    using nl set_takeWhileD [of newline "\<lambda>b. b \<noteq> newline" xs] by (auto simp: line_of_def)
  then have "length (line_of xs) < length xs"
    by (metis line_of_def length_takeWhile_le nat_less_le take_all takeWhile_eq_take)
  with nl show "after_line (xs @ ys) = after_line xs @ ys"
    by (simp add: after_line_def Suc_leI)
qed

lemma line_of_newline [simp]: "line_of (newline # zs) = []"
  by (simp add: line_of_def)

lemma line_of_message:
  assumes "newline \<notin> set ys"
  shows "line_of (ys @ newline # zs) = ys" and "after_line (ys @ newline # zs) = zs"
  using assms by (simp_all add: after_line_def)

lemma position_newline:
  "position (\<lambda>b. b = newline) xs = (if newline \<in> set xs then Some (length (line_of xs)) else None)"
proof (cases "position (\<lambda>b. b = newline) xs")
  case None
  then show ?thesis by (auto simp: position_None)
next
  case (Some i)
  from position_Some [OF this] have i: "i < length xs" "xs ! i = newline" "take i xs = line_of xs"
    by (simp_all add: line_of_def)
  then have "length (line_of xs) = i" by (metis length_take min.absorb4)
  with i Some show ?thesis by (metis nth_mem)
qed

lemma take_line [simp]: "take (length (line_of xs)) xs = line_of xs"
  by (simp add: line_of_def flip: takeWhile_eq_take)

subsection \<open>What one frame is, whatever the chunking\<close>

text \<open>
  The bytes a reader will deliver: what it holds, then the non-empty results of its next reads,
  then an end, which is either the end of the stream (an empty read) or an error such as a
  timeout.
\<close>

definition delivers :: "BufReader \<Rightarrow> string list \<Rightarrow> io_error + string \<Rightarrow> bool" where
  "delivers r cs fin \<longleftrightarrow>
     (\<forall>i<length cs. reads r (calls r + i) = Ok (cs ! i)) \<and> [] \<notin> set cs
   \<and> reads r (calls r + length cs) = fin \<and> (fin = Ok [] \<or> (\<exists>e. fin = Err e))"

definition frame_of ::
  "(io_error \<Rightarrow> 'e) \<Rightarrow> (nat \<Rightarrow> 'e) \<Rightarrow> 'e \<Rightarrow> nat \<Rightarrow> string \<Rightarrow> io_error + string \<Rightarrow> 'e + string option" where
  "frame_of io_err too_large truncated limit bs fin =
     (if limit < length (line_of bs) then Err (too_large limit)
      else if newline \<in> set bs then Ok (Some (line_of bs))
      else case fin of
        Inl e \<Rightarrow> Err (io_err e)
      | Inr _ \<Rightarrow> if bs = [] then Ok None else Err truncated)"

lemma delivers_Nil: "delivers r [] fin \<longleftrightarrow> reads r (calls r) = fin \<and> (fin = Ok [] \<or> (\<exists>e. fin = Err e))"
  by (simp add: delivers_def)

lemma delivers_Cons:
  "delivers r (c # cs) fin \<longleftrightarrow>
     reads r (calls r) = Ok c \<and> c \<noteq> [] \<and> delivers (r\<lparr>calls := calls r + 1\<rparr>) cs fin"
  by (auto simp: delivers_def All_less_Suc2)

lemma delivers_buffered [simp]: "delivers (r\<lparr>buffered := bs\<rparr>) cs fin = delivers r cs fin"
  by (simp add: delivers_def)

text \<open>The steps the two loops share.\<close>

locale line_reader =
  fixes loop :: "nat \<Rightarrow> string \<Rightarrow> BufReader \<Rightarrow> (BufReader \<times> ('e + string option)) option"
    and io_err :: "io_error \<Rightarrow> 'e" and too_large :: "nat \<Rightarrow> 'e" and truncated :: 'e
  assumes loop_step:
    "loop limit frame r =
     (case fill_buf r of
        (r1, Inl e) \<Rightarrow> Some (r1, Err (io_err e))
      | (r1, Inr available) \<Rightarrow>
          if available = [] then
            Some (r1, if frame = [] then Ok None else Err truncated)
          else
            let nl = position (\<lambda>b. b = newline) available;
                tak = (case nl of None \<Rightarrow> length available | Some index \<Rightarrow> index)
            in if limit < sat_add_u64 (length frame) tak then
                 Some (r1, Err (too_large limit))
               else
                 let frame' = frame @ take tak available;
                     r2 = consume (tak + (if nl \<noteq> None then 1 else 0)) r1
                 in if nl \<noteq> None then Some (r2, Ok (Some frame'))
                    else loop limit frame' r2)"
begin

lemma loop_buffered:
  assumes "buffered r = bs" and "bs \<noteq> []" and "limit < u64_max"
  shows "loop limit frame r =
    (if limit < length frame + length (line_of bs) then Some (r, Err (too_large limit))
     else if newline \<in> set bs then
       Some (r\<lparr>buffered := after_line bs\<rparr>, Ok (Some (frame @ line_of bs)))
     else loop limit (frame @ bs) (r\<lparr>buffered := []\<rparr>))"
proof -
  have whole: "newline \<notin> set bs \<Longrightarrow> line_of bs = bs"
    using line_of_append(1) [of bs "[]"] by (simp add: line_of_def)
  have sat: "limit < sat_add_u64 a b \<longleftrightarrow> limit < a + b" for a b
    using assms(3) by (auto simp: sat_add_u64_def)
  show ?thesis
    using assms(1,2) whole
    by (subst loop_step)
       (auto simp: fill_buf_def position_newline Let_def sat consume_def after_line_def)
qed

lemma loop_refill:
  assumes "buffered r = []"
  shows "loop limit frame r =
    (case reads r (calls r) of
       Inl e \<Rightarrow> Some (r\<lparr>calls := calls r + 1\<rparr>, Err (io_err e))
     | Inr bs \<Rightarrow>
         if bs = [] then
           Some (r\<lparr>calls := calls r + 1\<rparr>, if frame = [] then Ok None else Err truncated)
         else loop limit frame (r\<lparr>buffered := bs, calls := calls r + 1\<rparr>))"
proof (cases "reads r (calls r)")
  case (Inl e)
  then show ?thesis using assms by (subst loop_step) (simp add: fill_buf_def)
next
  case (Inr bs)
  have "r\<lparr>buffered := [], calls := calls r + 1\<rparr> = r\<lparr>calls := calls r + 1\<rparr>"
    using assms by (cases r) simp
  with Inr show ?thesis
    using assms
    by (simp add: fill_buf_def loop_step [of limit frame r]
        loop_step [of limit frame "r\<lparr>buffered := bs, calls := Suc (calls r)\<rparr>"])
qed

text \<open>The loop returns on every stream: a read that brings no newline brings at least one byte.\<close>

lemma loop_returns:
  assumes "limit < u64_max" and "length frame \<le> limit"
  shows "\<exists>r' res. loop limit frame r = Some (r', res)
    \<and> calls r' \<le> calls r + (limit - length frame) + 1
    \<and> (\<forall>line. res = Ok (Some line) \<longrightarrow> length line \<le> limit)"
  using assms(2)
proof (induction "limit - length frame" arbitrary: frame r rule: less_induct)
  case less
  have buffered: "\<exists>r' res. loop limit frame s = Some (r', res)
      \<and> calls r' \<le> calls s + (limit - length frame)
      \<and> (\<forall>line. res = Ok (Some line) \<longrightarrow> length line \<le> limit)"
    if "buffered s \<noteq> []" for s
  proof -
    let ?bs = "buffered s"
    note step = loop_buffered [OF refl that assms(1), of frame]
    show ?thesis
    proof (cases "limit < length frame + length (line_of ?bs) \<or> newline \<in> set ?bs")
      case True
      then show ?thesis using step less.prems by auto
    next
      case False
      then have "line_of ?bs = ?bs" using line_of_append(1) [of ?bs "[]"] by (simp add: line_of_def)
      with False that have "limit - length (frame @ ?bs) < limit - length frame"
        and "length (frame @ ?bs) \<le> limit" by (cases ?bs; simp)+
      from less.hyps [OF this, of "s\<lparr>buffered := []\<rparr>"] obtain r' res where
        tail: "loop limit (frame @ ?bs) (s\<lparr>buffered := []\<rparr>) = Some (r', res)"
        and calls: "calls r' \<le> calls s + (limit - length (frame @ ?bs)) + 1"
        and bound: "\<forall>line. res = Ok (Some line) \<longrightarrow> length line \<le> limit" by auto
      have "calls r' \<le> calls s + (limit - length frame)"
        using calls \<open>limit - length (frame @ ?bs) < limit - length frame\<close> by linarith
      then show ?thesis using step False tail bound by auto
    qed
  qed
  show ?case
  proof (cases "buffered r = []")
    case True
    show ?thesis
      using loop_refill [OF True, of limit frame] less.prems
        buffered [of "r\<lparr>buffered := projr (reads r (calls r)), calls := calls r + 1\<rparr>"]
      by (cases "reads r (calls r)") (auto split: if_splits)
  next
    case False
    from buffered [OF this] show ?thesis by (auto intro: le_SucI)
  qed
qed

text \<open>The result depends on the bytes alone, and the reader keeps what follows the newline.\<close>

lemma loop_advance:
  assumes "newline \<notin> set (buffered r)" and "length frame + length (buffered r) \<le> limit" and "limit < u64_max"
  shows "loop limit frame r = loop limit (frame @ buffered r) (r\<lparr>buffered := []\<rparr>)"
proof (cases "buffered r = []")
  case True
  then show ?thesis by (cases r) simp
next
  case False
  have "line_of (buffered r) = buffered r"
    using assms(1) line_of_append(1) [of "buffered r" "[]"] by (simp add: line_of_def)
  with False assms show ?thesis by (subst loop_buffered) auto
qed

lemma loop_decided:
  assumes "newline \<in> set (buffered r) \<or> limit < length frame + length (buffered r)"
    and "newline \<notin> set frame" and "length frame \<le> limit" and "limit < u64_max" and "delivers r cs fin"
  shows "\<exists>r'. loop limit frame r
      = Some (r', frame_of io_err too_large truncated limit (frame @ buffered r @ concat cs) fin)
    \<and> (length (line_of (frame @ buffered r @ concat cs)) \<le> limit \<longrightarrow>
        delivers r' cs fin \<and> buffered r' @ concat cs = after_line (buffered r @ concat cs))"
proof -
  have ne: "buffered r \<noteq> []" using assms(1,3) by auto
  show ?thesis
  proof (cases "newline \<in> set (buffered r)")
    case True
    then show ?thesis
      using loop_buffered [OF refl ne assms(4), of frame] assms(2,5)
      by (auto simp: frame_of_def after_line_append)
  next
    case False
    then have line: "line_of (buffered r) = buffered r"
      using line_of_append(1) [of "buffered r" "[]"] by (simp add: line_of_def)
    with False show ?thesis
      using loop_buffered [OF refl ne assms(4), of frame] assms(1,2)
      by (auto simp: frame_of_def)
  qed
qed

lemma loop_delivers:
  assumes "limit < u64_max" and "delivers r cs fin" and "newline \<notin> set frame" and "length frame \<le> limit"
  shows "\<exists>r'. loop limit frame r
      = Some (r', frame_of io_err too_large truncated limit (frame @ buffered r @ concat cs) fin)
    \<and> (newline \<in> set (buffered r @ concat cs) \<and> length (line_of (frame @ buffered r @ concat cs)) \<le> limit
       \<longrightarrow> (\<exists>cs'. delivers r' cs' fin
             \<and> buffered r' @ concat cs' = after_line (buffered r @ concat cs)))"
  using assms(2-)
proof (induction cs arbitrary: frame r)
  case Nil
  show ?case
  proof (cases "newline \<in> set (buffered r) \<or> limit < length frame + length (buffered r)")
    case True
    with loop_decided [OF this Nil.prems(2,3) assms(1) Nil.prems(1)] show ?thesis by blast
  next
    case False
    then have step: "loop limit frame r = loop limit (frame @ buffered r) (r\<lparr>buffered := []\<rparr>)"
      using assms(1) by (intro loop_advance) auto
    have line: "line_of (frame @ buffered r) = frame @ buffered r"
      using False Nil.prems(2) line_of_append(1) [of "frame @ buffered r" "[]"] by (simp add: line_of_def)
    show ?thesis
      using False Nil.prems line
      by (auto simp: step loop_refill delivers_Nil frame_of_def)
  qed
next
  case (Cons c cs)
  show ?case
  proof (cases "newline \<in> set (buffered r) \<or> limit < length frame + length (buffered r)")
    case True
    with loop_decided [OF this Cons.prems(2,3) assms(1) Cons.prems(1)] show ?thesis by blast
  next
    case False
    let ?s = "r\<lparr>buffered := c, calls := calls r + 1\<rparr>"
    have step: "loop limit frame r = loop limit (frame @ buffered r) ?s"
      using False assms(1) Cons.prems(1) loop_advance [of r frame limit]
      by (auto simp: loop_refill delivers_Cons)
    have "delivers ?s cs fin" using Cons.prems(1) unfolding delivers_Cons by (simp add: delivers_def)
    then have "\<exists>r'. loop limit (frame @ buffered r) ?s
      = Some (r', frame_of io_err too_large truncated limit ((frame @ buffered r) @ buffered ?s @ concat cs) fin)
    \<and> (newline \<in> set (buffered ?s @ concat cs) \<and> length (line_of ((frame @ buffered r) @ buffered ?s @ concat cs)) \<le> limit
       \<longrightarrow> (\<exists>cs'. delivers r' cs' fin
             \<and> buffered r' @ concat cs' = after_line (buffered ?s @ concat cs)))"
      by (rule Cons.IH) (use False Cons.prems in auto)
    with False step show ?thesis by (auto simp: after_line_append)
  qed
qed

end

interpretation frame_loop: line_reader read_frame_loop FrameIo FrameTooLarge TruncatedFrame
  by unfold_locales (rule read_frame_loop.simps)

interpretation secret_loop: line_reader read_secret_loop ServerIo "\<lambda>_. secret_frame_bound" secret_frame_bound
  by unfold_locales (rule read_secret_loop.simps)

subsection \<open>Properties of the framing\<close>

text \<open>C29. Equivalence with a reference that does not know about buffers: however the bytes of a
  connection are cut into reads, \<open>read_frame\<close> returns the bytes before the first newline, an
  error if those exceed the bound, nothing at a clean end of stream, and an error if the stream
  ends or fails inside a frame; and what the reader keeps for the next call is exactly what
  follows the newline.\<close>

theorem read_frame_chunking:
  assumes "delivers r cs fin" and "max_bytes < u64_max"
  shows "\<exists>r'. read_frame r max_bytes
      = Some (r', frame_of FrameIo FrameTooLarge TruncatedFrame max_bytes (buffered r @ concat cs) fin)
    \<and> (newline \<in> set (buffered r @ concat cs) \<and> length (line_of (buffered r @ concat cs)) \<le> max_bytes
       \<longrightarrow> (\<exists>cs'. delivers r' cs' fin
             \<and> buffered r' @ concat cs' = after_line (buffered r @ concat cs)))"
  using frame_loop.loop_delivers [OF assms(2,1), of "[]"] by (simp add: read_frame_def)

text \<open>C30. Termination: whatever the peer sends, also a stream with no newline and no end, the reader
  of a frame returns after at most one read more than the bound has bytes, and never returns
  a frame longer than the bound; the admin-socket reader does so too.\<close>

theorem read_frame_terminates:
  assumes "max_bytes < u64_max"
  shows "(\<exists>r' res. read_frame r max_bytes = Some (r', res) \<and> calls r' \<le> calls r + max_bytes + 1
      \<and> (\<forall>line. res = Ok (Some line) \<longrightarrow> length line \<le> max_bytes))
    \<and> (\<exists>r' res. read_secret_loop max_bytes [] r = Some (r', res) \<and> calls r' \<le> calls r + max_bytes + 1
      \<and> (\<forall>line. res = Ok (Some line) \<longrightarrow> length line \<le> max_bytes))"
  using frame_loop.loop_returns [OF assms, of "[]" r] secret_loop.loop_returns [OF assms, of "[]" r]
  by (simp add: read_frame_def)

text \<open>What a writer puts on the wire for a list of values.\<close>

fun write_all_lines ::
  "('a \<Rightarrow> string option) \<Rightarrow> 'w WritePort \<Rightarrow> nat \<Rightarrow> 'w \<Rightarrow> 'a list \<Rightarrow> 'w \<times> (FrameError + unit)" where
  "write_all_lines to_vec port limit w [] = (w, Ok ())"
| "write_all_lines to_vec port limit w (v # vs) =
     st_then (write_json_line to_vec port w v limit) (\<lambda>w _. write_all_lines to_vec port limit w vs)"

fun read_lines ::
  "(string \<Rightarrow> 'a option) \<Rightarrow> nat \<Rightarrow> nat \<Rightarrow> BufReader \<Rightarrow> (FrameError + 'a option) list option" where
  "read_lines from_slice limit 0 r = Some []"
| "read_lines from_slice limit (Suc n) r =
     Option.bind (read_json_line from_slice r limit) (\<lambda>(r', res).
       map_option (Cons res) (read_lines from_slice limit n r'))"

lemma write_json_line_vec:
  "write_json_line to_vec vec_port w v limit = (w', Ok ()) \<longleftrightarrow>
     (\<exists>bs. to_vec v = Some bs \<and> length bs \<le> limit \<and> w' = w @ bs @ [newline])"
  by (auto simp: write_json_line_def vec_port_def split: option.splits)

lemma read_json_line_message:
  assumes "delivers r cs fin" and "limit < u64_max" and "buffered r @ concat cs = bs @ newline # rest"
    and "newline \<notin> set bs" and "length bs \<le> limit" and "from_slice bs = Some v"
  shows "\<exists>r' cs'. read_json_line from_slice r limit = Some (r', Ok (Some v))
    \<and> delivers r' cs' fin \<and> buffered r' @ concat cs' = rest"
  using frame_loop.loop_delivers [OF assms(2,1), of "[]"] assms(3-)
  by (auto simp: read_json_line_def read_frame_def decode_frame_def frame_of_def line_of_message)

lemma read_json_line_end:
  assumes "delivers r cs (Ok [])" and "limit < u64_max" and "buffered r @ concat cs = []"
  shows "\<exists>r'. read_json_line from_slice r limit = Some (r', Ok None)"
  using frame_loop.loop_delivers [OF assms(2,1), of "[]"] assms(3)
  by (auto simp: read_json_line_def read_frame_def decode_frame_def frame_of_def line_of_def)

definition wire_of :: "('a \<Rightarrow> string option) \<Rightarrow> 'a list \<Rightarrow> string" where
  "wire_of to_vec vs = concat (map (\<lambda>v. the (to_vec v) @ [newline]) vs)"

lemma write_all_lines_vec:
  "write_all_lines to_vec vec_port limit w vs = (w', Ok ()) \<Longrightarrow>
     w' = w @ wire_of to_vec vs \<and> (\<forall>v\<in>set vs. \<exists>bs. to_vec v = Some bs \<and> length bs \<le> limit)"
proof (induction vs arbitrary: w)
  case (Cons v vs)
  then obtain bs where bs: "to_vec v = Some bs" "length bs \<le> limit"
    and rest: "write_all_lines to_vec vec_port limit (w @ bs @ [newline]) vs = (w', Ok ())"
    by (auto simp: result_simps write_json_line_vec)
  from Cons.IH [OF rest] bs show ?case by (simp add: wire_of_def)
qed (simp add: wire_of_def)

lemma read_lines_wire:
  assumes "limit < u64_max"
    and "\<And>v bs. to_vec v = Some bs \<Longrightarrow> newline \<notin> set bs \<and> from_slice bs = Some v"
  shows "\<forall>v\<in>set vs. \<exists>bs. to_vec v = Some bs \<and> length bs \<le> limit \<Longrightarrow>
    delivers r cs (Ok []) \<Longrightarrow> buffered r @ concat cs = wire_of to_vec vs \<Longrightarrow>
    read_lines from_slice limit (Suc (length vs)) r = Some (map (\<lambda>v. Ok (Some v)) vs @ [Ok None])"
proof (induction vs arbitrary: r cs)
  case Nil
  then show ?case
    using read_json_line_end [OF Nil.prems(2) assms(1), of from_slice] by (auto simp: wire_of_def)
next
  case (Cons v vs)
  from Cons.prems(1) obtain bs where bs: "to_vec v = Some bs" "length bs \<le> limit" by auto
  from bs Cons.prems(3) have wire: "buffered r @ concat cs = bs @ newline # wire_of to_vec vs"
    by (simp add: wire_of_def)
  note codec = assms(2) [OF bs(1)]
  from read_json_line_message [where from_slice = from_slice,
     OF Cons.prems(2) assms(1) wire conjunct1 [OF codec] bs(2) conjunct2 [OF codec]]
  obtain r' cs' where "read_json_line from_slice r limit = Some (r', Ok (Some v))"
    and "delivers r' cs' (Ok [])" "buffered r' @ concat cs' = wire_of to_vec vs" by (elim exE conjE)
  with Cons.IH [of r' cs'] Cons.prems(1) show ?case by simp
qed

text \<open>C31. Round trip: if the writer accepts a list of values, then a reader that receives the bytes
  written, in any chunks, returns exactly those values in order and then a clean end of stream.
  The encoder writes one line and the decoder inverts it, as \<open>serde_json\<close> documents for its compact
  output.\<close>

theorem frames_roundtrip:
  assumes "write_all_lines to_vec vec_port limit [] vs = (wire, Ok ())"
    and "delivers r cs (Ok [])" and "buffered r @ concat cs = wire" and "limit < u64_max"
    and codec: "\<And>v bs. to_vec v = Some bs \<Longrightarrow> newline \<notin> set bs \<and> from_slice bs = Some v"
  shows "read_lines from_slice limit (Suc (length vs)) r = Some (map (\<lambda>v. Ok (Some v)) vs @ [Ok None])"
proof (rule read_lines_wire [OF assms(4) codec _ assms(2)])
  show "\<forall>v\<in>set vs. \<exists>bs. to_vec v = Some bs \<and> length bs \<le> limit"
    and "buffered r @ concat cs = wire_of to_vec vs"
    using write_all_lines_vec [OF assms(1)] assms(3) by (blast, force)
qed

subsection \<open>The properties at work\<close>

text \<open>
  A peer that sends \<open>ab\<close>, then \<open>c\<close> and a newline and \<open>d\<close>, then closes; and one that sends
  the letter \<open>x\<close> for ever.
\<close>

definition three_reads :: "nat \<Rightarrow> io_error + string" where
  "three_reads n = (if n = 0 then Ok ''ab'' else if n = 1 then Ok [CHR ''c'', newline, CHR ''d''] else Ok [])"

definition sample_reader :: BufReader where
  "sample_reader = \<lparr>buffered = [], reads = three_reads, calls = 0\<rparr>"

definition endless_reader :: BufReader where
  "endless_reader = \<lparr>buffered = [], reads = (\<lambda>_. Ok ''x''), calls = 0\<rparr>"

lemma sample_delivers: "delivers sample_reader [''ab'', [CHR ''c'', newline, CHR ''d'']] (Ok [])"
  by (simp add: delivers_def sample_reader_def three_reads_def less_Suc_eq newline_def)

lemma small_bounds: "8 < u64_max" "3 < u64_max"
  by (simp_all add: u64_max_def)

theorem read_frame_chunking_witness:
  "\<exists>r'. read_frame sample_reader 8 = Some (r', Ok (Some ''abc''))"
  using read_frame_chunking [OF sample_delivers small_bounds(1)]
  by (auto simp: frame_of_def line_of_def sample_reader_def newline_def)

theorem read_frame_terminates_witness:
  "\<exists>r' res. read_frame endless_reader 3 = Some (r', res) \<and> calls r' \<le> 4"
  using read_frame_terminates [OF small_bounds(2), of endless_reader] by (auto simp: endless_reader_def)

definition letters_to_vec :: "string \<Rightarrow> string option" where
  "letters_to_vec s = (if newline \<in> set s then None else Some s)"

definition two_lines :: BufReader where
  "two_lines = \<lparr>buffered = ''a'', reads = (\<lambda>n. if n = 0 then Ok [newline, CHR ''b'', newline] else Ok []), calls = 0\<rparr>"

theorem frames_roundtrip_witness:
  "read_lines Some 3 3 two_lines = Some [Ok (Some ''a''), Ok (Some ''b''), Ok None]"
proof -
  have "delivers two_lines [[newline, CHR ''b'', newline]] (Ok [])"
    by (simp add: delivers_def two_lines_def)
  moreover have "write_all_lines letters_to_vec vec_port 3 [] [''a'', ''b''] = ([CHR ''a'', newline, CHR ''b'', newline], Ok ())"
    by (simp add: write_json_line_def letters_to_vec_def vec_port_def newline_def)
  ultimately have "read_lines Some 3 (Suc (length [''a'', ''b''])) two_lines
      = Some (map (\<lambda>v. Ok (Some v)) [''a'', ''b''] @ [Ok None])"
    by (intro frames_roundtrip [where to_vec = letters_to_vec])
       (auto simp: two_lines_def small_bounds letters_to_vec_def split: if_splits)
  then show ?thesis by (simp add: numeral_3_eq_3)
qed

end
