(* ===== verification/Protected_Api.thy ===== *)
theory Protected_Api
  imports Protocol
begin

section \<open>The protected API contract\<close>

text \<open>
  \<^verbatim>\<open>portus-protected-api/src/{lib,secret,protocol}.rs\<close>: identifiers, secret material, and the request
  and response envelopes of the credential broker. \<open>UseRequest::new\<close> and \<open>AdminRequest::new\<close> take
  the fresh request id as an argument. A \<open>SecretMaterial\<close> is the string it wraps; its \<open>Debug\<close>
  text is not part of any value here, and the zeroing of its buffer has no counterpart.
\<close>

subsection \<open>Errors and identifiers\<close>

datatype ProviderErrorCode =
    PecInvalidRequest
  | PecPermissionDenied
  | PecApprovalRequired
  | PecCredentialNotFound
  | PecCredentialRevoked
  | PecProviderDefinitionInvalid
  | PecOperationNotAllowed
  | PecRequestTooLarge
  | PecResponseTooLarge
  | PecTimeout
  | PecTlsError
  | PecRedirectRejected
  | PecUpstreamError
  | PecStoreUnavailable
  | PecInternal

fun provider_error_code_as_str :: "ProviderErrorCode \<Rightarrow> string" where
  "provider_error_code_as_str PecInvalidRequest = ''invalid_request''"
| "provider_error_code_as_str PecPermissionDenied = ''permission_denied''"
| "provider_error_code_as_str PecApprovalRequired = ''approval_required''"
| "provider_error_code_as_str PecCredentialNotFound = ''credential_not_found''"
| "provider_error_code_as_str PecCredentialRevoked = ''credential_revoked''"
| "provider_error_code_as_str PecProviderDefinitionInvalid = ''provider_definition_invalid''"
| "provider_error_code_as_str PecOperationNotAllowed = ''operation_not_allowed''"
| "provider_error_code_as_str PecRequestTooLarge = ''request_too_large''"
| "provider_error_code_as_str PecResponseTooLarge = ''response_too_large''"
| "provider_error_code_as_str PecTimeout = ''timeout''"
| "provider_error_code_as_str PecTlsError = ''tls_error''"
| "provider_error_code_as_str PecRedirectRejected = ''redirect_rejected''"
| "provider_error_code_as_str PecUpstreamError = ''upstream_error''"
| "provider_error_code_as_str PecStoreUnavailable = ''store_unavailable''"
| "provider_error_code_as_str PecInternal = ''internal''"

datatype CredentialState = CredActive | CredRevoked

fun credential_state_as_str :: "CredentialState \<Rightarrow> string" where
  "credential_state_as_str CredActive = ''active''"
| "credential_state_as_str CredRevoked = ''revoked''"

record ProviderError =
  pe_code :: ProviderErrorCode
  pe_message :: string
  pe_upstream_status :: "u16 option"

definition provider_error :: "ProviderErrorCode \<Rightarrow> string \<Rightarrow> ProviderError" where
  "provider_error c m = \<lparr>pe_code = c, pe_message = m, pe_upstream_status = None\<rparr>"

definition with_upstream_status :: "ProviderError \<Rightarrow> u16 \<Rightarrow> ProviderError" where
  "with_upstream_status e s = e\<lparr>pe_upstream_status := Some s\<rparr>"

definition PROTOCOL_VERSION :: u32 where "PROTOCOL_VERSION = 1"
definition MAX_REQUEST_BYTES :: nat where "MAX_REQUEST_BYTES = 8 * 1024 * 1024"
definition MAX_RESPONSE_BYTES :: nat where "MAX_RESPONSE_BYTES = 32 * 1024 * 1024"
definition MAX_TIMEOUT_MS :: nat where "MAX_TIMEOUT_MS = 120000"
definition MAX_PROTOCOL_FRAME_BYTES :: nat where
  "MAX_PROTOCOL_FRAME_BYTES = MAX_REQUEST_BYTES + 64 * 1024"
definition MAX_PROVIDER_DEFINITIONS :: nat where "MAX_PROVIDER_DEFINITIONS = 32"
definition MAX_OPERATIONS_PER_PROVIDER :: nat where "MAX_OPERATIONS_PER_PROVIDER = 64"
definition MAX_CREDENTIAL_REF_BYTES :: nat where "MAX_CREDENTIAL_REF_BYTES = 128"
definition MAX_PROVIDER_ID_BYTES :: nat where "MAX_PROVIDER_ID_BYTES = 64"
definition MAX_OPERATION_ID_BYTES :: nat where "MAX_OPERATION_ID_BYTES = 128"
definition MAX_SAFE_LABEL_BYTES :: nat where "MAX_SAFE_LABEL_BYTES = 192"
definition POLICY_ACTION :: string where "POLICY_ACTION = ''protected-api.request''"

definition invalid_api :: "string \<Rightarrow> ProviderError + 'a" where
  "invalid_api m = Err (provider_error PecInvalidRequest m)"

fun split_on :: "char \<Rightarrow> string \<Rightarrow> string list" where
  "split_on c [] = [[]]"
| "split_on c (x # xs) =
     (if x = c then [] # split_on c xs
      else case split_on c xs of [] \<Rightarrow> [[x]] | s # ss \<Rightarrow> (x # s) # ss)"

definition valid_id_segment :: "string \<Rightarrow> bool" where
  "valid_id_segment v \<longleftrightarrow>
     v \<noteq> [] \<and> list_all (\<lambda>b. is_ascii_lowercase b \<or> is_ascii_digit b \<or> b = CHR ''-'' \<or> b = CHR ''_'') v"

definition validate_credential_ref :: "string \<Rightarrow> ProviderError + unit" where
  "validate_credential_ref v =
     (case split_on (CHR ''/'') v of
        [first, second] \<Rightarrow>
          if MAX_CREDENTIAL_REF_BYTES < length v \<or> \<not> valid_id_segment first \<or> \<not> valid_id_segment second
          then invalid_api ''credential reference is invalid'' else Ok ()
      | _ \<Rightarrow> invalid_api ''credential reference is invalid'')"

definition validate_provider_id :: "string \<Rightarrow> ProviderError + unit" where
  "validate_provider_id v =
     (if v = [] \<or> MAX_PROVIDER_ID_BYTES < length v \<or> \<not> valid_id_segment v
      then invalid_api ''provider id is invalid'' else Ok ())"

definition validate_operation_id :: "string \<Rightarrow> ProviderError + unit" where
  "validate_operation_id v =
     (if v = [] \<or> MAX_OPERATION_ID_BYTES < length v
       \<or> \<not> list_all (\<lambda>b. is_ascii_lowercase b \<or> is_ascii_digit b \<or> b \<in> set ''.-_'') v
      then invalid_api ''operation id is invalid'' else Ok ())"

definition policy_resource :: "string \<Rightarrow> string \<Rightarrow> ProviderError + string" where
  "policy_resource cref operation =
     and_then (validate_credential_ref cref) (\<lambda>_.
     and_then (validate_operation_id operation) (\<lambda>_.
     let resource = cref @ ''|'' @ operation in
     if 256 < length resource then invalid_api ''protected API policy resource is too long''
     else Ok resource))"

subsection \<open>Secret material\<close>

type_synonym SecretMaterial = string

definition SECRET_MAX_BYTES :: nat where "SECRET_MAX_BYTES = 64 * 1024"

definition secret_new :: "string \<Rightarrow> string + SecretMaterial" where
  "secret_new v =
     (if v = [] \<or> SECRET_MAX_BYTES < length v \<or> contains_char v line_breaks
      then Err ''secret material is empty, oversized, or contains a line separator'' else Ok v)"

subsection \<open>Metadata, actions and requests\<close>

record CredentialMetadata =
  cm_credential_ref :: string
  cm_provider_id :: string
  cm_safe_label :: "string option"
  cm_generation :: nat
  cm_state :: CredentialState
  cm_created_at :: string
  cm_rotated_at :: "string option"
  cm_revoked_at :: "string option"
  cm_updated_at :: string

datatype UseAction =
    UseCredentialList
  | UseCredentialShow string
  | UseApiRequest string string json
  | UseHealth

record UseRequest =
  ur_protocol_version :: u32
  ur_request_id :: RequestId
  ur_action :: string
  ur_credential_ref :: "string option"
  ur_operation :: "string option"
  ur_payload :: "json option"

definition use_request_empty :: "RequestId \<Rightarrow> UseRequest" where
  "use_request_empty i =
     \<lparr>ur_protocol_version = PROTOCOL_VERSION, ur_request_id = i, ur_action = '''',
      ur_credential_ref = None, ur_operation = None, ur_payload = None\<rparr>"

fun use_request_new :: "RequestId \<Rightarrow> UseAction \<Rightarrow> UseRequest" where
  "use_request_new i UseCredentialList = (use_request_empty i)\<lparr>ur_action := ''credential.list''\<rparr>"
| "use_request_new i (UseCredentialShow cref) =
     (use_request_empty i)\<lparr>ur_action := ''credential.show'', ur_credential_ref := Some cref\<rparr>"
| "use_request_new i (UseApiRequest cref operation payload) =
     (use_request_empty i)\<lparr>ur_action := ''request'', ur_credential_ref := Some cref,
       ur_operation := Some operation, ur_payload := Some payload\<rparr>"
| "use_request_new i UseHealth = (use_request_empty i)\<lparr>ur_action := ''health''\<rparr>"

definition use_validate :: "UseRequest \<Rightarrow> ProviderError + unit" where
  "use_validate r =
     (if ur_protocol_version r \<noteq> PROTOCOL_VERSION then
        invalid_api ''incompatible protected API protocol version''
      else if (ur_action r = ''credential.list'' \<or> ur_action r = ''health'')
        \<and> ur_credential_ref r = None \<and> ur_operation r = None \<and> ur_payload r = None then Ok ()
      else if ur_action r = ''credential.show'' \<and> ur_operation r = None \<and> ur_payload r = None then
        and_then (ok_or (ur_credential_ref r)
          (provider_error PecInvalidRequest ''credential.show requires credential_ref''))
          validate_credential_ref
      else if ur_action r = ''request'' then
        and_then (and_then (ok_or (ur_credential_ref r)
          (provider_error PecInvalidRequest ''request requires credential_ref''))
          validate_credential_ref) (\<lambda>_.
        and_then (and_then (ok_or (ur_operation r)
          (provider_error PecInvalidRequest ''request requires operation''))
          validate_operation_id) (\<lambda>_.
        if ur_payload r = None then invalid_api ''request requires payload'' else Ok ()))
      else invalid_api ''protected API use action or field combination is invalid'')"

definition use_into_action :: "UseRequest \<Rightarrow> ProviderError + UseAction" where
  "use_into_action r =
     and_then (use_validate r) (\<lambda>_.
     Ok (if ur_action r = ''credential.list'' then UseCredentialList
         else if ur_action r = ''credential.show'' then UseCredentialShow (the (ur_credential_ref r))
         else if ur_action r = ''request'' then
           UseApiRequest (the (ur_credential_ref r)) (the (ur_operation r)) (the (ur_payload r))
         else UseHealth))"

datatype AdminAction =
    AdminProvision string string "string option" SecretMaterial
  | AdminRotate string SecretMaterial
  | AdminRevoke string
  | AdminDelete string
  | AdminShow string
  | AdminList

record AdminRequest =
  aq_protocol_version :: u32
  aq_request_id :: RequestId
  aq_action :: string
  aq_credential_ref :: "string option"
  aq_provider_id :: "string option"
  aq_safe_label :: "string option"
  aq_secret :: "SecretMaterial option"

definition admin_request_empty :: "RequestId \<Rightarrow> AdminRequest" where
  "admin_request_empty i =
     \<lparr>aq_protocol_version = PROTOCOL_VERSION, aq_request_id = i, aq_action = '''',
      aq_credential_ref = None, aq_provider_id = None, aq_safe_label = None, aq_secret = None\<rparr>"

fun admin_request_new :: "RequestId \<Rightarrow> AdminAction \<Rightarrow> AdminRequest" where
  "admin_request_new i (AdminProvision cref prov label secret) =
     (admin_request_empty i)\<lparr>aq_action := ''credential.provision'', aq_credential_ref := Some cref,
       aq_provider_id := Some prov, aq_safe_label := label, aq_secret := Some secret\<rparr>"
| "admin_request_new i (AdminRotate cref secret) =
     (admin_request_empty i)\<lparr>aq_action := ''credential.rotate'', aq_credential_ref := Some cref,
       aq_secret := Some secret\<rparr>"
| "admin_request_new i (AdminRevoke cref) =
     (admin_request_empty i)\<lparr>aq_action := ''credential.revoke'', aq_credential_ref := Some cref\<rparr>"
| "admin_request_new i (AdminDelete cref) =
     (admin_request_empty i)\<lparr>aq_action := ''credential.delete'', aq_credential_ref := Some cref\<rparr>"
| "admin_request_new i (AdminShow cref) =
     (admin_request_empty i)\<lparr>aq_action := ''credential.show'', aq_credential_ref := Some cref\<rparr>"
| "admin_request_new i AdminList = (admin_request_empty i)\<lparr>aq_action := ''credential.list''\<rparr>"

definition validate_safe_label :: "string option \<Rightarrow> ProviderError + unit" where
  "validate_safe_label v =
     (case v of
        None \<Rightarrow> Ok ()
      | Some label \<Rightarrow>
          if trim_is_empty label \<or> MAX_SAFE_LABEL_BYTES < length label \<or> contains_char label line_breaks
          then invalid_api ''safe credential label is invalid'' else Ok ())"

definition admin_validate :: "AdminRequest \<Rightarrow> ProviderError + unit" where
  "admin_validate r =
     (let require_ref = (\<lambda>m. and_then (ok_or (aq_credential_ref r) (provider_error PecInvalidRequest m))
            validate_credential_ref)
      in
      if aq_protocol_version r \<noteq> PROTOCOL_VERSION then
        invalid_api ''incompatible protected API protocol version''
      else if aq_action r = ''credential.provision'' then
        and_then (require_ref ''provision requires credential_ref'') (\<lambda>_.
        and_then (and_then (ok_or (aq_provider_id r)
          (provider_error PecInvalidRequest ''provision requires provider_id''))
          validate_provider_id) (\<lambda>_.
        and_then (validate_safe_label (aq_safe_label r)) (\<lambda>_.
        if aq_secret r = None then invalid_api ''provision requires secret input'' else Ok ())))
      else if aq_action r = ''credential.rotate'' then
        and_then (require_ref ''rotate requires credential_ref'') (\<lambda>_.
        if aq_provider_id r \<noteq> None \<or> aq_safe_label r \<noteq> None \<or> aq_secret r = None
        then invalid_api ''rotate field combination is invalid'' else Ok ())
      else if aq_action r = ''credential.revoke'' \<or> aq_action r = ''credential.delete''
        \<or> aq_action r = ''credential.show'' then
        and_then (require_ref ''credential action requires credential_ref'') (\<lambda>_.
        if aq_provider_id r \<noteq> None \<or> aq_safe_label r \<noteq> None \<or> aq_secret r \<noteq> None
        then invalid_api ''credential action contains forbidden fields'' else Ok ())
      else if aq_action r = ''credential.list'' \<and> aq_credential_ref r = None \<and> aq_provider_id r = None
        \<and> aq_safe_label r = None \<and> aq_secret r = None then Ok ()
      else invalid_api ''protected API admin action or field combination is invalid'')"

definition admin_into_action :: "AdminRequest \<Rightarrow> ProviderError + AdminAction" where
  "admin_into_action r =
     and_then (admin_validate r) (\<lambda>_.
     let cref = the (aq_credential_ref r) in
     Ok (if aq_action r = ''credential.provision'' then
           AdminProvision cref (the (aq_provider_id r)) (aq_safe_label r) (the (aq_secret r))
         else if aq_action r = ''credential.rotate'' then AdminRotate cref (the (aq_secret r))
         else if aq_action r = ''credential.revoke'' then AdminRevoke cref
         else if aq_action r = ''credential.delete'' then AdminDelete cref
         else if aq_action r = ''credential.show'' then AdminShow cref
         else AdminList))"

subsection \<open>Responses\<close>

datatype ProviderSuccess =
    SuccessCredentialList "CredentialMetadata list"
  | SuccessCredentialShow CredentialMetadata
  | SuccessRequest string string u16 json
  | SuccessHealth string string nat nat u64
  | SuccessCredentialMutation CredentialMetadata
  | SuccessCredentialDeleted string

record ProviderResponse =
  pn_protocol_version :: u32
  pn_request_id :: RequestId
  pn_ok :: bool
  pn_provider_id :: "string option"
  pn_operation :: "string option"
  pn_upstream_status :: "u16 option"
  pn_body :: "json option"
  pn_credentials :: "CredentialMetadata list option"
  pn_credential :: "CredentialMetadata option"
  pn_health :: "string option"
  pn_reason_code :: "string option"
  pn_credential_count :: "nat option"
  pn_provider_count :: "nat option"
  pn_audit_write_failures :: "u64 option"
  pn_deleted_credential_ref :: "string option"
  pn_error :: "ProviderError option"

definition provider_response_empty :: "RequestId \<Rightarrow> bool \<Rightarrow> ProviderResponse" where
  "provider_response_empty i okay =
     \<lparr>pn_protocol_version = PROTOCOL_VERSION, pn_request_id = i, pn_ok = okay, pn_provider_id = None,
      pn_operation = None, pn_upstream_status = None, pn_body = None, pn_credentials = None,
      pn_credential = None, pn_health = None, pn_reason_code = None, pn_credential_count = None,
      pn_provider_count = None, pn_audit_write_failures = None, pn_deleted_credential_ref = None,
      pn_error = None\<rparr>"

fun provider_success :: "RequestId \<Rightarrow> ProviderSuccess \<Rightarrow> ProviderResponse" where
  "provider_success i (SuccessCredentialList cs) =
     (provider_response_empty i True)\<lparr>pn_credentials := Some cs\<rparr>"
| "provider_success i (SuccessCredentialShow c) =
     (provider_response_empty i True)\<lparr>pn_credential := Some c\<rparr>"
| "provider_success i (SuccessCredentialMutation c) =
     (provider_response_empty i True)\<lparr>pn_credential := Some c\<rparr>"
| "provider_success i (SuccessRequest prov operation status body) =
     (provider_response_empty i True)\<lparr>pn_provider_id := Some prov, pn_operation := Some operation,
       pn_upstream_status := Some status, pn_body := Some body\<rparr>"
| "provider_success i (SuccessHealth health reason ccount pcount failures) =
     (provider_response_empty i True)\<lparr>pn_health := Some health, pn_reason_code := Some reason,
       pn_credential_count := Some ccount, pn_provider_count := Some pcount,
       pn_audit_write_failures := Some failures\<rparr>"
| "provider_success i (SuccessCredentialDeleted cref) =
     (provider_response_empty i True)\<lparr>pn_deleted_credential_ref := Some cref\<rparr>"

definition provider_failure :: "RequestId \<Rightarrow> ProviderError \<Rightarrow> ProviderResponse" where
  "provider_failure i e = (provider_response_empty i False)\<lparr>pn_error := Some e\<rparr>"

definition success_field_count :: "ProviderResponse \<Rightarrow> nat" where
  "success_field_count r =
     length (filter (\<lambda>present. present)
       [pn_provider_id r \<noteq> None, pn_operation r \<noteq> None, pn_upstream_status r \<noteq> None, pn_body r \<noteq> None,
        pn_credentials r \<noteq> None, pn_credential r \<noteq> None, pn_health r \<noteq> None, pn_reason_code r \<noteq> None,
        pn_credential_count r \<noteq> None, pn_provider_count r \<noteq> None, pn_audit_write_failures r \<noteq> None,
        pn_deleted_credential_ref r \<noteq> None])"

definition invalid_response :: ProviderError where
  "invalid_response = provider_error PecInvalidRequest ''invalid protected API response envelope''"

definition provider_response_validate :: "ProviderResponse \<Rightarrow> ProviderError + unit" where
  "provider_response_validate r =
     (if pn_protocol_version r \<noteq> PROTOCOL_VERSION then Err invalid_response
      else if \<not> pn_ok r then
        (if pn_error r \<noteq> None \<and> success_field_count r = 0 then Ok () else Err invalid_response)
      else if pn_error r \<noteq> None then Err invalid_response
      else
        let request_shape = pn_provider_id r \<noteq> None \<and> pn_operation r \<noteq> None
              \<and> pn_upstream_status r \<noteq> None \<and> pn_body r \<noteq> None \<and> success_field_count r = 4;
            list_shape = pn_credentials r \<noteq> None \<and> success_field_count r = 1;
            credential_shape = pn_credential r \<noteq> None \<and> success_field_count r = 1;
            health_shape = pn_health r \<noteq> None \<and> pn_reason_code r \<noteq> None
              \<and> pn_credential_count r \<noteq> None \<and> pn_provider_count r \<noteq> None
              \<and> pn_audit_write_failures r \<noteq> None \<and> success_field_count r = 5;
            delete_shape = pn_deleted_credential_ref r \<noteq> None \<and> success_field_count r = 1
        in if request_shape \<or> list_shape \<or> credential_shape \<or> health_shape \<or> delete_shape
           then Ok () else Err invalid_response)"

definition success_value :: "ProviderResponse \<Rightarrow> ProviderError + ProviderSuccess" where
  "success_value r =
     and_then (provider_response_validate r) (\<lambda>_.
     if \<not> pn_ok r then Err (the (pn_error r))
     else case pn_credentials r of
       Some cs \<Rightarrow> Ok (SuccessCredentialList cs)
     | None \<Rightarrow>
       (case pn_credential r of
         Some c \<Rightarrow> Ok (SuccessCredentialShow c)
       | None \<Rightarrow>
         (case (pn_provider_id r, pn_operation r, pn_upstream_status r, pn_body r) of
           (Some prov, Some operation, Some status, Some body) \<Rightarrow>
             Ok (SuccessRequest prov operation status body)
         | _ \<Rightarrow>
           (case (pn_health r, pn_reason_code r, pn_credential_count r, pn_provider_count r,
                  pn_audit_write_failures r) of
             (Some health, Some reason, Some ccount, Some pcount, Some failures) \<Rightarrow>
               Ok (SuccessHealth health reason ccount pcount failures)
           | _ \<Rightarrow>
             (case pn_deleted_credential_ref r of
               Some cref \<Rightarrow> Ok (SuccessCredentialDeleted cref)
             | None \<Rightarrow> Err invalid_response)))))"

subsection \<open>Round trips\<close>

text \<open>
  The wire shape has one field for a shown and for a changed credential, so a client reads a
  mutation as a shown credential.
\<close>

fun as_received :: "ProviderSuccess \<Rightarrow> ProviderSuccess" where
  "as_received (SuccessCredentialMutation c) = SuccessCredentialShow c"
| "as_received v = v"

lemma success_value_provider_success: "success_value (provider_success i v) = Ok (as_received v)"
  by (cases v)
     (simp_all add: success_value_def provider_response_validate_def success_field_count_def
        provider_response_empty_def)

lemma success_value_provider_failure: "success_value (provider_failure i e) = Err e"
  by (simp add: success_value_def provider_response_validate_def success_field_count_def
      provider_failure_def provider_response_empty_def)

definition use_action_valid :: "UseAction \<Rightarrow> bool" where
  "use_action_valid a =
     (case a of
        UseCredentialShow cref \<Rightarrow> validate_credential_ref cref = Ok ()
      | UseApiRequest cref operation payload \<Rightarrow>
          validate_credential_ref cref = Ok () \<and> validate_operation_id operation = Ok ()
      | _ \<Rightarrow> True)"

definition admin_action_valid :: "AdminAction \<Rightarrow> bool" where
  "admin_action_valid a =
     (case a of
        AdminProvision cref prov label secret \<Rightarrow>
          validate_credential_ref cref = Ok () \<and> validate_provider_id prov = Ok ()
          \<and> validate_safe_label label = Ok ()
      | AdminRotate cref secret \<Rightarrow> validate_credential_ref cref = Ok ()
      | AdminRevoke cref \<Rightarrow> validate_credential_ref cref = Ok ()
      | AdminDelete cref \<Rightarrow> validate_credential_ref cref = Ok ()
      | AdminShow cref \<Rightarrow> validate_credential_ref cref = Ok ()
      | AdminList \<Rightarrow> True)"

lemma use_into_action_new: "use_action_valid a \<Longrightarrow> use_into_action (use_request_new i a) = Ok a"
  by (cases a)
     (simp_all add: use_into_action_def use_validate_def use_request_empty_def use_action_valid_def)

lemma admin_into_action_new: "admin_action_valid a \<Longrightarrow> admin_into_action (admin_request_new i a) = Ok a"
  by (cases a)
     (simp_all add: admin_into_action_def admin_validate_def admin_request_empty_def
        admin_action_valid_def Let_def)

lemma use_into_action_valid: "use_into_action r = Ok a \<Longrightarrow> use_action_valid a"
  by (auto simp: use_into_action_def use_validate_def use_action_valid_def invalid_api_def
      result_simps split: if_splits)

lemma admin_into_action_valid: "admin_into_action r = Ok a \<Longrightarrow> admin_action_valid a"
  by (auto simp: admin_into_action_def admin_validate_def admin_action_valid_def invalid_api_def
      Let_def result_simps split: if_splits)

text \<open>A policy resource names its credential and its operation unambiguously.\<close>

lemma split_on_nonempty: "split_on c v \<noteq> []"
  by (cases v) (auto split: list.splits)

lemma split_on_concat: "split_on c v = [a, b] \<Longrightarrow> v = a @ [c] @ b"
proof (induction v arbitrary: a)
  case (Cons x v)
  have one: "split_on c w = [d] \<Longrightarrow> w = d" for w d
    by (induction w arbitrary: d) (auto simp: split_on_nonempty split: if_splits list.splits)
  from Cons show ?case by (auto split: if_splits list.splits dest: one)
qed simp

lemma valid_id_segment_no_bar: "valid_id_segment v \<Longrightarrow> CHR ''|'' \<notin> set v"
  by (force simp: valid_id_segment_def list_all_iff is_ascii_lowercase_def is_ascii_digit_def byte_def)

lemma valid_ref_no_bar: "validate_credential_ref v = Ok () \<Longrightarrow> CHR ''|'' \<notin> set v"
  by (auto simp: validate_credential_ref_def invalid_api_def valid_id_segment_no_bar
      dest!: split_on_concat split: list.splits if_splits)

lemma policy_resource_inject:
  assumes "policy_resource c o1 = Ok res" and "policy_resource d o2 = Ok res"
  shows "c = d \<and> o1 = o2"
proof -
  have eq: "c @ CHR ''|'' # o1 = d @ CHR ''|'' # o2"
    and "CHR ''|'' \<notin> set c" "CHR ''|'' \<notin> set d"
    using assms by (auto simp: policy_resource_def result_simps Let_def invalid_api_def
        valid_ref_no_bar split: if_splits)
  then show ?thesis by (auto simp: append_eq_append_conv2 append_eq_Cons_conv Cons_eq_append_conv)
qed

end
