(* ===== verification/Protected_Definitions.thy ===== *)
theory Protected_Definitions
  imports Protected_Api Policy_Store
begin

section \<open>Provider definitions\<close>

text \<open>
  \<^verbatim>\<open>portus-protected-api/src/definition.rs\<close>: the administrator's description of an upstream provider
  (origin, placement of the credential, limits, named operations), its validation, and the catalogue
  loaded from a root-owned directory. The URL library and the TOML parser are third-party: the type
  of URLs is the parameter \<open>'u\<close>, the functions used on it the record \<open>UrlLib\<close>, the parser an
  argument of the loader.
\<close>

subsection \<open>Definitions\<close>

record AuthenticationDefinition =
  au_kind :: string
  au_header :: string
  au_prefix :: string

record DefinitionLimits =
  dl_max_request_bytes :: nat
  dl_max_response_bytes :: nat
  dl_timeout_ms :: nat

record OperationDefinition =
  od_method :: string
  od_path :: string
  od_streaming :: bool

record ProviderDefinition =
  df_schema_version :: u32
  df_provider_id :: string
  df_origin :: string
  df_authentication :: AuthenticationDefinition
  df_limits :: DefinitionLimits
  df_operations :: "(string, OperationDefinition) btree"

type_synonym DefinitionCatalog = "(string, ProviderDefinition) btree"

record 'u UrlLib =
  url_parse :: "string \<Rightarrow> 'u option"
  url_join :: "'u \<Rightarrow> string \<Rightarrow> 'u option"
  url_scheme :: "'u \<Rightarrow> string"
  url_host_str :: "'u \<Rightarrow> string option"
  url_username :: "'u \<Rightarrow> string"
  url_password :: "'u \<Rightarrow> string option"
  url_query :: "'u \<Rightarrow> string option"
  url_fragment :: "'u \<Rightarrow> string option"
  url_path :: "'u \<Rightarrow> string"

datatype DefinitionTrust = DefRootOwnedSystem | DefPretrustedFixture

datatype DefinitionError =
    DefinitionIo
  | DefinitionParse string
  | DefinitionInvalid string
  | DefinitionPermission string

definition definition_io :: "io_error \<Rightarrow> DefinitionError" where
  "definition_io e = DefinitionIo"

definition MAX_DEFINITION_FILE_BYTES :: nat where
  "MAX_DEFINITION_FILE_BYTES = 256 * 1024"

subsection \<open>Validation\<close>

definition bare_https_origin :: "'u UrlLib \<Rightarrow> 'u \<Rightarrow> bool" where
  "bare_https_origin lib u \<longleftrightarrow>
     \<not> (url_scheme lib u \<noteq> ''https'' \<or> url_host_str lib u = None \<or> url_username lib u \<noteq> ''''
       \<or> url_password lib u \<noteq> None \<or> url_query lib u \<noteq> None \<or> url_fragment lib u \<noteq> None
       \<or> url_path lib u \<noteq> ''/'')"

definition bounded_bearer :: "AuthenticationDefinition \<Rightarrow> bool" where
  "bounded_bearer a \<longleftrightarrow>
     \<not> (au_kind a \<noteq> ''bearer'' \<or> to_ascii_lowercase (au_header a) \<noteq> ''authorization''
       \<or> au_prefix a = [] \<or> 64 < length (au_prefix a) \<or> contains_char (au_prefix a) line_breaks)"

definition bounded_limits :: "DefinitionLimits \<Rightarrow> bool" where
  "bounded_limits l \<longleftrightarrow>
     \<not> (dl_max_request_bytes l = 0 \<or> MAX_REQUEST_BYTES < dl_max_request_bytes l
       \<or> dl_max_response_bytes l = 0 \<or> MAX_RESPONSE_BYTES < dl_max_response_bytes l
       \<or> dl_timeout_ms l = 0 \<or> MAX_TIMEOUT_MS < dl_timeout_ms l)"

definition operation_shape :: "OperationDefinition \<Rightarrow> bool" where
  "operation_shape d \<longleftrightarrow>
     \<not> (od_method d \<notin> {''GET'', ''POST''} \<or> od_streaming d \<or> \<not> prefix ''/'' (od_path d)
       \<or> prefix ''//'' (od_path d) \<or> contains_char (od_path d) (line_breaks @ ''?#'')
       \<or> contains_str (od_path d) ''://'')"

definition validate_definition :: "'u UrlLib \<Rightarrow> ProviderDefinition \<Rightarrow> DefinitionError + unit" where
  "validate_definition lib d =
     and_then (ensure (df_schema_version d = 1) (DefinitionInvalid ''unsupported provider schema version'')) (\<lambda>_.
     and_then (map_err (\<lambda>_. DefinitionInvalid ''provider id is invalid'')
       (validate_provider_id (df_provider_id d))) (\<lambda>_.
     and_then (ok_or (url_parse lib (df_origin d)) (DefinitionInvalid ''provider origin is invalid'')) (\<lambda>origin.
     and_then (ensure (bare_https_origin lib origin)
       (DefinitionInvalid ''provider origin must be a bare verified HTTPS origin'')) (\<lambda>_.
     and_then (ensure (bounded_bearer (df_authentication d))
       (DefinitionInvalid ''first provider authentication must be bounded Authorization bearer placement'')) (\<lambda>_.
     and_then (ensure (bounded_limits (df_limits d))
       (DefinitionInvalid ''provider limits exceed first-contract ceilings'')) (\<lambda>_.
     and_then (ensure (\<not> (df_operations d = [] \<or> MAX_OPERATIONS_PER_PROVIDER < length (df_operations d)))
       (DefinitionInvalid ''provider operation count is invalid'')) (\<lambda>_.
     try_each (\<lambda>(i, oper).
       and_then (map_err (\<lambda>_. DefinitionInvalid ''operation id is invalid'') (validate_operation_id i)) (\<lambda>_.
       ensure (operation_shape oper)
         (DefinitionInvalid ''operation method/path/streaming shape is invalid'')))
       (df_operations d))))))))"

subsection \<open>The catalogue\<close>

definition from_definitions ::
  "'u UrlLib \<Rightarrow> ProviderDefinition list \<Rightarrow> DefinitionError + DefinitionCatalog" where
  "from_definitions lib ds =
     (if MAX_PROVIDER_DEFINITIONS < length ds then Err (DefinitionInvalid ''too many provider definitions'')
      else bt_collect df_provider_id (validate_definition lib)
        (DefinitionInvalid ''duplicate provider id'') bt_empty ds)"

fun collect_definition_files :: "IoEnv \<Rightarrow> PathBuf list \<Rightarrow> PathBuf list \<Rightarrow> DefinitionError + PathBuf list" where
  "collect_definition_files env files [] = Ok files"
| "collect_definition_files env files (p # es) =
     (if io_fails env (DirEntry p) then Err DefinitionIo
      else if path_extension p = Some ''toml'' then collect_definition_files env (files @ [p]) es
      else collect_definition_files env files es)"

definition check_definition_trusted ::
  "IoEnv \<Rightarrow> Files \<Rightarrow> (Inode \<Rightarrow> bool) \<Rightarrow> string \<Rightarrow> PathBuf \<Rightarrow> DefinitionError + unit" where
  "check_definition_trusted env fs kind what p =
     and_then (map_err definition_io (fs_lstat env fs p)) (\<lambda>i.
     if untrusted kind i then Err (DefinitionPermission (path_display p @ what)) else Ok ())"

definition validate_definition_trust ::
  "IoEnv \<Rightarrow> Files \<Rightarrow> PathBuf \<Rightarrow> DefinitionTrust \<Rightarrow> DefinitionError + unit" where
  "validate_definition_trust env fs directory trust =
     (if trust = DefPretrustedFixture then Ok ()
      else
        and_then (try_each (check_definition_trusted env fs is_dir
            '' is not trusted root-owned provider-definition material'')
          ((case path_parent directory of None \<Rightarrow> [] | Some d \<Rightarrow> [d]) @ [directory])) (\<lambda>_.
        and_then (map_err definition_io (fs_read_dir env fs directory)) (\<lambda>es.
        try_each (\<lambda>p.
          if io_fails env (DirEntry p) then Err DefinitionIo
          else if path_extension p \<noteq> Some ''toml'' then Ok ()
          else check_definition_trusted env fs is_file '' is not trusted root-owned provider material'' p) es)))"

definition name_stem :: "string \<Rightarrow> string" where
  "name_stem name =
     (case name_extension name of None \<Rightarrow> name | Some ext \<Rightarrow> take (length name - length ext - 1) name)"

definition load_definition ::
  "'u UrlLib \<Rightarrow> IoEnv \<Rightarrow> (string \<Rightarrow> ProviderDefinition option) \<Rightarrow> Files \<Rightarrow> PathBuf
    \<Rightarrow> DefinitionError + ProviderDefinition" where
  "load_definition lib env parse fs p =
     and_then (map_err definition_io (fs_lstat env fs p)) (\<lambda>i.
     if is_symlink i \<or> \<not> is_file i \<or> MAX_DEFINITION_FILE_BYTES < length (in_data i)
     then Err (DefinitionInvalid ''provider definition is not a bounded regular file'')
     else
       and_then (map_err definition_io (fs_read_to_string env fs p)) (\<lambda>text.
       and_then (ok_or (parse text) (DefinitionParse (path_display p @ '' does not match schema v1''))) (\<lambda>d.
       and_then (validate_definition lib d) (\<lambda>_.
       if (case path_file_name p of None \<Rightarrow> '''' | Some n \<Rightarrow> name_stem n) \<noteq> df_provider_id d
       then Err (DefinitionInvalid ''provider filename does not match provider_id'') else Ok d))))"

fun load_definitions ::
  "'u UrlLib \<Rightarrow> IoEnv \<Rightarrow> (string \<Rightarrow> ProviderDefinition option) \<Rightarrow> Files \<Rightarrow> DefinitionCatalog \<Rightarrow> PathBuf list
    \<Rightarrow> DefinitionError + DefinitionCatalog" where
  "load_definitions lib env parse fs m [] = Ok m"
| "load_definitions lib env parse fs m (p # ps) =
     and_then (load_definition lib env parse fs p) (\<lambda>d.
     if bt_contains_key m (df_provider_id d) then Err (DefinitionInvalid ''duplicate provider id'')
     else load_definitions lib env parse fs (bt_insert (df_provider_id d) d m) ps)"

definition catalog_load ::
  "'u UrlLib \<Rightarrow> IoEnv \<Rightarrow> (string \<Rightarrow> ProviderDefinition option) \<Rightarrow> Files \<Rightarrow> PathBuf \<Rightarrow> DefinitionTrust
    \<Rightarrow> DefinitionError + DefinitionCatalog" where
  "catalog_load lib env parse fs directory trust =
     and_then (validate_definition_trust env fs directory trust) (\<lambda>_.
     and_then (map_err definition_io (fs_read_dir env fs directory)) (\<lambda>es.
     and_then (collect_definition_files env [] es) (\<lambda>files.
     let files = sort files in
     if MAX_PROVIDER_DEFINITIONS < length files then Err (DefinitionInvalid ''too many provider definitions'')
     else load_definitions lib env parse fs bt_empty files)))"

subsection \<open>Operations\<close>

definition definition_operation :: "ProviderDefinition \<Rightarrow> string \<Rightarrow> ProviderError + OperationDefinition" where
  "definition_operation d operation =
     ok_or (bt_get (df_operations d) operation)
       (provider_error PecOperationNotAllowed ''named provider operation is not allowed'')"

definition operation_url :: "'u UrlLib \<Rightarrow> ProviderDefinition \<Rightarrow> string \<Rightarrow> ProviderError + 'u" where
  "operation_url lib d operation =
     and_then (definition_operation d operation) (\<lambda>oper.
     and_then (ok_or (url_parse lib (df_origin d))
       (provider_error PecProviderDefinitionInvalid ''provider origin is invalid'')) (\<lambda>base.
     ok_or (url_join lib base (od_path oper))
       (provider_error PecProviderDefinitionInvalid ''provider operation path is invalid'')))"

subsection \<open>What a catalogue guarantees\<close>

definition entries_valid :: "'u UrlLib \<Rightarrow> DefinitionCatalog \<Rightarrow> bool" where
  "entries_valid lib m \<longleftrightarrow>
     (\<forall>k d. bt_get m k = Some d \<longrightarrow> df_provider_id d = k \<and> validate_definition lib d = Ok ())"

definition catalog_wf :: "'u UrlLib \<Rightarrow> DefinitionCatalog \<Rightarrow> bool" where
  "catalog_wf lib m \<longleftrightarrow> bt_sorted m \<and> length m \<le> MAX_PROVIDER_DEFINITIONS \<and> entries_valid lib m"

lemma validate_definition_Ok:
  assumes "validate_definition lib d = Ok ()"
  obtains u where "url_parse lib (df_origin d) = Some u" "bare_https_origin lib u"
    "bounded_bearer (df_authentication d)" "bounded_limits (df_limits d)"
    "\<And>i oper. bt_get (df_operations d) i = Some oper \<Longrightarrow> operation_shape oper"
proof -
  obtain u where u: "url_parse lib (df_origin d) = Some u" "bare_https_origin lib u"
    "bounded_bearer (df_authentication d)" "bounded_limits (df_limits d)"
    using assms by (auto simp: validate_definition_def result_simps)
  have all: "\<forall>x\<in>set (df_operations d). operation_shape (snd x)"
    using assms by (auto simp: validate_definition_def result_simps case_prod_beta)
  have "operation_shape oper" if "bt_get (df_operations d) i = Some oper" for i oper
    using that all by (auto simp: bt_get_def dest!: map_of_SomeD)
  with u show ?thesis by (rule that)
qed

lemma bt_insert_length: "length (bt_insert k v m) \<le> Suc (length m)"
  by (induction m) auto

lemma entries_valid_insert:
  assumes "bt_sorted m" and "entries_valid lib m" and "validate_definition lib d = Ok ()"
  shows "entries_valid lib (bt_insert (df_provider_id d) d m)"
  using assms by (auto simp: entries_valid_def btree_simps split: if_splits)

lemma load_definitions_wf:
  assumes "load_definitions lib env parse fs m ps = Ok m'" and "bt_sorted m" and "entries_valid lib m"
    and "length m + length ps \<le> MAX_PROVIDER_DEFINITIONS"
  shows "catalog_wf lib m'"
  using assms
proof (induction ps arbitrary: m)
  case Nil
  then show ?case by (simp add: catalog_wf_def)
next
  case (Cons p ps)
  then obtain d where d: "load_definition lib env parse fs p = Ok d"
    and rest: "load_definitions lib env parse fs (bt_insert (df_provider_id d) d m) ps = Ok m'"
    by (auto simp: result_simps split: if_splits)
  from d have valid: "validate_definition lib d = Ok ()"
    by (auto simp: load_definition_def result_simps split: if_splits)
  have len: "length (bt_insert (df_provider_id d) d m) + length ps \<le> MAX_PROVIDER_DEFINITIONS"
    using bt_insert_length [of "df_provider_id d" d m] Cons.prems(4) by simp
  show ?case
    by (rule Cons.IH [OF rest bt_sorted_insert [OF Cons.prems(2)]
          entries_valid_insert [OF Cons.prems(2,3) valid] len])
qed

lemma catalog_load_wf:
  assumes "catalog_load lib env parse fs directory trust = Ok m"
  shows "catalog_wf lib m"
proof -
  obtain files where "load_definitions lib env parse fs bt_empty files = Ok m"
    and "length (bt_empty :: DefinitionCatalog) + length files \<le> MAX_PROVIDER_DEFINITIONS"
    using assms by (auto simp: catalog_load_def result_simps Let_def bt_empty_def split: if_splits)
  then show ?thesis
    by (intro load_definitions_wf [where m = bt_empty]) (simp_all add: bt_empty_def bt_sorted_def entries_valid_def bt_get_def)
qed

lemma from_definitions_wf:
  assumes "from_definitions lib ds = Ok m"
  shows "entries_valid lib m"
proof -
  have "bt_sorted m0 \<Longrightarrow> entries_valid lib m0 \<Longrightarrow>
    bt_collect df_provider_id (validate_definition lib) e m0 xs = Ok m \<Longrightarrow> entries_valid lib m" for m0 e xs
  proof (induction xs arbitrary: m0)
    case (Cons d ds)
    from Cons.prems(3) have "validate_definition lib d = Ok ()"
      and "bt_collect df_provider_id (validate_definition lib) e (bt_insert (df_provider_id d) d m0) ds = Ok m"
      by (auto simp: result_simps split: if_splits)
    with Cons.prems(1,2) show ?case
      by (intro Cons.IH [OF bt_sorted_insert entries_valid_insert])
  qed simp
  from this [of bt_empty] assms show ?thesis
    by (simp add: from_definitions_def bt_empty_def bt_sorted_def entries_valid_def bt_get_def split: if_splits)
qed

text \<open>Under root-owned trust every definition comes from a file only root can write.\<close>

lemma catalog_load_trusted:
  assumes "catalog_load lib env parse fs directory DefRootOwnedSystem = Ok m"
  shows "trusted_at fs is_dir directory"
    and "p \<in> set (children fs directory) \<Longrightarrow> toml_document p \<Longrightarrow> trusted_at fs is_file p"
proof -
  have check: "check_definition_trusted env fs kind what q = Ok u \<longleftrightarrow>
      \<not> io_fails env (Lstat q) \<and> trusted_at fs kind q" for kind what q u
    by (auto simp: check_definition_trusted_def fs_lstat_def trusted_at_def result_simps split: option.splits)
  have trust: "validate_definition_trust env fs directory DefRootOwnedSystem = Ok ()"
    using assms by (auto simp: catalog_load_def result_simps)
  then show dir: "trusted_at fs is_dir directory"
    by (auto simp: validate_definition_trust_def result_simps check split: option.splits)
  assume "p \<in> set (children fs directory)" "toml_document p"
  with trust show "trusted_at fs is_file p"
    by (auto simp: validate_definition_trust_def result_simps check trusted_dir_children [OF dir]
        toml_document_def split: if_splits)
qed

end
