(* ===== verification/Credential_Store.thy ===== *)
theory Credential_Store
  imports Protected_Api Filesystem
begin

section \<open>The credential store\<close>

text \<open>
  \<^verbatim>\<open>portus-apid/src/store.rs\<close>. The table \<open>credentials\<close> is the list of its rows in the order of
  \<open>credential_ref\<close>, its primary key; the text column \<open>state\<close>, which a \<open>CHECK\<close> of the schema limits to
  two values, is the type \<open>CredentialState\<close>. Every statement of the database engine may fail, as the
  record \<open>SqlEnv\<close> says for one call; an error before \<open>commit\<close> rolls the transaction back. A generation
  beyond \<open>i64\<close> is stored but can no longer be read, which is how SQLite treats an integer overflow.
\<close>

subsection \<open>UTF-8\<close>

definition utf8_tail :: "char \<Rightarrow> bool" where
  "utf8_tail c \<longleftrightarrow> 0x80 \<le> byte c \<and> byte c \<le> 0xBF"

definition utf8_second :: "nat \<Rightarrow> char \<Rightarrow> bool" where
  "utf8_second lead c \<longleftrightarrow>
     (if lead = 0xE0 then 0xA0 else if lead = 0xF0 then 0x90 else 0x80) \<le> byte c
   \<and> byte c \<le> (if lead = 0xED then 0x9F else if lead = 0xF4 then 0x8F else 0xBF)"

fun utf8_valid :: "string \<Rightarrow> bool" where
  "utf8_valid [] = True"
| "utf8_valid (c # cs) =
     (if byte c < 0x80 then utf8_valid cs
      else if 0xC2 \<le> byte c \<and> byte c \<le> 0xDF then
        (case cs of d # r \<Rightarrow> utf8_tail d \<and> utf8_valid r | _ \<Rightarrow> False)
      else if 0xE0 \<le> byte c \<and> byte c \<le> 0xEF then
        (case cs of d # e # r \<Rightarrow> utf8_second (byte c) d \<and> utf8_tail e \<and> utf8_valid r | _ \<Rightarrow> False)
      else if 0xF0 \<le> byte c \<and> byte c \<le> 0xF4 then
        (case cs of d # e # f # r \<Rightarrow>
           utf8_second (byte c) d \<and> utf8_tail e \<and> utf8_tail f \<and> utf8_valid r | _ \<Rightarrow> False)
      else False)"

subsection \<open>Tables and statements\<close>

datatype StoreError =
    StoreSql
  | StoreInvalid string
  | StoreNotFound
  | StoreRevoked
  | StoreIncompatibleSchema u32

definition STORE_SCHEMA_VERSION :: u32 where "STORE_SCHEMA_VERSION = 1"
definition MAX_CREDENTIALS :: nat where "MAX_CREDENTIALS = 1024"

record CredentialRow =
  cr_provider_id :: string
  cr_safe_label :: "string option"
  cr_secret :: string
  cr_generation :: nat
  cr_state :: CredentialState
  cr_created_at :: string
  cr_rotated_at :: "string option"
  cr_revoked_at :: "string option"
  cr_updated_at :: string

record CredentialDb =
  cdb_meta :: "u32 list option"
  cdb_rows :: "(string, CredentialRow) btree"

datatype CredSql =
    SqlOpen | SqlBusyTimeout | SqlForeignKeys | SqlSynchronous | SqlSecureDelete
  | SqlHasMeta | SqlVersion | SqlMetaCount | SqlIntegrity | SqlCount | SqlList | SqlShow | SqlSecret
  | SqlBegin | SqlExecute | SqlCommit

record SqlEnv =
  sql_fails :: "CredSql \<Rightarrow> bool"
  sql_integrity :: string

definition sql :: "SqlEnv \<Rightarrow> CredSql \<Rightarrow> StoreError + unit" where
  "sql env s = ensure (\<not> sql_fails env s) StoreSql"

definition ensure_schema :: "SqlEnv \<Rightarrow> CredentialDb \<Rightarrow> CredentialDb \<times> (StoreError + unit)" where
  "ensure_schema env db =
     (case sql env SqlHasMeta of
        Inl e \<Rightarrow> (db, Err e)
      | Inr _ \<Rightarrow>
          (case cdb_meta db of
             None \<Rightarrow>
               if sql_fails env SqlBegin \<or> sql_fails env SqlExecute \<or> sql_fails env SqlCommit
               then (db, Err StoreSql)
               else (\<lparr>cdb_meta = Some [1], cdb_rows = bt_empty\<rparr>, Ok ())
           | Some versions \<Rightarrow>
               (db,
                and_then (sql env SqlVersion) (\<lambda>_.
                case versions of
                  [] \<Rightarrow> Err StoreSql
                | version # _ \<Rightarrow>
                    if version \<noteq> STORE_SCHEMA_VERSION then Err (StoreIncompatibleSchema version)
                    else and_then (sql env SqlMetaCount) (\<lambda>_.
                      if length versions \<noteq> 1
                      then Err (StoreInvalid ''meta table must contain exactly one schema row'')
                      else Ok ())))))"

definition store_configure :: "SqlEnv \<Rightarrow> CredentialDb \<Rightarrow> CredentialDb \<times> (StoreError + unit)" where
  "store_configure env db =
     (case try_each (sql env) [SqlBusyTimeout, SqlForeignKeys, SqlSynchronous, SqlSecureDelete] of
        Inl e \<Rightarrow> (db, Err e)
      | Inr _ \<Rightarrow> ensure_schema env db)"

definition store_open :: "SqlEnv \<Rightarrow> CredentialDb \<Rightarrow> CredentialDb \<times> (StoreError + unit)" where
  "store_open env db =
     (case sql env SqlOpen of Inl e \<Rightarrow> (db, Err e) | Inr _ \<Rightarrow> store_configure env db)"

definition integrity_check :: "SqlEnv \<Rightarrow> CredentialDb \<Rightarrow> StoreError + bool" where
  "integrity_check env db = and_then (sql env SqlIntegrity) (\<lambda>_. Ok (sql_integrity env = ''ok''))"

definition store_schema_version :: "SqlEnv \<Rightarrow> CredentialDb \<Rightarrow> StoreError + u32" where
  "store_schema_version env db =
     and_then (sql env SqlVersion) (\<lambda>_.
       case cdb_meta db of Some (v # _) \<Rightarrow> Ok v | _ \<Rightarrow> Err StoreSql)"

definition store_count :: "SqlEnv \<Rightarrow> CredentialDb \<Rightarrow> StoreError + nat" where
  "store_count env db = and_then (sql env SqlCount) (\<lambda>_. Ok (length (cdb_rows db)))"

definition metadata_from_row :: "string \<times> CredentialRow \<Rightarrow> StoreError + CredentialMetadata" where
  "metadata_from_row e =
     (case e of (cref, row) \<Rightarrow>
       if i64_max < int (cr_generation row) then Err StoreSql
       else Ok \<lparr>cm_credential_ref = cref, cm_provider_id = cr_provider_id row,
                cm_safe_label = cr_safe_label row, cm_generation = cr_generation row,
                cm_state = cr_state row, cm_created_at = cr_created_at row,
                cm_rotated_at = cr_rotated_at row, cm_revoked_at = cr_revoked_at row,
                cm_updated_at = cr_updated_at row\<rparr>)"

definition store_list :: "SqlEnv \<Rightarrow> CredentialDb \<Rightarrow> StoreError + CredentialMetadata list" where
  "store_list env db = and_then (sql env SqlList) (\<lambda>_. try_map metadata_from_row (cdb_rows db))"

definition checked_ref :: "string \<Rightarrow> StoreError + unit" where
  "checked_ref cref =
     map_err (\<lambda>_. StoreInvalid ''credential reference is invalid'') (validate_credential_ref cref)"

definition store_show :: "SqlEnv \<Rightarrow> CredentialDb \<Rightarrow> string \<Rightarrow> StoreError + CredentialMetadata" where
  "store_show env db cref =
     and_then (checked_ref cref) (\<lambda>_.
     and_then (sql env SqlShow) (\<lambda>_.
     and_then (ok_or (bt_get (cdb_rows db) cref) StoreNotFound) (\<lambda>row. metadata_from_row (cref, row))))"

definition load_secret :: "SqlEnv \<Rightarrow> CredentialDb \<Rightarrow> string \<Rightarrow> StoreError + SecretMaterial" where
  "load_secret env db cref =
     and_then (sql env SqlSecret) (\<lambda>_.
     and_then (ok_or (bt_get (cdb_rows db) cref) StoreNotFound) (\<lambda>row.
     if cr_state row = CredRevoked then Err StoreRevoked
     else if \<not> utf8_valid (cr_secret row)
     then Err (StoreInvalid ''stored credential is not valid UTF-8'')
     else map_err StoreInvalid (secret_new (cr_secret row))))"

subsection \<open>Transactions\<close>

text \<open>
  Each mutation runs one statement in a transaction and fails unless it changed one row; the
  statement's effect on the table is the argument \<open>rows'\<close>, \<open>None\<close> when no row changes.
\<close>

definition transact ::
  "SqlEnv \<Rightarrow> CredentialDb \<Rightarrow> (string, CredentialRow) btree option \<Rightarrow> StoreError
    \<Rightarrow> CredentialDb \<times> (StoreError + unit)" where
  "transact env db rows' unchanged =
     (if sql_fails env SqlBegin \<or> sql_fails env SqlExecute then (db, Err StoreSql)
      else case rows' of
        None \<Rightarrow> (db, Err unchanged)
      | Some rows \<Rightarrow>
          if sql_fails env SqlCommit then (db, Err StoreSql) else (db\<lparr>cdb_rows := rows\<rparr>, Ok ()))"

definition update_row ::
  "CredentialDb \<Rightarrow> string \<Rightarrow> (CredentialRow \<Rightarrow> CredentialRow) \<Rightarrow> (string, CredentialRow) btree option" where
  "update_row db cref f =
     map_option (\<lambda>row. bt_insert cref (f row) (cdb_rows db)) (bt_get (cdb_rows db) cref)"

definition fresh_row :: "string \<Rightarrow> string \<Rightarrow> string option \<Rightarrow> string \<Rightarrow> CredentialRow" where
  "fresh_row now prov label secret =
     \<lparr>cr_provider_id = prov, cr_safe_label = label, cr_secret = secret, cr_generation = 1,
      cr_state = CredActive, cr_created_at = now, cr_rotated_at = None, cr_revoked_at = None,
      cr_updated_at = now\<rparr>"

definition store_provision ::
  "SqlEnv \<Rightarrow> string \<Rightarrow> CredentialDb \<Rightarrow> string \<Rightarrow> string \<Rightarrow> string option \<Rightarrow> SecretMaterial
    \<Rightarrow> CredentialDb \<times> (StoreError + CredentialMetadata)" where
  "store_provision env now db cref prov label secret =
     (case and_then (checked_ref cref) (\<lambda>_.
           and_then (map_err (\<lambda>_. StoreInvalid ''provider id is invalid'') (validate_provider_id prov)) (\<lambda>_.
           and_then (store_count env db) (\<lambda>n.
           ensure (\<not> MAX_CREDENTIALS \<le> n) (StoreInvalid ''credential catalogue is full'')))) of
        Inl e \<Rightarrow> (db, Err e)
      | Inr _ \<Rightarrow>
          st_then (transact env db
            (if bt_contains_key (cdb_rows db) cref then None
             else Some (bt_insert cref (fresh_row now prov label secret) (cdb_rows db)))
            (StoreInvalid ''credential reference already exists'')) (\<lambda>db' _.
          (db', store_show env db' cref)))"

definition store_rotate ::
  "SqlEnv \<Rightarrow> string \<Rightarrow> CredentialDb \<Rightarrow> string \<Rightarrow> SecretMaterial
    \<Rightarrow> CredentialDb \<times> (StoreError + CredentialMetadata)" where
  "store_rotate env now db cref secret =
     st_then (transact env db
       (update_row db cref (\<lambda>row. row\<lparr>cr_secret := secret, cr_generation := cr_generation row + 1,
          cr_state := CredActive, cr_rotated_at := Some now, cr_revoked_at := None,
          cr_updated_at := now\<rparr>))
       StoreNotFound) (\<lambda>db' _. (db', store_show env db' cref))"

definition store_revoke ::
  "SqlEnv \<Rightarrow> string \<Rightarrow> CredentialDb \<Rightarrow> string \<Rightarrow> CredentialDb \<times> (StoreError + CredentialMetadata)" where
  "store_revoke env now db cref =
     st_then (transact env db
       (update_row db cref (\<lambda>row. row\<lparr>cr_state := CredRevoked, cr_revoked_at := Some now,
          cr_updated_at := now\<rparr>))
       StoreNotFound) (\<lambda>db' _. (db', store_show env db' cref))"

definition store_delete :: "SqlEnv \<Rightarrow> CredentialDb \<Rightarrow> string \<Rightarrow> CredentialDb \<times> (StoreError + unit)" where
  "store_delete env db cref =
     transact env db
       (if bt_contains_key (cdb_rows db) cref
        then Some (bt_remove cref (cdb_rows db)) else None)
       StoreNotFound"

subsection \<open>The invariant of the table\<close>

definition secret_wf :: "string \<Rightarrow> bool" where
  "secret_wf s \<longleftrightarrow> secret_new s = Ok s \<and> utf8_valid s"

definition row_wf :: "string \<Rightarrow> CredentialRow \<Rightarrow> bool" where
  "row_wf cref row \<longleftrightarrow>
     validate_credential_ref cref = Ok () \<and> validate_provider_id (cr_provider_id row) = Ok ()
   \<and> secret_wf (cr_secret row) \<and> 0 < cr_generation row
   \<and> (cr_state row = CredRevoked \<longleftrightarrow> cr_revoked_at row \<noteq> None)
   \<and> (cr_rotated_at row = None \<longleftrightarrow> cr_generation row = 1)"

definition store_wf :: "CredentialDb \<Rightarrow> bool" where
  "store_wf db \<longleftrightarrow>
     cdb_meta db = Some [1] \<and> bt_sorted (cdb_rows db) \<and> length (cdb_rows db) \<le> MAX_CREDENTIALS
   \<and> (\<forall>cref row. bt_get (cdb_rows db) cref = Some row \<longrightarrow> row_wf cref row)"

definition row_at :: "CredentialDb \<Rightarrow> string \<Rightarrow> CredentialRow option" where
  "row_at db cref = bt_get (cdb_rows db) cref"

lemma bt_insert_length_present: "bt_get m k = Some v \<Longrightarrow> bt_sorted m \<Longrightarrow> length (bt_insert k w m) = length m"
  by (induction m) (auto simp: bt_get_def bt_sorted_def split: if_splits dest!: map_of_SomeD)

lemma bt_insert_length_le: "length (bt_insert k v m) \<le> Suc (length m)"
  by (induction m) auto

text \<open>What a call did to the table: nothing, or exactly the one change its name says.\<close>

lemma transact_cases:
  assumes "transact env db rows' unchanged = (db', r)"
  obtains (kept) "db' = db" "\<exists>e. r = Err e"
    | (changed) rows where "rows' = Some rows" "db' = db\<lparr>cdb_rows := rows\<rparr>" "r = Ok ()"
  using assms by (auto simp: transact_def split: if_splits option.splits)

lemma update_cases:
  assumes "st_then (transact env db (update_row db cref f) StoreNotFound)
      (\<lambda>db' _. (db', store_show env db' cref)) = (db', r)"
  obtains (kept) "db' = db" "\<exists>e. r = Err e"
    | (updated) row where "row_at db cref = Some row"
        "db' = db\<lparr>cdb_rows := bt_insert cref (f row) (cdb_rows db)\<rparr>" "r = store_show env db' cref"
proof (cases "transact env db (update_row db cref f) StoreNotFound")
  case (Pair s q)
  then show ?thesis
  proof (cases rule: transact_cases)
    case kept
    with assms Pair that(1) show ?thesis by auto
  next
    case (changed rows)
    then obtain row where "row_at db cref = Some row" "rows = bt_insert cref (f row) (cdb_rows db)"
      by (auto simp: update_row_def row_at_def)
    moreover from this have "db' = db\<lparr>cdb_rows := bt_insert cref (f row) (cdb_rows db)\<rparr> \<and> r = store_show env db' cref"
      using assms Pair changed by auto
    ultimately show ?thesis using that(2) by blast
  qed
qed

lemma provision_cases:
  assumes "store_provision env now db cref prov label secret = (db', r)"
  obtains (kept) "db' = db" "\<exists>e. r = Err e"
    | (created) "row_at db cref = None" "length (cdb_rows db) < MAX_CREDENTIALS"
        "validate_credential_ref cref = Ok ()" "validate_provider_id prov = Ok ()"
        "db' = db\<lparr>cdb_rows := bt_insert cref (fresh_row now prov label secret) (cdb_rows db)\<rparr>"
        "r = store_show env db' cref"
proof -
  let ?guard = "and_then (checked_ref cref) (\<lambda>_.
           and_then (map_err (\<lambda>_. StoreInvalid ''provider id is invalid'') (validate_provider_id prov)) (\<lambda>_.
           and_then (store_count env db) (\<lambda>n.
           ensure (\<not> MAX_CREDENTIALS \<le> n) (StoreInvalid ''credential catalogue is full''))))"
  let ?rows = "if bt_contains_key (cdb_rows db) cref then None
    else Some (bt_insert cref (fresh_row now prov label secret) (cdb_rows db))"
  show ?thesis
  proof (cases ?guard)
    case (Inl e)
    with assms have "db' = db \<and> r = Err e" by (simp add: store_provision_def)
    with that(1) show ?thesis by blast
  next
    case (Inr u)
    then have guard: "validate_credential_ref cref = Ok ()" "validate_provider_id prov = Ok ()"
      "length (cdb_rows db) < MAX_CREDENTIALS"
      by (auto simp: checked_ref_def store_count_def result_simps)
    have run: "st_then (transact env db ?rows (StoreInvalid ''credential reference already exists''))
        (\<lambda>db' _. (db', store_show env db' cref)) = (db', r)"
      using assms Inr by (simp add: store_provision_def)
    show ?thesis
    proof (cases "transact env db ?rows (StoreInvalid ''credential reference already exists'')")
      case (Pair s q)
      then show ?thesis
      proof (cases rule: transact_cases)
        case kept
        with run Pair that(1) show ?thesis by auto
      next
        case (changed rows)
        then have "row_at db cref = None"
          and "rows = bt_insert cref (fresh_row now prov label secret) (cdb_rows db)"
          by (auto simp: row_at_def bt_contains_key_def split: if_splits)
        moreover from this have "db' = db\<lparr>cdb_rows := bt_insert cref (fresh_row now prov label secret) (cdb_rows db)\<rparr>
            \<and> r = store_show env db' cref"
          using run Pair changed by auto
        ultimately show ?thesis using guard that(2) by blast
      qed
    qed
  qed
qed

lemma delete_cases:
  assumes "store_delete env db cref = (db', r)"
  obtains (kept) "db' = db" "\<exists>e. r = Err e"
    | (deleted) row where "row_at db cref = Some row"
        "db' = db\<lparr>cdb_rows := bt_remove cref (cdb_rows db)\<rparr>" "r = Ok ()"
proof -
  from assms show ?thesis
    unfolding store_delete_def
  proof (cases rule: transact_cases)
    case kept
    with that(1) show ?thesis by blast
  next
    case (changed rows)
    then obtain row where "row_at db cref = Some row" "rows = bt_remove cref (cdb_rows db)"
      by (auto simp: row_at_def bt_contains_key_def split: if_splits)
    with changed that(2) show ?thesis by blast
  qed
qed

lemma store_wf_insert:
  assumes "store_wf db" and "row_wf cref row"
    and "length (bt_insert cref row (cdb_rows db)) \<le> MAX_CREDENTIALS"
  shows "store_wf (db\<lparr>cdb_rows := bt_insert cref row (cdb_rows db)\<rparr>)"
  using assms by (auto simp: store_wf_def btree_simps split: if_splits)

lemma store_wf_row: "store_wf db \<Longrightarrow> row_at db cref = Some row \<Longrightarrow> row_wf cref row"
  by (simp add: store_wf_def row_at_def)

lemma store_wf_update:
  assumes "store_wf db" and "row_at db cref = Some row" and "row_wf cref row'"
  shows "store_wf (db\<lparr>cdb_rows := bt_insert cref row' (cdb_rows db)\<rparr>)"
  using assms bt_insert_length_present [of "cdb_rows db" cref row row']
  by (intro store_wf_insert) (auto simp: store_wf_def row_at_def)

lemma store_provision_wf [inv_intros]:
  assumes "store_wf db" and "secret_wf secret"
  shows "store_wf (fst (store_provision env now db cref prov label secret))"
proof (cases "store_provision env now db cref prov label secret")
  case (Pair db' r)
  then show ?thesis
  proof (cases rule: provision_cases)
    case created
    let ?row = "fresh_row now prov label secret"
    have "length (bt_insert cref ?row (cdb_rows db)) \<le> MAX_CREDENTIALS"
      using created(2) bt_insert_length_le [of cref ?row "cdb_rows db"] by linarith
    moreover have "row_wf cref ?row" using created assms(2) by (simp add: row_wf_def fresh_row_def)
    ultimately show ?thesis using store_wf_insert [OF assms(1)] created(5) Pair by simp
  qed (use assms Pair in simp)
qed

lemma store_rotate_wf [inv_intros]:
  assumes "store_wf db" and "secret_wf secret"
  shows "store_wf (fst (store_rotate env now db cref secret))"
proof (cases "store_rotate env now db cref secret")
  case (Pair db' r)
  then have "st_then (transact env db (update_row db cref (\<lambda>row. row\<lparr>cr_secret := secret,
       cr_generation := cr_generation row + 1, cr_state := CredActive, cr_rotated_at := Some now,
       cr_revoked_at := None, cr_updated_at := now\<rparr>)) StoreNotFound)
       (\<lambda>db' _. (db', store_show env db' cref)) = (db', r)" by (simp add: store_rotate_def)
  then show ?thesis
    using assms Pair store_wf_row [OF assms(1)]
    by (cases rule: update_cases) (auto intro!: store_wf_update simp: row_wf_def)
qed

lemma store_revoke_wf [inv_intros]:
  assumes "store_wf db"
  shows "store_wf (fst (store_revoke env now db cref))"
proof (cases "store_revoke env now db cref")
  case (Pair db' r)
  then have "st_then (transact env db (update_row db cref (\<lambda>row. row\<lparr>cr_state := CredRevoked,
       cr_revoked_at := Some now, cr_updated_at := now\<rparr>)) StoreNotFound)
       (\<lambda>db' _. (db', store_show env db' cref)) = (db', r)" by (simp add: store_revoke_def)
  then show ?thesis
    using assms Pair store_wf_row [OF assms]
    by (cases rule: update_cases) (auto intro!: store_wf_update simp: row_wf_def)
qed

lemma store_delete_wf [inv_intros]:
  assumes "store_wf db"
  shows "store_wf (fst (store_delete env db cref))"
proof (cases "store_delete env db cref")
  case (Pair db' r)
  then show ?thesis
  proof (cases rule: delete_cases)
    case (deleted row)
    have "length (bt_remove cref (cdb_rows db)) \<le> length (cdb_rows db)" by (simp add: bt_remove_def)
    then show ?thesis using assms deleted Pair by (auto simp: store_wf_def btree_simps split: if_splits)
  qed (use assms Pair in simp)
qed

lemma open_wf:
  assumes "store_open env db = (db', Ok ())" and "cdb_meta db = None \<or> store_wf db"
  shows "store_wf db'"
  using assms
  by (auto simp: store_open_def store_configure_def ensure_schema_def sql_def result_simps store_wf_def
      bt_empty_def bt_sorted_def bt_get_def split: sum.splits if_splits option.splits list.splits)

end
