(* ===== verification/Apid.thy ===== *)
theory Apid
  imports Protected_Definitions Credential_Store Audit_Sink
begin

section \<open>The protected API daemon\<close>

text \<open>
  \<^verbatim>\<open>portus-apid/src/{authorizer,upstream,core}.rs\<close>: the policy check, the HTTPS execution of one
  operation and the two entry points of the credential broker. The HTTP client is third-party: the
  record \<open>HttpLib\<close> holds the functions used of it, and its connections act on a state of their own
  (\<open>'w\<close>). The core reaches its authorizer, upstream, audit sink, JSON codec, database engine and clock
  through the record \<open>ApidPorts\<close>; one request reads the clock once before and once after it acts,
  and the policy files do not change during it.
\<close>

subsection \<open>The policy check\<close>

definition policy_effect ::
  "IoEnv \<Rightarrow> PolicyCodec \<Rightarrow> Files \<Rightarrow> PolicyPaths \<Rightarrow> PolicyTrust \<Rightarrow> Principal \<Rightarrow> string \<Rightarrow> string
    \<Rightarrow> ProviderError + PolicyEffect" where
  "policy_effect env cd fs paths trust p cref operation =
     and_then (map_err (\<lambda>_. provider_error PecPermissionDenied ''protected API policy is unavailable'')
       (policy_load env cd fs paths trust)) (\<lambda>snapshot.
     and_then (policy_resource cref operation) (\<lambda>resource.
     and_then (map_err (\<lambda>_. provider_error PecPermissionDenied
         ''protected API policy rejected the operation context'')
       (evaluate snapshot p \<lparr>pc_action = POLICY_ACTION, pc_resource = Some resource\<rparr>)) (\<lambda>decision.
     Ok (pd_effect decision))))"

subsection \<open>The upstream request\<close>

record UpstreamRequest =
  uq_definition :: ProviderDefinition
  uq_operation :: string
  uq_body :: string
  uq_secret :: SecretMaterial

record UpstreamResponse =
  us_status :: u16
  us_body :: string

datatype SendError = SendTimeout | SendConnect | SendOther

record 'u HttpRequest =
  hq_method :: string
  hq_url :: 'u
  hq_header_name :: string
  hq_header_value :: string
  hq_content_type :: string
  hq_body :: string
  hq_timeout_ms :: nat
  hq_follow_redirects :: bool
  hq_https_only :: bool

record HttpResponse =
  hr_status :: u16
  hr_content_length :: "nat option"
  hr_received :: string
  hr_broken :: bool

record ('u, 'w) HttpLib =
  client_builds :: bool
  method_from_bytes :: "string \<Rightarrow> bool"
  header_name_from_bytes :: "string \<Rightarrow> bool"
  header_value_from_str :: "string \<Rightarrow> bool"
  http_send :: "'w \<Rightarrow> 'u HttpRequest \<Rightarrow> 'w \<times> (SendError + HttpResponse)"

fun send_error :: "SendError \<Rightarrow> ProviderError" where
  "send_error SendTimeout = provider_error PecTimeout ''protected upstream request timed out''"
| "send_error SendConnect = provider_error PecTlsError ''verified TLS upstream connection failed''"
| "send_error SendOther = provider_error PecUpstreamError ''protected upstream transport failed''"

definition status_in :: "nat \<Rightarrow> nat \<Rightarrow> u16 \<Rightarrow> bool" where
  "status_in lo hi s \<longleftrightarrow> lo \<le> unat s \<and> unat s < hi"

definition redirect_rejected :: "u16 \<Rightarrow> ProviderError" where
  "redirect_rejected s =
     with_upstream_status (provider_error PecRedirectRejected ''credential-bearing redirect was rejected'') s"

definition non_success :: "u16 \<Rightarrow> ProviderError" where
  "non_success s =
     with_upstream_status (provider_error PecUpstreamError ''protected upstream returned a non-success status'') s"

definition response_too_large :: ProviderError where
  "response_too_large =
     provider_error PecResponseTooLarge ''protected upstream response exceeds configured bound''"

definition read_bounded :: "nat \<Rightarrow> HttpResponse \<Rightarrow> ProviderError + string" where
  "read_bounded n r =
     (if n \<le> length (hr_received r) then Ok (take n (hr_received r))
      else if hr_broken r
      then Err (provider_error PecUpstreamError ''failed to read protected upstream response'')
      else Ok (hr_received r))"

definition https_build ::
  "'u UrlLib \<Rightarrow> ('u, 'w) HttpLib \<Rightarrow> UpstreamRequest \<Rightarrow> ProviderError + 'u HttpRequest" where
  "https_build lib http q =
     and_then (definition_operation (uq_definition q) (uq_operation q)) (\<lambda>oper.
     and_then (operation_url lib (uq_definition q) (uq_operation q)) (\<lambda>url.
     and_then (ensure (url_scheme lib url = ''https'')
       (provider_error PecTlsError ''protected upstream requires HTTPS'')) (\<lambda>_.
     and_then (ensure (client_builds http)
       (provider_error PecTlsError ''failed to construct verified TLS client'')) (\<lambda>_.
     and_then (ensure (method_from_bytes http (od_method oper))
       (provider_error PecProviderDefinitionInvalid ''provider HTTP method is invalid'')) (\<lambda>_.
     and_then (ensure (header_name_from_bytes http (au_header (df_authentication (uq_definition q))))
       (provider_error PecProviderDefinitionInvalid ''provider authentication header is invalid'')) (\<lambda>_.
     let auth = au_prefix (df_authentication (uq_definition q)) @ uq_secret q in
     and_then (ensure (header_value_from_str http auth)
       (provider_error PecProviderDefinitionInvalid ''provider authentication value is invalid'')) (\<lambda>_.
     Ok \<lparr>hq_method = od_method oper, hq_url = url,
         hq_header_name = au_header (df_authentication (uq_definition q)), hq_header_value = auth,
         hq_content_type = ''application/json'', hq_body = uq_body q,
         hq_timeout_ms = dl_timeout_ms (df_limits (uq_definition q)),
         hq_follow_redirects = False, hq_https_only = True\<rparr>)))))))"

definition https_receive :: "UpstreamRequest \<Rightarrow> HttpResponse \<Rightarrow> ProviderError + UpstreamResponse" where
  "https_receive q r =
     (let bound = dl_max_response_bytes (df_limits (uq_definition q)) in
      if status_in 300 400 (hr_status r) then Err (redirect_rejected (hr_status r))
      else if \<not> status_in 200 300 (hr_status r) then Err (non_success (hr_status r))
      else if (case hr_content_length r of None \<Rightarrow> False | Some n \<Rightarrow> bound < n) then Err response_too_large
      else and_then (read_bounded (bound + 1) r) (\<lambda>body.
        if bound < length body then Err response_too_large
        else Ok \<lparr>us_status = hr_status r, us_body = body\<rparr>))"

definition https_execute ::
  "'u UrlLib \<Rightarrow> ('u, 'w) HttpLib \<Rightarrow> 'w \<Rightarrow> UpstreamRequest \<Rightarrow> 'w \<times> (ProviderError + UpstreamResponse)" where
  "https_execute lib http w q =
     (case https_build lib http q of
        Inl e \<Rightarrow> (w, Err e)
      | Inr hq \<Rightarrow>
          (case http_send http w hq of
             (w', r) \<Rightarrow> (w', and_then (map_err send_error r) (https_receive q))))"

subsection \<open>Ports and state of the core\<close>

record ('w, 'k) ApidPorts =
  api_effect :: "Principal \<Rightarrow> string \<Rightarrow> string \<Rightarrow> ProviderError + PolicyEffect"
  api_upstream :: "'w \<Rightarrow> UpstreamRequest \<Rightarrow> 'w \<times> (ProviderError + UpstreamResponse)"
  api_record :: "'k \<Rightarrow> AuditRecord \<Rightarrow> 'k \<times> (AuditError + unit)"
  api_to_vec :: "json \<Rightarrow> string option"
  api_from_slice :: "string \<Rightarrow> json option"
  api_sql :: SqlEnv
  api_stamp :: string
  api_now_before :: int
  api_now_after :: int

record ('w, 'k) ProtectedApiCore =
  ac_store :: CredentialDb
  ac_poisoned :: bool
  ac_definitions :: DefinitionCatalog
  ac_world :: 'w
  ac_audit :: 'k
  ac_audit_failures :: u64

definition api_core_new :: "CredentialDb \<Rightarrow> DefinitionCatalog \<Rightarrow> 'w \<Rightarrow> 'k \<Rightarrow> ('w, 'k) ProtectedApiCore" where
  "api_core_new db defs upstream audit =
     \<lparr>ac_store = db, ac_poisoned = False, ac_definitions = defs, ac_world = upstream, ac_audit = audit,
      ac_audit_failures = 0\<rparr>"

definition api_internal :: ProviderError where
  "api_internal = provider_error PecInternal ''protected API service internal state is unavailable''"

definition lock_store :: "('w, 'k) ProtectedApiCore \<Rightarrow> ProviderError + CredentialDb" where
  "lock_store st = (if ac_poisoned st then Err api_internal else Ok (ac_store st))"

fun store_error :: "StoreError \<Rightarrow> ProviderError" where
  "store_error StoreNotFound =
     provider_error PecCredentialNotFound ''credential reference was not found''"
| "store_error StoreRevoked = provider_error PecCredentialRevoked ''credential is revoked''"
| "store_error (StoreInvalid m) = provider_error PecInvalidRequest ''credential mutation is invalid''"
| "store_error (StoreIncompatibleSchema v) =
     provider_error PecStoreUnavailable ''protected credential store is unavailable''"
| "store_error StoreSql =
     provider_error PecStoreUnavailable ''protected credential store is unavailable''"

fun api_outcome :: "ProviderError + ProviderSuccess \<Rightarrow> AuditResult" where
  "api_outcome (Inr _) = AuditSucceeded"
| "api_outcome (Inl e) =
     (case pe_code e of
        PecPermissionDenied \<Rightarrow> AuditDenied
      | PecApprovalRequired \<Rightarrow> AuditApprovalRequired
      | _ \<Rightarrow> AuditFailed)"

fun admin_action_name :: "AdminAction \<Rightarrow> string" where
  "admin_action_name (AdminProvision _ _ _ _) = ''credential.provision''"
| "admin_action_name (AdminRotate _ _) = ''credential.rotate''"
| "admin_action_name (AdminRevoke _) = ''credential.revoke''"
| "admin_action_name (AdminDelete _) = ''credential.delete''"
| "admin_action_name (AdminShow _) = ''credential.show''"
| "admin_action_name AdminList = ''credential.list''"

fun admin_action_target :: "AdminAction \<Rightarrow> string option" where
  "admin_action_target (AdminProvision cref _ _ _) = Some cref"
| "admin_action_target (AdminRotate cref _) = Some cref"
| "admin_action_target (AdminRevoke cref) = Some cref"
| "admin_action_target (AdminDelete cref) = Some cref"
| "admin_action_target (AdminShow cref) = Some cref"
| "admin_action_target AdminList = None"

subsection \<open>Auditing\<close>

definition preflight_record ::
  "int \<Rightarrow> Principal \<Rightarrow> RequestId \<Rightarrow> string \<Rightarrow> string option \<Rightarrow> AuditRecord" where
  "preflight_record now p i action target =
     (audit_record_new (audit_actor_principal p) DomainProtectedApi (action @ ''.preflight'')
        AuditSucceeded ''audit_ready'' now)\<lparr>ar_request_id := Some i, ar_target_ref := target\<rparr>"

definition require_audit_preflight ::
  "('w, 'k) ApidPorts \<Rightarrow> ('w, 'k) ProtectedApiCore \<Rightarrow> Principal \<Rightarrow> RequestId \<Rightarrow> string \<Rightarrow> string option
    \<Rightarrow> ('w, 'k) ProtectedApiCore \<times> (ProviderError + unit)" where
  "require_audit_preflight ports st p i action target =
     (case api_record ports (ac_audit st) (preflight_record (api_now_before ports) p i action target) of
        (k, r) \<Rightarrow> (st\<lparr>ac_audit := k\<rparr>,
          map_err (\<lambda>_. provider_error PecStoreUnavailable
            ''protected API audit sink is unavailable before security-sensitive operation'') r))"

definition completion_record ::
  "int \<Rightarrow> Principal \<Rightarrow> RequestId \<Rightarrow> string \<Rightarrow> string option \<Rightarrow> ProviderError + ProviderSuccess \<Rightarrow> AuditRecord" where
  "completion_record now p i action target res =
     (audit_record_new (audit_actor_principal p) DomainProtectedApi action (api_outcome res)
        (case res of Inl e \<Rightarrow> provider_error_code_as_str (pe_code e) | Inr _ \<Rightarrow> ''ok'') now)
     \<lparr>ar_request_id := Some i, ar_target_ref := target\<rparr>"

definition api_record_audit ::
  "('w, 'k) ApidPorts \<Rightarrow> ('w, 'k) ProtectedApiCore \<Rightarrow> AuditRecord \<Rightarrow> ('w, 'k) ProtectedApiCore" where
  "api_record_audit ports st r =
     (case api_record ports (ac_audit st) r of
        (k, Inr _) \<Rightarrow> st\<lparr>ac_audit := k\<rparr>
      | (k, Inl _) \<Rightarrow> st\<lparr>ac_audit := k, ac_audit_failures := ac_audit_failures st + 1\<rparr>)"

definition api_audit_use ::
  "('w, 'k) ApidPorts \<Rightarrow> ('w, 'k) ProtectedApiCore \<Rightarrow> Principal \<Rightarrow> RequestId \<Rightarrow> string \<Rightarrow> string
    \<Rightarrow> ProviderError + ProviderSuccess \<Rightarrow> ('w, 'k) ProtectedApiCore" where
  "api_audit_use ports st p i cref operation res =
     api_record_audit ports st (completion_record (api_now_after ports) p i ''protected-api.request''
       (Some (cref @ ''|'' @ operation)) res)"

definition api_audit_admin ::
  "('w, 'k) ApidPorts \<Rightarrow> ('w, 'k) ProtectedApiCore \<Rightarrow> Principal \<Rightarrow> RequestId \<Rightarrow> string \<Rightarrow> string option
    \<Rightarrow> ProviderError + ProviderSuccess \<Rightarrow> ('w, 'k) ProtectedApiCore" where
  "api_audit_admin ports st p i action target res =
     api_record_audit ports st (completion_record (api_now_after ports) p i action target res)"

subsection \<open>Using a credential\<close>

definition prepare_request ::
  "('w, 'k) ApidPorts \<Rightarrow> ('w, 'k) ProtectedApiCore \<Rightarrow> Principal \<Rightarrow> string \<Rightarrow> string \<Rightarrow> json
    \<Rightarrow> ProviderError + (CredentialMetadata \<times> ProviderDefinition \<times> string)" where
  "prepare_request ports st p cref operation payload =
     and_then (api_effect ports p cref operation) (\<lambda>effect.
     case effect of
       Reject \<Rightarrow> Err (provider_error PecPermissionDenied ''protected API policy rejects this operation'')
     | Prompt \<Rightarrow> Err (provider_error PecApprovalRequired
         ''protected API operation requires approval; no upstream request was sent'')
     | Allow \<Rightarrow>
         and_then (lock_store st) (\<lambda>db.
         and_then (map_err store_error (store_show (api_sql ports) db cref)) (\<lambda>metadata.
         and_then (ok_or (bt_get (ac_definitions st) (cm_provider_id metadata))
           (provider_error PecProviderDefinitionInvalid ''credential provider definition is unavailable'')) (\<lambda>defn.
         and_then (definition_operation defn operation) (\<lambda>oper.
         and_then (ok_or (api_to_vec ports payload)
           (provider_error PecInvalidRequest ''provider request payload is not valid JSON'')) (\<lambda>bytes.
         if dl_max_request_bytes (df_limits defn) < length bytes
         then Err (provider_error PecRequestTooLarge ''protected request exceeds provider bound'')
         else if od_streaming oper
         then Err (provider_error PecOperationNotAllowed ''streaming is not supported by protocol v1'')
         else Ok (metadata, defn, bytes)))))))"

definition accept_upstream ::
  "('w, 'k) ApidPorts \<Rightarrow> CredentialMetadata \<Rightarrow> ProviderDefinition \<Rightarrow> string \<Rightarrow> UpstreamResponse
    \<Rightarrow> ProviderError + ProviderSuccess" where
  "accept_upstream ports metadata defn operation r =
     (if status_in 300 400 (us_status r) then Err (redirect_rejected (us_status r))
      else if dl_max_response_bytes (df_limits defn) < length (us_body r) then Err response_too_large
      else if \<not> status_in 200 300 (us_status r) then Err (non_success (us_status r))
      else and_then (ok_or (api_from_slice ports (us_body r))
        (provider_error PecUpstreamError ''protected upstream success body is not JSON'')) (\<lambda>body.
        Ok (SuccessRequest (cm_provider_id metadata) operation (us_status r) body)))"

definition send_upstream ::
  "('w, 'k) ApidPorts \<Rightarrow> ('w, 'k) ProtectedApiCore \<Rightarrow> string \<Rightarrow> string
    \<Rightarrow> CredentialMetadata \<times> ProviderDefinition \<times> string
    \<Rightarrow> ('w, 'k) ProtectedApiCore \<times> (ProviderError + ProviderSuccess)" where
  "send_upstream ports st cref operation prepared =
     (case prepared of (metadata, defn, bytes) \<Rightarrow>
       (case and_then (lock_store st) (\<lambda>db. map_err store_error (load_secret (api_sql ports) db cref)) of
          Inl e \<Rightarrow> (st, Err e)
        | Inr secret \<Rightarrow>
            (case api_upstream ports (ac_world st) \<lparr>uq_definition = defn, uq_operation = operation,
                uq_body = bytes, uq_secret = secret\<rparr> of
               (w, r) \<Rightarrow> (st\<lparr>ac_world := w\<rparr>, and_then r (accept_upstream ports metadata defn operation)))))"

text \<open>
  A protected request takes the store lock twice: for the metadata, and, once the preflight record is
  written, for the secret. Requests of other connections get the lock in between. \<open>meanwhile\<close> is what
  they make of the store during that time.
\<close>

definition execute_request_amid ::
  "(CredentialDb \<Rightarrow> CredentialDb) \<Rightarrow> ('w, 'k) ApidPorts \<Rightarrow> ('w, 'k) ProtectedApiCore \<Rightarrow> Principal \<Rightarrow> RequestId
    \<Rightarrow> string \<Rightarrow> string \<Rightarrow> json \<Rightarrow> ('w, 'k) ProtectedApiCore \<times> (ProviderError + ProviderSuccess)" where
  "execute_request_amid meanwhile ports st p i cref operation payload =
     (case prepare_request ports st p cref operation payload of
        Inl e \<Rightarrow> (st, Err e)
      | Inr prepared \<Rightarrow>
          st_then (require_audit_preflight ports st p i ''protected-api.request''
            (Some (cref @ ''|'' @ operation))) (\<lambda>st' _.
          send_upstream ports (st'\<lparr>ac_store := meanwhile (ac_store st')\<rparr>) cref operation prepared))"

definition execute_request ::
  "('w, 'k) ApidPorts \<Rightarrow> ('w, 'k) ProtectedApiCore \<Rightarrow> Principal \<Rightarrow> RequestId \<Rightarrow> string \<Rightarrow> string \<Rightarrow> json
    \<Rightarrow> ('w, 'k) ProtectedApiCore \<times> (ProviderError + ProviderSuccess)" where
  "execute_request = execute_request_amid (\<lambda>db. db)"

definition can_discover ::
  "('w, 'k) ApidPorts \<Rightarrow> ('w, 'k) ProtectedApiCore \<Rightarrow> Principal \<Rightarrow> CredentialMetadata \<Rightarrow> bool" where
  "can_discover ports st p c =
     (case bt_get (ac_definitions st) (cm_provider_id c) of
        None \<Rightarrow> False
      | Some defn \<Rightarrow>
          list_ex (\<lambda>operation. api_effect ports p (cm_credential_ref c) operation = Ok Allow)
            (map fst (df_operations defn)))"

definition visible_credentials ::
  "('w, 'k) ApidPorts \<Rightarrow> ('w, 'k) ProtectedApiCore \<Rightarrow> Principal \<Rightarrow> ProviderError + CredentialMetadata list" where
  "visible_credentials ports st p =
     and_then (lock_store st) (\<lambda>db.
     and_then (map_err store_error (store_list (api_sql ports) db)) (\<lambda>all.
     Ok (filter (can_discover ports st p) all)))"

definition visible_credential ::
  "('w, 'k) ApidPorts \<Rightarrow> ('w, 'k) ProtectedApiCore \<Rightarrow> Principal \<Rightarrow> string \<Rightarrow> ProviderError + CredentialMetadata" where
  "visible_credential ports st p cref =
     and_then (lock_store st) (\<lambda>db.
     and_then (map_err store_error (store_show (api_sql ports) db cref)) (\<lambda>c.
     if can_discover ports st p c then Ok c
     else Err (provider_error PecCredentialNotFound ''credential reference is not visible to caller'')))"

definition api_health ::
  "('w, 'k) ApidPorts \<Rightarrow> ('w, 'k) ProtectedApiCore \<Rightarrow> Principal \<Rightarrow> ProviderError + ProviderSuccess" where
  "api_health ports st p =
     and_then (lock_store st) (\<lambda>db.
     and_then (map_err store_error (integrity_check (api_sql ports) db)) (\<lambda>integrity.
     and_then (visible_credentials ports st p) (\<lambda>visible.
     Ok (SuccessHealth
       (if integrity \<and> ac_definitions st \<noteq> [] then ''healthy'' else ''degraded'')
       (if \<not> integrity then ''store_integrity_failed''
        else if ac_definitions st = [] then ''no_provider_definitions'' else ''ready'')
       (length visible) (length (ac_definitions st)) (ac_audit_failures st)))))"

definition provider_result :: "RequestId \<Rightarrow> ProviderError + ProviderSuccess \<Rightarrow> ProviderResponse" where
  "provider_result i res = (case res of Inr v \<Rightarrow> provider_success i v | Inl e \<Rightarrow> provider_failure i e)"

definition api_use_action_amid ::
  "(CredentialDb \<Rightarrow> CredentialDb) \<Rightarrow> ('w, 'k) ApidPorts \<Rightarrow> ('w, 'k) ProtectedApiCore \<Rightarrow> Principal \<Rightarrow> RequestId \<Rightarrow> UseAction
    \<Rightarrow> ('w, 'k) ProtectedApiCore \<times> (ProviderError + ProviderSuccess)" where
  "api_use_action_amid meanwhile ports st p i action =
     (case action of
        UseCredentialList \<Rightarrow>
          (st, and_then (visible_credentials ports st p) (\<lambda>cs. Ok (SuccessCredentialList cs)))
      | UseCredentialShow cref \<Rightarrow>
          (st, and_then (visible_credential ports st p cref) (\<lambda>c. Ok (SuccessCredentialShow c)))
      | UseApiRequest cref operation payload \<Rightarrow>
          (case execute_request_amid meanwhile ports st p i cref operation payload of
             (st', res) \<Rightarrow> (api_audit_use ports st' p i cref operation res, res))
      | UseHealth \<Rightarrow> (st, api_health ports st p))"

definition api_use_action ::
  "('w, 'k) ApidPorts \<Rightarrow> ('w, 'k) ProtectedApiCore \<Rightarrow> Principal \<Rightarrow> RequestId \<Rightarrow> UseAction
    \<Rightarrow> ('w, 'k) ProtectedApiCore \<times> (ProviderError + ProviderSuccess)" where
  "api_use_action = api_use_action_amid (\<lambda>db. db)"

definition api_dispatch_use_amid ::
  "(CredentialDb \<Rightarrow> CredentialDb) \<Rightarrow> ('w, 'k) ApidPorts \<Rightarrow> ('w, 'k) ProtectedApiCore \<Rightarrow> Principal \<Rightarrow> UseRequest
    \<Rightarrow> ('w, 'k) ProtectedApiCore \<times> ProviderResponse" where
  "api_dispatch_use_amid meanwhile ports st p rq =
     (case use_into_action rq of
        Inl e \<Rightarrow> (st, provider_failure (ur_request_id rq) e)
      | Inr action \<Rightarrow>
          (case api_use_action_amid meanwhile ports st p (ur_request_id rq) action of
             (st', res) \<Rightarrow> (st', provider_result (ur_request_id rq) res)))"

definition api_dispatch_use ::
  "('w, 'k) ApidPorts \<Rightarrow> ('w, 'k) ProtectedApiCore \<Rightarrow> Principal \<Rightarrow> UseRequest
    \<Rightarrow> ('w, 'k) ProtectedApiCore \<times> ProviderResponse" where
  "api_dispatch_use = api_dispatch_use_amid (\<lambda>db. db)"

subsection \<open>Administering credentials\<close>

definition with_store ::
  "('w, 'k) ProtectedApiCore \<Rightarrow> (CredentialDb \<Rightarrow> CredentialDb \<times> (StoreError + 'a))
    \<Rightarrow> ('w, 'k) ProtectedApiCore \<times> (ProviderError + 'a)" where
  "with_store st f =
     (case lock_store st of
        Inl e \<Rightarrow> (st, Err e)
      | Inr db \<Rightarrow> (case f db of (db', r) \<Rightarrow> (st\<lparr>ac_store := db'\<rparr>, map_err store_error r)))"

definition api_admin_action ::
  "('w, 'k) ApidPorts \<Rightarrow> ('w, 'k) ProtectedApiCore \<Rightarrow> Principal \<Rightarrow> RequestId \<Rightarrow> AdminAction
    \<Rightarrow> ('w, 'k) ProtectedApiCore \<times> (ProviderError + ProviderSuccess)" where
  "api_admin_action ports st p i action =
     (let audited = (\<lambda>cref f. st_then (require_audit_preflight ports st p i (admin_action_name action)
            (Some cref)) (\<lambda>st' _. with_store st' f));
          mutated = (\<lambda>st' c. (st', Ok (SuccessCredentialMutation c)))
      in case action of
        AdminProvision cref prov label secret \<Rightarrow>
          if bt_get (ac_definitions st) prov = None
          then (st, Err (provider_error PecProviderDefinitionInvalid
            ''credential provider definition is unavailable''))
          else st_then (audited cref (\<lambda>db.
            store_provision (api_sql ports) (api_stamp ports) db cref prov label secret)) mutated
      | AdminRotate cref secret \<Rightarrow>
          st_then (audited cref (\<lambda>db. store_rotate (api_sql ports) (api_stamp ports) db cref secret)) mutated
      | AdminRevoke cref \<Rightarrow>
          st_then (audited cref (\<lambda>db. store_revoke (api_sql ports) (api_stamp ports) db cref)) mutated
      | AdminDelete cref \<Rightarrow>
          st_then (st_then (require_audit_preflight ports st p i (admin_action_name action) (Some cref))
            (\<lambda>st' _. with_store st' (\<lambda>db. store_delete (api_sql ports) db cref)))
            (\<lambda>st' _. (st', Ok (SuccessCredentialDeleted cref)))
      | AdminShow cref \<Rightarrow>
          (st, and_then (lock_store st) (\<lambda>db.
            and_then (map_err store_error (store_show (api_sql ports) db cref)) (\<lambda>c.
            Ok (SuccessCredentialShow c))))
      | AdminList \<Rightarrow>
          (st, and_then (lock_store st) (\<lambda>db.
            and_then (map_err store_error (store_list (api_sql ports) db)) (\<lambda>cs.
            Ok (SuccessCredentialList cs)))))"

definition api_admin_denied :: ProviderError where
  "api_admin_denied = provider_error PecPermissionDenied
     ''protected credential administration requires authenticated UID 0''"

definition api_dispatch_admin ::
  "('w, 'k) ApidPorts \<Rightarrow> ('w, 'k) ProtectedApiCore \<Rightarrow> Principal \<Rightarrow> AdminRequest
    \<Rightarrow> ('w, 'k) ProtectedApiCore \<times> ProviderResponse" where
  "api_dispatch_admin ports st p rq =
     (case admin_into_action rq of
        Inl e \<Rightarrow> (st, provider_failure (aq_request_id rq) e)
      | Inr action \<Rightarrow>
          let i = aq_request_id rq;
              name = admin_action_name action;
              target = admin_action_target action
          in if uid p \<noteq> 0 then
               (api_audit_admin ports st p i name target (Err api_admin_denied),
                provider_failure i api_admin_denied)
             else
               (case api_admin_action ports st p i action of
                  (st', res) \<Rightarrow> (api_audit_admin ports st' p i name target res, provider_result i res)))"

end
