(* ===== verification/Apid_Properties.thy ===== *)
theory Apid_Properties
  imports Apid Policy_Store_Properties
begin

section \<open>Properties of the protected API daemon\<close>

text \<open>
  What the broker guarantees about the credentials it holds: when one is used and where it is sent,
  who may change it and how, and that nothing it answers or records depends on the secret itself.
\<close>

subsection \<open>What auditing touches\<close>

lemma api_record_audit_frame [simp]:
  "ac_store (api_record_audit ports st r) = ac_store st"
  "ac_world (api_record_audit ports st r) = ac_world st"
  "ac_definitions (api_record_audit ports st r) = ac_definitions st"
  "ac_poisoned (api_record_audit ports st r) = ac_poisoned st"
  by (simp_all add: api_record_audit_def split: prod.split sum.split)

lemma api_audit_frame [simp]:
  "ac_store (api_audit_use ports st p i cref operation res) = ac_store st"
  "ac_world (api_audit_use ports st p i cref operation res) = ac_world st"
  "ac_definitions (api_audit_use ports st p i cref operation res) = ac_definitions st"
  "ac_store (api_audit_admin ports st p i action target res) = ac_store st"
  "ac_world (api_audit_admin ports st p i action target res) = ac_world st"
  "ac_definitions (api_audit_admin ports st p i action target res) = ac_definitions st"
  by (simp_all add: api_audit_use_def api_audit_admin_def)

lemma preflight_cases:
  assumes "require_audit_preflight ports st p i action target = (st', r)"
  shows "\<exists>k x. api_record ports (ac_audit st) (preflight_record (api_now_before ports) p i action target) = (k, x)
    \<and> st' = st\<lparr>ac_audit := k\<rparr> \<and> (r = Ok () \<longleftrightarrow> x = Ok ())"
  using assms by (cases "snd (api_record ports (ac_audit st)
      (preflight_record (api_now_before ports) p i action target))")
    (auto simp: require_audit_preflight_def split: prod.splits)

definition audited_before ::
  "('w, 'k) ApidPorts \<Rightarrow> ('w, 'k) ProtectedApiCore \<Rightarrow> Principal \<Rightarrow> RequestId \<Rightarrow> string \<Rightarrow> string \<Rightarrow> bool" where
  "audited_before ports st p i action target \<longleftrightarrow>
     snd (api_record ports (ac_audit st) (preflight_record (api_now_before ports) p i action (Some target)))
     = Ok ()"

subsection \<open>Sending a credential upstream\<close>

text \<open>
  What has to hold of the store \<open>ac_store st\<close> at the first lock and of the store \<open>later\<close> at the second
  when \<open>q\<close> is handed to the network.
\<close>

definition may_send ::
  "('w, 'k) ApidPorts \<Rightarrow> ('w, 'k) ProtectedApiCore \<Rightarrow> CredentialDb \<Rightarrow> Principal \<Rightarrow> RequestId \<Rightarrow> string \<Rightarrow> string
    \<Rightarrow> json \<Rightarrow> UpstreamRequest \<Rightarrow> bool" where
  "may_send ports st later p i cref operation payload q \<longleftrightarrow>
     api_effect ports p cref operation = Ok Allow
   \<and> (\<exists>shown. row_at (ac_store st) cref = Some shown
        \<and> bt_get (ac_definitions st) (cr_provider_id shown) = Some (uq_definition q))
   \<and> (\<exists>row. row_at later cref = Some row \<and> cr_state row = CredActive \<and> uq_secret q = cr_secret row)
   \<and> uq_operation q = operation
   \<and> (\<exists>oper. bt_get (df_operations (uq_definition q)) operation = Some oper \<and> \<not> od_streaming oper)
   \<and> api_to_vec ports payload = Some (uq_body q)
   \<and> length (uq_body q) \<le> dl_max_request_bytes (df_limits (uq_definition q))
   \<and> audited_before ports st p i ''protected-api.request'' (cref @ ''|'' @ operation)"

lemma prepare_request_Ok:
  assumes "prepare_request ports st p cref operation payload = Ok (metadata, defn, bytes)"
  shows "api_effect ports p cref operation = Ok Allow" "\<not> ac_poisoned st"
    "\<exists>row. row_at (ac_store st) cref = Some row \<and> cm_provider_id metadata = cr_provider_id row"
    "bt_get (ac_definitions st) (cm_provider_id metadata) = Some defn"
    "\<exists>oper. bt_get (df_operations defn) operation = Some oper \<and> \<not> od_streaming oper"
    "api_to_vec ports payload = Some bytes" "length bytes \<le> dl_max_request_bytes (df_limits defn)"
proof -
  obtain effect where eff: "api_effect ports p cref operation = Ok effect"
    using assms by (auto simp: prepare_request_def and_then_eq_Ok)
  then have allow: "effect = Allow" using assms by (cases effect) (simp_all add: prepare_request_def)
  show "api_effect ports p cref operation = Ok Allow" using eff allow by simp
  show "\<not> ac_poisoned st"
    "\<exists>row. row_at (ac_store st) cref = Some row \<and> cm_provider_id metadata = cr_provider_id row"
    "bt_get (ac_definitions st) (cm_provider_id metadata) = Some defn"
    "\<exists>oper. bt_get (df_operations defn) operation = Some oper \<and> \<not> od_streaming oper"
    "api_to_vec ports payload = Some bytes" "length bytes \<le> dl_max_request_bytes (df_limits defn)"
    using assms eff allow
    by (auto simp: prepare_request_def result_simps lock_store_def store_show_def metadata_from_row_def
        definition_operation_def row_at_def split: if_splits)
qed

lemma load_secret_Ok:
  "load_secret env db cref = Ok s \<longleftrightarrow> \<not> sql_fails env SqlSecret \<and>
     (\<exists>row. row_at db cref = Some row \<and> cr_state row = CredActive \<and> secret_wf (cr_secret row) \<and> s = cr_secret row)"
proof (cases "bt_get (cdb_rows db) cref")
  case None
  then show ?thesis by (simp add: load_secret_def row_at_def sql_def ensure_def)
next
  case (Some row)
  have new: "map_err StoreInvalid (secret_new (cr_secret row)) = Ok s
      \<longleftrightarrow> secret_new (cr_secret row) = Ok (cr_secret row) \<and> s = cr_secret row"
    by (auto simp: secret_new_def)
  show ?thesis
    using Some new
    by (cases "cr_state row") (auto simp: load_secret_def row_at_def sql_def ensure_def secret_wf_def)
qed

lemma send_upstream_world:
  assumes "send_upstream ports st cref operation (metadata, defn, bytes) = (st', res)"
  shows "st' = st \<and> (\<exists>e. res = Err e)
    \<or> (\<exists>row. row_at (ac_store st) cref = Some row \<and> cr_state row = CredActive
        \<and> st' = st\<lparr>ac_world := fst (api_upstream ports (ac_world st) \<lparr>uq_definition = defn,
            uq_operation = operation, uq_body = bytes, uq_secret = cr_secret row\<rparr>)\<rparr>)"
  using assms
  by (auto simp: send_upstream_def load_secret_Ok result_simps lock_store_def
      split: sum.splits prod.splits if_splits)

text \<open>A request that no other one overlaps: the store is the same at both locks.\<close>

lemma same_store: "(st :: ('w, 'k) ProtectedApiCore)\<lparr>ac_store := ac_store st\<rparr> = st"
  by simp

lemma execute_request_alone:
  "execute_request ports st p i cref operation payload =
     (case prepare_request ports st p cref operation payload of
        Inl e \<Rightarrow> (st, Err e)
      | Inr prepared \<Rightarrow>
          st_then (require_audit_preflight ports st p i ''protected-api.request''
            (Some (cref @ ''|'' @ operation))) (\<lambda>st' _. send_upstream ports st' cref operation prepared))"
  unfolding execute_request_def execute_request_amid_def same_store ..

lemma api_dispatch_use_alone:
  "api_dispatch_use ports st p rq =
     (case use_into_action rq of
        Inl e \<Rightarrow> (st, provider_failure (ur_request_id rq) e)
      | Inr action \<Rightarrow>
          (case api_use_action ports st p (ur_request_id rq) action of
             (st', res) \<Rightarrow> (st', provider_result (ur_request_id rq) res)))"
  unfolding api_dispatch_use_def api_dispatch_use_amid_def api_use_action_def ..

lemma api_use_action_alone:
  "api_use_action ports st p i action =
     (case action of
        UseCredentialList \<Rightarrow>
          (st, and_then (visible_credentials ports st p) (\<lambda>cs. Ok (SuccessCredentialList cs)))
      | UseCredentialShow cref \<Rightarrow>
          (st, and_then (visible_credential ports st p cref) (\<lambda>c. Ok (SuccessCredentialShow c)))
      | UseApiRequest cref operation payload \<Rightarrow>
          (case execute_request ports st p i cref operation payload of
             (st', res) \<Rightarrow> (api_audit_use ports st' p i cref operation res, res))
      | UseHealth \<Rightarrow> (st, api_health ports st p))"
  unfolding api_use_action_def api_use_action_amid_def execute_request_def ..

lemma execute_request_amid_world:
  assumes "execute_request_amid meanwhile ports st p i cref operation payload = (st', res)"
  shows "ac_definitions st' = ac_definitions st
    \<and> ac_store st' \<in> {ac_store st, meanwhile (ac_store st)}
    \<and> ((ac_world st' = ac_world st \<and> (\<exists>e. res = Err e))
      \<or> (\<exists>q. may_send ports st (meanwhile (ac_store st)) p i cref operation payload q
            \<and> ac_world st' = fst (api_upstream ports (ac_world st) q)))"
proof (cases "prepare_request ports st p cref operation payload")
  case (Inl e)
  with assms show ?thesis by (auto simp: execute_request_amid_def)
next
  case (Inr prepared)
  obtain metadata defn bytes where prepared: "prepared = (metadata, defn, bytes)" by (cases prepared)
  note prep = prepare_request_Ok [OF Inr [unfolded prepared]]
  obtain st1 r1 where pre: "require_audit_preflight ports st p i ''protected-api.request''
      (Some (cref @ ''|'' @ operation)) = (st1, r1)" by fastforce
  from preflight_cases [OF this] obtain k where st1: "st1 = st\<lparr>ac_audit := k\<rparr>"
    and audited: "r1 = Ok () \<longleftrightarrow> audited_before ports st p i ''protected-api.request'' (cref @ ''|'' @ operation)"
    by (auto simp: audited_before_def)
  show ?thesis
  proof (cases r1)
    case (Inl e)
    with assms Inr pre st1 show ?thesis by (auto simp: execute_request_amid_def)
  next
    case r1: (Inr u)
    let ?st2 = "st1\<lparr>ac_store := meanwhile (ac_store st)\<rparr>"
    from r1 assms Inr pre st1 have "send_upstream ports ?st2 cref operation (metadata, defn, bytes) = (st', res)"
      by (simp add: execute_request_amid_def prepared)
    from send_upstream_world [OF this] show ?thesis
    proof
      assume "st' = ?st2 \<and> (\<exists>e. res = Err e)"
      with st1 show ?thesis by simp
    next
      assume "\<exists>row. row_at (ac_store ?st2) cref = Some row \<and> cr_state row = CredActive
        \<and> st' = ?st2\<lparr>ac_world := fst (api_upstream ports (ac_world ?st2) \<lparr>uq_definition = defn,
            uq_operation = operation, uq_body = bytes, uq_secret = cr_secret row\<rparr>)\<rparr>"
      then obtain row where row: "row_at (meanwhile (ac_store st)) cref = Some row" "cr_state row = CredActive"
        and st': "st' = ?st2\<lparr>ac_world := fst (api_upstream ports (ac_world st) \<lparr>uq_definition = defn,
            uq_operation = operation, uq_body = bytes, uq_secret = cr_secret row\<rparr>)\<rparr>"
        using st1 by auto
      have "may_send ports st (meanwhile (ac_store st)) p i cref operation payload \<lparr>uq_definition = defn,
            uq_operation = operation, uq_body = bytes, uq_secret = cr_secret row\<rparr>"
        using prep row audited r1 by (auto simp: may_send_def)
      with st' st1 show ?thesis by auto
    qed
  qed
qed

lemma api_dispatch_use_amid_world:
  assumes "api_dispatch_use_amid meanwhile ports st p rq = (st', resp)"
  shows "ac_definitions st' = ac_definitions st
    \<and> ac_store st' \<in> {ac_store st, meanwhile (ac_store st)}
    \<and> (ac_world st' = ac_world st
      \<or> (\<exists>cref operation payload q. use_into_action rq = Ok (UseApiRequest cref operation payload)
            \<and> may_send ports st (meanwhile (ac_store st)) p (ur_request_id rq) cref operation payload q
            \<and> ac_world st' = fst (api_upstream ports (ac_world st) q)))"
proof (cases "use_into_action rq")
  case (Inl e)
  with assms show ?thesis by (simp add: api_dispatch_use_amid_def)
next
  case (Inr action)
  show ?thesis
  proof (cases "\<exists>cref operation payload. action = UseApiRequest cref operation payload")
    case True
    then obtain cref operation payload where a: "action = UseApiRequest cref operation payload" by blast
    obtain st1 res where ex: "execute_request_amid meanwhile ports st p (ur_request_id rq) cref operation payload
        = (st1, res)" by fastforce
    from assms Inr a ex have "st' = api_audit_use ports st1 p (ur_request_id rq) cref operation res"
      by (simp add: api_dispatch_use_amid_def api_use_action_amid_def)
    with execute_request_amid_world [OF ex] Inr a show ?thesis by auto
  next
    case False
    with assms Inr show ?thesis
      by (cases action) (auto simp: api_dispatch_use_amid_def api_use_action_amid_def)
  qed
qed

lemmas execute_request_world =
  execute_request_amid_world [where meanwhile = "\<lambda>db. db", folded execute_request_def]

lemmas api_dispatch_use_world =
  api_dispatch_use_amid_world [where meanwhile = "\<lambda>db. db", folded api_dispatch_use_def]

lemma https_build_Ok:
  assumes "https_build lib http q = Ok hq" and "validate_definition lib (uq_definition q) = Ok ()"
  obtains oper origin where "bt_get (df_operations (uq_definition q)) (uq_operation q) = Some oper"
    "url_parse lib (df_origin (uq_definition q)) = Some origin" "bare_https_origin lib origin"
    "url_join lib origin (od_path oper) = Some (hq_url hq)" "url_scheme lib (hq_url hq) = ''https''"
    "hq_header_value hq = au_prefix (df_authentication (uq_definition q)) @ uq_secret q"
    "to_ascii_lowercase (hq_header_name hq) = ''authorization''"
    "hq_body hq = uq_body q" "\<not> hq_follow_redirects hq" "hq_https_only hq"
proof -
  obtain origin where origin: "url_parse lib (df_origin (uq_definition q)) = Some origin"
    "bare_https_origin lib origin" and bearer: "bounded_bearer (df_authentication (uq_definition q))"
    using assms(2) by (rule validate_definition_Ok)
  obtain oper where "bt_get (df_operations (uq_definition q)) (uq_operation q) = Some oper"
    "url_join lib origin (od_path oper) = Some (hq_url hq)" "url_scheme lib (hq_url hq) = ''https''"
    "hq_header_value hq = au_prefix (df_authentication (uq_definition q)) @ uq_secret q"
    "hq_header_name hq = au_header (df_authentication (uq_definition q))"
    "hq_body hq = uq_body q" "\<not> hq_follow_redirects hq" "hq_https_only hq"
    using assms(1) origin(1)
    by (auto simp: https_build_def operation_url_def definition_operation_def result_simps Let_def)
  then show ?thesis using origin bearer that by (auto simp: bounded_bearer_def)
qed

lemma https_execute_world:
  assumes "fst (https_execute lib http w q) \<noteq> w"
  shows "\<exists>hq. https_build lib http q = Ok hq \<and> fst (https_execute lib http w q) = fst (http_send http w hq)"
  using assms by (auto simp: https_execute_def split: sum.splits prod.splits)

lemma policy_effect_allow:
  assumes "policy_effect env cd fs paths trust p cref operation = Ok Allow"
  shows "\<exists>snapshot decision. policy_load env cd fs paths trust = Ok snapshot
    \<and> evaluate snapshot p \<lparr>pc_action = POLICY_ACTION, pc_resource = Some (cref @ ''|'' @ operation)\<rparr> = Ok decision
    \<and> pd_effect decision = Allow"
  using assms by (auto simp: policy_effect_def policy_resource_def result_simps Let_def invalid_api_def
      split: if_splits)

subsection \<open>The life of a credential\<close>

text \<open>
  The abstract state of one credential reference: absent, or held with a generation, whether it may be
  used, and its secret. \<open>life a c h h'\<close> says how the administrator's action \<open>a\<close> may move credential
  \<open>c\<close> from \<open>h\<close> to \<open>h'\<close>.
\<close>

datatype held = Absent | Held nat bool string

definition held_row :: "CredentialRow option \<Rightarrow> held" where
  "held_row r =
     (case r of
        None \<Rightarrow> Absent
      | Some row \<Rightarrow> Held (cr_generation row) (cr_state row = CredActive) (cr_secret row))"

definition held_at :: "CredentialDb \<Rightarrow> string \<Rightarrow> held" where
  "held_at db cref = held_row (row_at db cref)"

fun life :: "AdminAction \<Rightarrow> string \<Rightarrow> held \<Rightarrow> held \<Rightarrow> bool" where
  "life (AdminProvision cref prov label s) c Absent h' \<longleftrightarrow> c = cref \<and> h' = Held 1 True s"
| "life (AdminRotate cref s) c (Held n act old) h' \<longleftrightarrow> c = cref \<and> h' = Held (n + 1) True s"
| "life (AdminRevoke cref) c (Held n act s) h' \<longleftrightarrow> c = cref \<and> h' = Held n False s"
| "life (AdminDelete cref) c (Held n act s) h' \<longleftrightarrow> c = cref \<and> h' = Absent"
| "life _ _ _ _ \<longleftrightarrow> False"

fun touches :: "AdminAction \<Rightarrow> bool" where
  "touches (AdminShow _) = False"
| "touches AdminList = False"
| "touches _ = True"

lemma row_at_update [simp]:
  "row_at (db\<lparr>cdb_rows := bt_insert cref row (cdb_rows db)\<rparr>) c = (if c = cref then Some row else row_at db c)"
  if "bt_sorted (cdb_rows db)"
  using that by (simp add: row_at_def btree_simps)

lemma row_at_remove [simp]:
  "row_at (db\<lparr>cdb_rows := bt_remove cref (cdb_rows db)\<rparr>) c = (if c = cref then None else row_at db c)"
  by (simp add: row_at_def btree_simps)

text \<open>One call on the store: what it leaves behind, and what its success means.\<close>

definition store_action ::
  "SqlEnv \<Rightarrow> string \<Rightarrow> CredentialDb \<Rightarrow> AdminAction \<Rightarrow> CredentialDb \<times> bool" where
  "store_action env now db a =
     (case a of
        AdminProvision cref prov label s \<Rightarrow>
          (case store_provision env now db cref prov label s of (db', r) \<Rightarrow> (db', is_ok r))
      | AdminRotate cref s \<Rightarrow> (case store_rotate env now db cref s of (db', r) \<Rightarrow> (db', is_ok r))
      | AdminRevoke cref \<Rightarrow> (case store_revoke env now db cref of (db', r) \<Rightarrow> (db', is_ok r))
      | AdminDelete cref \<Rightarrow> (case store_delete env db cref of (db', r) \<Rightarrow> (db', is_ok r))
      | _ \<Rightarrow> (db, True))"

definition follows_life :: "AdminAction \<Rightarrow> CredentialDb \<Rightarrow> CredentialDb \<Rightarrow> bool \<Rightarrow> bool" where
  "follows_life a db db' done \<longleftrightarrow>
     (\<forall>c. held_at db' c = held_at db c \<or> life a c (held_at db c) (held_at db' c))
   \<and> (done \<and> touches a \<longrightarrow>
        (\<exists>cref. admin_action_target a = Some cref \<and> life a cref (held_at db cref) (held_at db' cref)))"

lemma follows_life_kept: "follows_life a db db False"
  by (simp add: follows_life_def)

lemma provision_life:
  assumes "store_provision env now db cref prov label s = (db', r)" and "bt_sorted (cdb_rows db)"
  shows "follows_life (AdminProvision cref prov label s) db db' (is_ok r)"
  using assms(1)
proof (cases rule: provision_cases)
  case kept
  then show ?thesis by (auto simp: is_ok_def follows_life_kept)
next
  case created
  then show ?thesis
    using assms(2) by (auto simp: follows_life_def held_at_def held_row_def fresh_row_def)
qed

lemma update_life:
  assumes "st_then (transact env db (update_row db cref f) StoreNotFound)
      (\<lambda>db' _. (db', store_show env db' cref)) = (db', r)"
    and "bt_sorted (cdb_rows db)" and "admin_action_target a = Some cref"
    and "\<And>row. life a cref (held_row (Some row)) (held_row (Some (f row)))"
  shows "follows_life a db db' (is_ok r)"
  using assms(1)
proof (cases rule: update_cases)
  case kept
  then show ?thesis by (auto simp: is_ok_def follows_life_kept)
next
  case (updated row)
  have "held_at db' c = (if c = cref then held_row (Some (f row)) else held_at db c)" for c
    using updated(2) assms(2) by (simp add: held_at_def)
  moreover have "held_at db cref = held_row (Some row)" using updated(1) by (simp add: held_at_def)
  ultimately show ?thesis
    using assms(3) assms(4) [of row] by (auto simp: follows_life_def)
qed

lemma rotate_life:
  assumes "store_rotate env now db cref s = (db', r)" and "bt_sorted (cdb_rows db)"
  shows "follows_life (AdminRotate cref s) db db' (is_ok r)"
  by (rule update_life [OF assms(1) [unfolded store_rotate_def] assms(2)]) (simp_all add: held_row_def)

lemma revoke_life:
  assumes "store_revoke env now db cref = (db', r)" and "bt_sorted (cdb_rows db)"
  shows "follows_life (AdminRevoke cref) db db' (is_ok r)"
  by (rule update_life [OF assms(1) [unfolded store_revoke_def] assms(2)]) (simp_all add: held_row_def)

lemma delete_life:
  assumes "store_delete env db cref = (db', r)"
  shows "follows_life (AdminDelete cref) db db' (is_ok r)"
  using assms
proof (cases rule: delete_cases)
  case kept
  then show ?thesis by (auto simp: is_ok_def follows_life_kept)
next
  case (deleted row)
  then show ?thesis by (auto simp: follows_life_def held_at_def held_row_def)
qed

lemma store_action_life:
  assumes "store_action env now db a = (db', done)" and "bt_sorted (cdb_rows db)"
  shows "follows_life a db db' done"
  using assms
  by (cases a)
     (auto simp: store_action_def follows_life_def [of "AdminShow _"] follows_life_def [of AdminList]
        split: prod.splits intro: provision_life rotate_life revoke_life delete_life)

definition action_secret_wf :: "AdminAction \<Rightarrow> bool" where
  "action_secret_wf a =
     (case a of AdminProvision _ _ _ s \<Rightarrow> secret_wf s | AdminRotate _ s \<Rightarrow> secret_wf s | _ \<Rightarrow> True)"

lemma store_action_wf:
  assumes "store_wf db" and "action_secret_wf a"
  shows "store_wf (fst (store_action env now db a))"
  using assms store_provision_wf [OF assms(1)] store_rotate_wf [OF assms(1)] store_revoke_wf [OF assms(1)] store_delete_wf [OF assms(1)]
  by (cases a) (simp_all add: store_action_def action_secret_wf_def case_prod_beta)

subsection \<open>Where a secret goes\<close>

text \<open>What the other connections do to the store between two locks: calls on the store, one by one.\<close>

fun store_actions :: "(SqlEnv \<times> string \<times> AdminAction) list \<Rightarrow> CredentialDb \<Rightarrow> CredentialDb" where
  "store_actions [] db = db"
| "store_actions ((env, now, a) # others) db = store_actions others (fst (store_action env now db a))"

lemma store_action_provider:
  assumes "store_action env now db a = (db', done)" and "bt_sorted (cdb_rows db)"
  shows "bt_sorted (cdb_rows db')"
    and "row_at db cref = Some row \<Longrightarrow> a \<noteq> AdminDelete cref \<Longrightarrow>
      \<exists>row'. row_at db' cref = Some row' \<and> cr_provider_id row' = cr_provider_id row"
proof -
  have "bt_sorted (cdb_rows db') \<and> (row_at db cref = Some row \<and> a \<noteq> AdminDelete cref \<longrightarrow>
      (\<exists>row'. row_at db' cref = Some row' \<and> cr_provider_id row' = cr_provider_id row))"
  proof (cases a)
    case (AdminProvision c prov label s)
    then obtain r where "store_provision env now db c prov label s = (db', r)"
      using assms(1) by (auto simp: store_action_def split: prod.splits)
    then show ?thesis
      by (cases rule: provision_cases) (use assms(2) in \<open>auto simp: btree_simps\<close>)
  next
    case (AdminRotate c s)
    then obtain r where "store_rotate env now db c s = (db', r)"
      using assms(1) by (auto simp: store_action_def split: prod.splits)
    then show ?thesis
      unfolding store_rotate_def by (cases rule: update_cases) (use assms(2) in \<open>auto simp: btree_simps\<close>)
  next
    case (AdminRevoke c)
    then obtain r where "store_revoke env now db c = (db', r)"
      using assms(1) by (auto simp: store_action_def split: prod.splits)
    then show ?thesis
      unfolding store_revoke_def by (cases rule: update_cases) (use assms(2) in \<open>auto simp: btree_simps\<close>)
  next
    case (AdminDelete c)
    then obtain r where "store_delete env db c = (db', r)"
      using assms(1) by (auto simp: store_action_def split: prod.splits)
    then show ?thesis
      by (cases rule: delete_cases) (use assms(2) AdminDelete in \<open>auto simp: btree_simps\<close>)
  qed (use assms in \<open>auto simp: store_action_def\<close>)
  then show "bt_sorted (cdb_rows db')"
    and "row_at db cref = Some row \<Longrightarrow> a \<noteq> AdminDelete cref \<Longrightarrow>
      \<exists>row'. row_at db' cref = Some row' \<and> cr_provider_id row' = cr_provider_id row"
    by simp_all
qed

lemma store_actions_provider:
  assumes "bt_sorted (cdb_rows db)" and "row_at db cref = Some row"
    and "AdminDelete cref \<notin> (snd \<circ> snd) ` set others"
  shows "\<exists>row'. row_at (store_actions others db) cref = Some row' \<and> cr_provider_id row' = cr_provider_id row"
  using assms
proof (induction others db arbitrary: row rule: store_actions.induct)
  case (2 env now a others db)
  obtain db' d where act: "store_action env now db a = (db', d)" by fastforce
  from store_action_provider(2) [OF act 2(2,3)] 2(4) obtain row'
    where "row_at db' cref = Some row'" "cr_provider_id row' = cr_provider_id row" by auto
  with 2(1) [of row'] store_action_provider(1) [OF act 2(2)] 2(4) act show ?case by auto
qed simp

text \<open>
  \<open>Url::join\<close> with a path that starts with one slash and holds no backslash, tab or line break (the
  first counts as a slash in an HTTPS URL, the others are dropped by the parser) keeps the origin of its
  base. \<open>origin_of\<close> stands for \<open>Url::origin\<close>: scheme, host and port.
\<close>

definition plain_path :: "string \<Rightarrow> bool" where
  "plain_path path \<longleftrightarrow> prefix ''/'' path \<and> \<not> prefix ''//'' path
     \<and> \<not> contains_char path [CHR 0x09, CHR 0x0A, CHR 0x0D, CHR 0x5C]"

definition join_keeps_origin :: "'u UrlLib \<Rightarrow> ('u \<Rightarrow> 'o) \<Rightarrow> bool" where
  "join_keeps_origin lib origin_of \<longleftrightarrow>
     (\<forall>base path u. bare_https_origin lib base \<and> plain_path path \<and> url_join lib base path = Some u
        \<longrightarrow> origin_of u = origin_of base)"

definition no_tab_or_backslash :: "string \<Rightarrow> bool" where
  "no_tab_or_backslash path \<longleftrightarrow> \<not> contains_char path [CHR 0x09, CHR 0x5C]"

lemma valid_path_plain:
  assumes "validate_definition lib d = Ok ()" and "bt_get (df_operations d) i = Some oper"
    and "no_tab_or_backslash (od_path oper)"
  shows "plain_path (od_path oper)"
proof -
  have "operation_shape oper" using validate_definition_Ok [OF assms(1)] assms(2) by metis
  with assms(3) show ?thesis
    by (auto simp: operation_shape_def plain_path_def no_tab_or_backslash_def
        contains_char_def list_ex_iff line_breaks_def)
qed

text \<open>C4. A secret leaves the host only by policy, whatever other connections do to the store (\<open>others\<close>)
  between the moment a request on the use socket looks its credential up and the moment it loads the
  secret. If the request reaches the network at all, then it is a well-formed \<open>request\<close> message, the
  policy loaded from disk at that moment allows the caller this operation on this credential
  reference, the credential was there at the lookup and its provider's definition is in the catalogue,
  the audit record announcing the use was stored first, and the credential is active when its secret is
  loaded. What is sent is one HTTPS request, redirects not followed, to the path of the named operation
  joined to the bare HTTPS origin of that definition, carrying exactly the loaded secret behind the
  definition's prefix in the \<open>Authorization\<close> header. Unless the reference was deleted in between, the
  secret belongs to the provider whose definition is used; and unless the operation's path holds a
  tab or a backslash, the request goes to the origin of the definition (given that \<open>Url::join\<close> keeps
  the origin for plain paths).\<close>

theorem secret_leaves_only_by_policy:
  assumes "api_effect ports = policy_effect env cd fs paths trust"
    and "api_upstream ports = https_execute lib http"
    and "catalog_wf lib (ac_definitions st)" and "store_wf (ac_store st)"
    and "join_keeps_origin lib origin_of"
    and "api_dispatch_use_amid (store_actions others) ports st p rq = (st', resp)"
    and "ac_world st' \<noteq> ac_world st"
  shows "\<exists>cref operation payload snapshot decision shown row defn oper origin hq.
      use_into_action rq = Ok (UseApiRequest cref operation payload)
    \<and> policy_load env cd fs paths trust = Ok snapshot
    \<and> evaluate snapshot p \<lparr>pc_action = POLICY_ACTION, pc_resource = Some (cref @ ''|'' @ operation)\<rparr> = Ok decision
    \<and> pd_effect decision = Allow
    \<and> row_at (ac_store st) cref = Some shown
    \<and> bt_get (ac_definitions st) (cr_provider_id shown) = Some defn
    \<and> bt_get (df_operations defn) operation = Some oper
    \<and> audited_before ports st p (ur_request_id rq) ''protected-api.request'' (cref @ ''|'' @ operation)
    \<and> row_at (store_actions others (ac_store st)) cref = Some row \<and> cr_state row = CredActive
    \<and> (AdminDelete cref \<notin> (snd \<circ> snd) ` set others \<longrightarrow> cr_provider_id row = cr_provider_id shown)
    \<and> url_parse lib (df_origin defn) = Some origin \<and> bare_https_origin lib origin
    \<and> url_join lib origin (od_path oper) = Some (hq_url hq) \<and> url_scheme lib (hq_url hq) = ''https''
    \<and> (no_tab_or_backslash (od_path oper) \<longrightarrow> origin_of (hq_url hq) = origin_of origin)
    \<and> to_ascii_lowercase (hq_header_name hq) = ''authorization''
    \<and> hq_header_value hq = au_prefix (df_authentication defn) @ cr_secret row
    \<and> api_to_vec ports payload = Some (hq_body hq)
    \<and> \<not> hq_follow_redirects hq \<and> hq_https_only hq
    \<and> ac_world st' = fst (http_send http (ac_world st) hq)"
proof -
  obtain cref operation payload q where action: "use_into_action rq = Ok (UseApiRequest cref operation payload)"
    and send: "may_send ports st (store_actions others (ac_store st)) p (ur_request_id rq) cref operation payload q"
    and world: "ac_world st' = fst (https_execute lib http (ac_world st) q)"
    using api_dispatch_use_amid_world [OF assms(6)] assms(2,7) by auto
  obtain snapshot decision where policy: "policy_load env cd fs paths trust = Ok snapshot"
    "evaluate snapshot p \<lparr>pc_action = POLICY_ACTION, pc_resource = Some (cref @ ''|'' @ operation)\<rparr> = Ok decision"
    "pd_effect decision = Allow"
    using send assms(1) policy_effect_allow [of env cd fs paths trust p cref operation]
    by (auto simp: may_send_def)
  obtain shown row where shown: "row_at (ac_store st) cref = Some shown"
    "bt_get (ac_definitions st) (cr_provider_id shown) = Some (uq_definition q)"
    and row: "row_at (store_actions others (ac_store st)) cref = Some row" "cr_state row = CredActive"
      "uq_secret q = cr_secret row"
    using send by (auto simp: may_send_def)
  have same: "cr_provider_id row = cr_provider_id shown" if "AdminDelete cref \<notin> (snd \<circ> snd) ` set others"
    using store_actions_provider [OF _ shown(1) that] row(1) assms(4) by (auto simp: store_wf_def)
  have valid: "validate_definition lib (uq_definition q) = Ok ()"
    using shown(2) assms(3) by (auto simp: catalog_wf_def entries_valid_def)
  obtain hq where hq: "https_build lib http q = Ok hq" "ac_world st' = fst (http_send http (ac_world st) hq)"
    using https_execute_world [of lib http "ac_world st" q] world assms(7) by auto
  obtain oper origin where built: "bt_get (df_operations (uq_definition q)) (uq_operation q) = Some oper"
    "url_parse lib (df_origin (uq_definition q)) = Some origin" "bare_https_origin lib origin"
    "url_join lib origin (od_path oper) = Some (hq_url hq)" "url_scheme lib (hq_url hq) = ''https''"
    "hq_header_value hq = au_prefix (df_authentication (uq_definition q)) @ uq_secret q"
    "to_ascii_lowercase (hq_header_name hq) = ''authorization''"
    "hq_body hq = uq_body q" "\<not> hq_follow_redirects hq" "hq_https_only hq"
    using https_build_Ok [OF hq(1) valid] by metis
  have kept: "origin_of (hq_url hq) = origin_of origin" if "no_tab_or_backslash (od_path oper)"
    using valid_path_plain [OF valid built(1) that] built(3,4) assms(5) unfolding join_keeps_origin_def by blast
  show ?thesis
    using action send policy shown row same kept built hq(2) by (auto simp: may_send_def)
qed

subsection \<open>Calls on the store\<close>

text \<open>An administrator's call is the preflight record and then that one call on the store.\<close>

lemma with_store_frame:
  assumes "with_store st f = (st', r)"
  shows "ac_world st' = ac_world st" "ac_definitions st' = ac_definitions st" "ac_poisoned st' = ac_poisoned st"
    "ac_audit st' = ac_audit st"
    "ac_poisoned st \<and> ac_store st' = ac_store st \<and> (\<exists>e. r = Err e)
     \<or> \<not> ac_poisoned st \<and> ac_store st' = fst (f (ac_store st)) \<and> is_ok r = is_ok (snd (f (ac_store st)))"
  using assms
  by (auto simp: with_store_def lock_store_def is_ok_iff result_simps split: if_splits prod.splits)

definition admin_change ::
  "('w, 'k) ApidPorts \<Rightarrow> ('w, 'k) ProtectedApiCore \<Rightarrow> Principal \<Rightarrow> RequestId \<Rightarrow> AdminAction
    \<Rightarrow> ('w, 'k) ProtectedApiCore \<Rightarrow> bool \<Rightarrow> bool" where
  "admin_change ports st p i a st' done \<longleftrightarrow>
     ac_world st' = ac_world st \<and> ac_definitions st' = ac_definitions st
   \<and> (ac_store st' = ac_store st \<and> (done \<longrightarrow> \<not> touches a)
      \<or> (\<exists>cref. admin_action_target a = Some cref \<and> audited_before ports st p i (admin_action_name a) cref)
        \<and> (ac_store st', done) = store_action (api_sql ports) (api_stamp ports) (ac_store st) a)"

lemma audited_store_call:
  assumes "st_then (require_audit_preflight ports st p i (admin_action_name a) (Some cref))
      (\<lambda>st1 _. with_store st1 f) = (st', r)"
    and "admin_action_target a = Some cref"
    and "store_action (api_sql ports) (api_stamp ports) (ac_store st) a = (fst (f (ac_store st)), is_ok (snd (f (ac_store st))))"
  shows "admin_change ports st p i a st' (is_ok r)"
proof -
  obtain st1 r1 where pre: "require_audit_preflight ports st p i (admin_action_name a) (Some cref) = (st1, r1)"
    by fastforce
  from preflight_cases [OF this] obtain k where st1: "st1 = st\<lparr>ac_audit := k\<rparr>"
    and audited: "r1 = Ok () \<longleftrightarrow> audited_before ports st p i (admin_action_name a) cref"
    by (auto simp: audited_before_def)
  show ?thesis
  proof (cases r1)
    case (Inl e)
    with assms(1) pre st1 have "st' = st1 \<and> r = Err e" by simp
    with st1 show ?thesis by (simp add: admin_change_def is_ok_def)
  next
    case (Inr u)
    with assms(1) pre have "with_store st1 f = (st', r)" by simp
    from with_store_frame [OF this] st1 audited Inr assms(2,3) show ?thesis
      by (auto simp: admin_change_def is_ok_def)
  qed
qed

lemma st_then_mutated:
  assumes "st_then m (\<lambda>st' c. (st', Ok (g c))) = (st', r)"
  obtains r0 where "m = (st', r0)" "is_ok r = is_ok r0"
  using assms by (cases m; cases "snd m") (auto simp: is_ok_def)

lemma api_admin_action_change:
  assumes "api_admin_action ports st p i a = (st', r)"
  shows "admin_change ports st p i a st' (is_ok r)"
proof (cases a)
  case (AdminProvision cref prov label s)
  show ?thesis
  proof (cases "bt_get (ac_definitions st) prov = None")
    case True
    with assms AdminProvision show ?thesis
      by (auto simp: api_admin_action_def admin_change_def is_ok_def)
  next
    case False
    from assms AdminProvision False obtain r0 where
      "st_then (require_audit_preflight ports st p i (admin_action_name a) (Some cref))
        (\<lambda>st1 _. with_store st1 (\<lambda>db. store_provision (api_sql ports) (api_stamp ports) db cref prov label s))
        = (st', r0)" and r: "is_ok r = is_ok r0"
      by (auto simp: api_admin_action_def elim!: st_then_mutated)
    then show ?thesis
      unfolding r using AdminProvision
      by (intro audited_store_call) (auto simp: store_action_def case_prod_beta)
  qed
next
  case (AdminRotate cref s)
  from assms AdminRotate obtain r0 where
    "st_then (require_audit_preflight ports st p i (admin_action_name a) (Some cref))
      (\<lambda>st1 _. with_store st1 (\<lambda>db. store_rotate (api_sql ports) (api_stamp ports) db cref s)) = (st', r0)"
    and r: "is_ok r = is_ok r0"
    by (auto simp: api_admin_action_def elim!: st_then_mutated)
  then show ?thesis
    unfolding r using AdminRotate by (intro audited_store_call) (auto simp: store_action_def case_prod_beta)
next
  case (AdminRevoke cref)
  from assms AdminRevoke obtain r0 where
    "st_then (require_audit_preflight ports st p i (admin_action_name a) (Some cref))
      (\<lambda>st1 _. with_store st1 (\<lambda>db. store_revoke (api_sql ports) (api_stamp ports) db cref)) = (st', r0)"
    and r: "is_ok r = is_ok r0"
    by (auto simp: api_admin_action_def elim!: st_then_mutated)
  then show ?thesis
    unfolding r using AdminRevoke by (intro audited_store_call) (auto simp: store_action_def case_prod_beta)
next
  case (AdminDelete cref)
  from assms AdminDelete obtain r0 where
    "st_then (require_audit_preflight ports st p i (admin_action_name a) (Some cref))
      (\<lambda>st1 _. with_store st1 (\<lambda>db. store_delete (api_sql ports) db cref)) = (st', r0)"
    and r: "is_ok r = is_ok r0"
    by (auto simp: api_admin_action_def elim!: st_then_mutated)
  then show ?thesis
    unfolding r using AdminDelete by (intro audited_store_call) (auto simp: store_action_def case_prod_beta)
qed (use assms in \<open>auto simp: api_admin_action_def admin_change_def\<close>)

subsection \<open>Calls and runs\<close>

datatype ApiCall = UseCall Principal UseRequest | AdminCall Principal AdminRequest

fun api_serve ::
  "('w, 'k) ApidPorts \<Rightarrow> ('w, 'k) ProtectedApiCore \<Rightarrow> ApiCall \<Rightarrow> ('w, 'k) ProtectedApiCore \<times> ProviderResponse" where
  "api_serve ports st (UseCall p rq) = api_dispatch_use ports st p rq"
| "api_serve ports st (AdminCall p rq) = api_dispatch_admin ports st p rq"

fun api_run ::
  "('w, 'k) ProtectedApiCore \<Rightarrow> (('w, 'k) ApidPorts \<times> ApiCall) list \<Rightarrow> ('w, 'k) ProtectedApiCore" where
  "api_run st [] = st"
| "api_run st ((ports, call) # calls) = api_run (fst (api_serve ports st call)) calls"

fun call_secret_wf :: "ApiCall \<Rightarrow> bool" where
  "call_secret_wf (UseCall _ _) = True"
| "call_secret_wf (AdminCall _ rq) = (case aq_secret rq of None \<Rightarrow> True | Some s \<Rightarrow> secret_wf s)"

lemma admin_into_action_secret:
  "admin_into_action rq = Ok a \<Longrightarrow> call_secret_wf (AdminCall p rq) \<Longrightarrow> action_secret_wf a"
  by (auto simp: admin_into_action_def admin_validate_def action_secret_wf_def Let_def invalid_api_def
      result_simps split: if_splits option.splits)

lemma pn_ok_simps [simp]:
  "pn_ok (provider_failure i e) = False"
  "pn_ok (provider_result i res) = is_ok res"
proof -
  show failure: "pn_ok (provider_failure i e) = False" for e
    by (simp add: provider_failure_def provider_response_empty_def)
  have "pn_ok (provider_success i v)" for v
    by (cases v) (simp_all add: provider_response_empty_def)
  with failure show "pn_ok (provider_result i res) = is_ok res"
    by (simp add: provider_result_def is_ok_def split: sum.split)
qed

lemma api_dispatch_admin_change:
  assumes "api_dispatch_admin ports st p rq = (st', resp)"
  shows "ac_store st' = ac_store st \<and> ac_world st' = ac_world st \<and> ac_definitions st' = ac_definitions st \<and> \<not> pn_ok resp
    \<or> (\<exists>a. admin_into_action rq = Ok a \<and> uid p = 0
        \<and> admin_change ports st p (aq_request_id rq) a st' (pn_ok resp))"
proof (cases "admin_into_action rq")
  case (Inl e)
  with assms show ?thesis by (auto simp: api_dispatch_admin_def)
next
  case (Inr a)
  show ?thesis
  proof (cases "uid p = 0")
    case False
    with assms Inr show ?thesis by (auto simp: api_dispatch_admin_def Let_def)
  next
    case True
    obtain st1 res where act: "api_admin_action ports st p (aq_request_id rq) a = (st1, res)" by fastforce
    with assms Inr True have st': "st' = api_audit_admin ports st1 p (aq_request_id rq) (admin_action_name a)
        (admin_action_target a) res" and "resp = provider_result (aq_request_id rq) res"
      by (auto simp: api_dispatch_admin_def Let_def)
    with api_admin_action_change [OF act] Inr True show ?thesis by (simp add: admin_change_def)
  qed
qed

lemma life_target: "life a c h h' \<Longrightarrow> admin_action_target a = Some c"
  by (cases "(a, c, h, h')" rule: life.cases) auto

lemma api_serve_life:
  assumes "api_serve ports st call = (st', resp)" and "store_wf (ac_store st)" and "call_secret_wf call"
  shows "store_wf (ac_store st')
    \<and> (\<forall>c. held_at (ac_store st') c = held_at (ac_store st) c
        \<or> (\<exists>p rq a. call = AdminCall p rq \<and> uid p = 0 \<and> admin_into_action rq = Ok a
            \<and> audited_before ports st p (aq_request_id rq) (admin_action_name a) c
            \<and> life a c (held_at (ac_store st) c) (held_at (ac_store st') c)))
    \<and> (\<forall>p rq a. call = AdminCall p rq \<and> admin_into_action rq = Ok a \<and> touches a \<and> pn_ok resp \<longrightarrow>
        (\<exists>c. admin_action_target a = Some c
            \<and> life a c (held_at (ac_store st) c) (held_at (ac_store st') c)))"
proof (cases call)
  case (UseCall p rq)
  with assms api_dispatch_use_world [of ports st p rq st' resp] show ?thesis by auto
next
  case (AdminCall p rq)
  with assms(1) have "api_dispatch_admin ports st p rq = (st', resp)" by simp
  from api_dispatch_admin_change [OF this] show ?thesis
  proof (elim disjE exE conjE)
    assume "ac_store st' = ac_store st" "\<not> pn_ok resp"
    with assms(2) AdminCall show ?thesis by auto
  next
    fix a
    assume a: "admin_into_action rq = Ok a" "uid p = 0"
      and change: "admin_change ports st p (aq_request_id rq) a st' (pn_ok resp)"
    show ?thesis
    proof (cases "ac_store st' = ac_store st \<and> (pn_ok resp \<longrightarrow> \<not> touches a)")
      case True
      with assms(2) AdminCall a(1) show ?thesis by auto
    next
      case False
      with change obtain cref where target: "admin_action_target a = Some cref"
        and audited: "audited_before ports st p (aq_request_id rq) (admin_action_name a) cref"
        and act: "store_action (api_sql ports) (api_stamp ports) (ac_store st) a = (ac_store st', pn_ok resp)"
        by (auto simp: admin_change_def)
      have "follows_life a (ac_store st) (ac_store st') (pn_ok resp)"
        using store_action_life [OF act] assms(2) by (simp add: store_wf_def)
      moreover have "store_wf (ac_store st')"
        using store_action_wf [OF assms(2) admin_into_action_secret [OF a(1)], of p "api_sql ports" "api_stamp ports"]
          assms(3) AdminCall act by simp
      ultimately show ?thesis
        using AdminCall a audited target life_target unfolding follows_life_def by fastforce
    qed
  qed
qed

text \<open>C9. The store refines the life of its credentials: whatever request arrives on either socket, every
  credential reference either keeps its generation, its usability and its secret, or moves as the
  administrator's action says (created at generation one; rotated to the next generation and active
  with the new secret; revoked with generation and secret kept; deleted), and then the caller is root
  and the audit record announcing the action was stored first. A successful answer to a change means the
  change happened. The table keeps its invariant throughout: unique valid references, well-formed
  secrets, at most \<open>MAX_CREDENTIALS\<close> rows, a revocation time exactly on the revoked rows.\<close>

theorem credential_lifecycle:
  assumes "api_serve ports st call = (st', resp)" and "store_wf (ac_store st)" and "call_secret_wf call"
  shows "store_wf (ac_store st')
    \<and> (\<forall>c. held_at (ac_store st') c = held_at (ac_store st) c
        \<or> (\<exists>p rq a. call = AdminCall p rq \<and> uid p = 0 \<and> admin_into_action rq = Ok a
            \<and> audited_before ports st p (aq_request_id rq) (admin_action_name a) c
            \<and> life a c (held_at (ac_store st) c) (held_at (ac_store st') c)))
    \<and> (\<forall>p rq a. call = AdminCall p rq \<and> admin_into_action rq = Ok a \<and> touches a \<and> pn_ok resp \<longrightarrow>
        (\<exists>c. admin_action_target a = Some c
            \<and> life a c (held_at (ac_store st) c) (held_at (ac_store st') c)))"
  using assms by (rule api_serve_life)

fun reactivates :: "string \<Rightarrow> ApiCall \<Rightarrow> bool" where
  "reactivates cref (UseCall p rq) = False"
| "reactivates cref (AdminCall p rq) =
     (case admin_into_action rq of
        Inr (AdminRotate c s) \<Rightarrow> c = cref
      | Inr (AdminDelete c) \<Rightarrow> c = cref
      | _ \<Rightarrow> False)"

lemma life_revoked:
  "life a c (Held n False s) h' \<Longrightarrow> \<not> reactivates c (AdminCall p rq) \<Longrightarrow> admin_into_action rq = Ok a
    \<Longrightarrow> h' = Held n False s"
  by (cases a) auto

lemma run_keeps_revoked:
  assumes "held_at (ac_store st) c = Held n False s" and "store_wf (ac_store st)"
    and "\<forall>(ports, call)\<in>set calls. call_secret_wf call \<and> \<not> reactivates c call"
  shows "held_at (ac_store (api_run st calls)) c = Held n False s"
  using assms
proof (induction calls arbitrary: st)
  case (Cons x calls)
  obtain ports call where x: "x = (ports, call)" by (cases x)
  obtain st1 resp where call: "api_serve ports st call = (st1, resp)" by fastforce
  have ok: "call_secret_wf call" "\<not> reactivates c call" using Cons.prems(3) x by auto
  note life = api_serve_life [OF call Cons.prems(2) ok(1)]
  from life have "held_at (ac_store st1) c = held_at (ac_store st) c
      \<or> (\<exists>p rq a. call = AdminCall p rq \<and> admin_into_action rq = Ok a
          \<and> life a c (held_at (ac_store st) c) (held_at (ac_store st1) c))" by metis
  then have "held_at (ac_store st1) c = Held n False s"
    using Cons.prems(1) ok(2) life_revoked by metis
  moreover from life have "store_wf (ac_store st1)" by simp
  ultimately show ?case using Cons.IH [of st1] Cons.prems(3) x call by simp
qed simp

lemma held_revoked_refuses:
  assumes "held_at (ac_store st) cref = Held n False s"
    and "use_into_action rq = Ok (UseApiRequest cref operation payload)"
    and "api_dispatch_use ports st p rq = (st', resp)"
  shows "ac_world st' = ac_world st \<and> \<not> pn_ok resp"
proof -
  obtain st1 res where ex: "execute_request ports st p (ur_request_id rq) cref operation payload = (st1, res)"
    by fastforce
  have "\<not> may_send ports st (ac_store st) p (ur_request_id rq) cref operation payload q" for q
    using assms(1) by (auto simp: may_send_def held_at_def held_row_def split: option.splits)
  with execute_request_world [OF ex] have "ac_world st1 = ac_world st" "\<not> is_ok res"
    by (auto simp: is_ok_def)
  with assms(2,3) ex show ?thesis
    by (auto simp: api_dispatch_use_alone api_use_action_alone)
qed

text \<open>C10. Revocation holds until the administrator rotates or recreates the credential: after a successful
  \<open>credential.revoke\<close>, whatever calls follow on either socket, other than a rotation or a deletion of
  that reference, a request to use the credential is refused and nothing is sent upstream.\<close>

theorem revoked_until_rotated:
  assumes "api_dispatch_admin ports st root rq = (st1, resp)"
    and "admin_into_action rq = Ok (AdminRevoke cref)" and "pn_ok resp"
    and "store_wf (ac_store st)" and "call_secret_wf (AdminCall root rq)"
    and "\<forall>(ports, call)\<in>set calls. call_secret_wf call \<and> \<not> reactivates cref call"
    and "use_into_action rq' = Ok (UseApiRequest cref operation payload)"
    and "api_dispatch_use ports' (api_run st1 calls) p rq' = (st2, resp')"
  shows "ac_world st2 = ac_world (api_run st1 calls) \<and> \<not> pn_ok resp'"
proof -
  from api_serve_life [of ports st "AdminCall root rq" st1 resp] assms(1-5)
  have wf: "store_wf (ac_store st1)"
    and life: "life (AdminRevoke cref) cref (held_at (ac_store st) cref) (held_at (ac_store st1) cref)"
    by auto
  then obtain n s where "held_at (ac_store st1) cref = Held n False s"
    by (cases "held_at (ac_store st) cref") auto
  from run_keeps_revoked [OF this wf assms(6)] assms(7,8) show ?thesis
    by (rule held_revoked_refuses)
qed

end
