(* ===== verification/Apid_Secrecy.thy ===== *)
theory Apid_Secrecy
  imports Apid_Properties
begin

section \<open>Secrets stay inside the broker\<close>

text \<open>
  Erasing every stored and every submitted secret commutes with each operation of the daemon other than
  a protected request: neither an answer nor an audit record nor any later behaviour of those operations
  depends on the text of a secret.
\<close>

definition hide_row :: "CredentialRow \<Rightarrow> CredentialRow" where
  "hide_row row = row\<lparr>cr_secret := ''''\<rparr>"

definition hide_rows :: "(string, CredentialRow) btree \<Rightarrow> (string, CredentialRow) btree" where
  "hide_rows rows = map (map_prod id hide_row) rows"

definition hide_store :: "CredentialDb \<Rightarrow> CredentialDb" where
  "hide_store db = db\<lparr>cdb_rows := hide_rows (cdb_rows db)\<rparr>"

definition hide_core :: "('w, 'k) ProtectedApiCore \<Rightarrow> ('w, 'k) ProtectedApiCore" where
  "hide_core st = st\<lparr>ac_store := hide_store (ac_store st)\<rparr>"

definition hide_request :: "AdminRequest \<Rightarrow> AdminRequest" where
  "hide_request rq = rq\<lparr>aq_secret := map_option (\<lambda>_. '''') (aq_secret rq)\<rparr>"

fun hide_action :: "AdminAction \<Rightarrow> AdminAction" where
  "hide_action (AdminProvision cref prov label s) = AdminProvision cref prov label ''''"
| "hide_action (AdminRotate cref s) = AdminRotate cref ''''"
| "hide_action a = a"

subsection \<open>Tables\<close>

lemma hide_rows_get [simp]: "bt_get (hide_rows rows) k = map_option hide_row (bt_get rows k)"
  by (induction rows) (auto simp: bt_get_def hide_rows_def)

lemma hide_rows_contains [simp]: "bt_contains_key (hide_rows rows) k = bt_contains_key rows k"
  by (simp add: bt_contains_key_def)

lemma hide_rows_insert: "hide_rows (bt_insert k row rows) = bt_insert k (hide_row row) (hide_rows rows)"
  by (induction rows) (auto simp: hide_rows_def)

lemma hide_rows_remove: "hide_rows (bt_remove k rows) = bt_remove k (hide_rows rows)"
  by (induction rows) (auto simp: hide_rows_def bt_remove_def)

lemma hide_rows_length [simp]: "length (hide_rows rows) = length rows"
  by (simp add: hide_rows_def)

lemma hide_store_simps [simp]:
  "cdb_rows (hide_store db) = hide_rows (cdb_rows db)"
  "cdb_meta (hide_store db) = cdb_meta db"
  "hide_store (db\<lparr>cdb_rows := rows\<rparr>) = (hide_store db)\<lparr>cdb_rows := hide_rows rows\<rparr>"
  by (simp_all add: hide_store_def)

lemma metadata_hide [simp]: "metadata_from_row (k, hide_row row) = metadata_from_row (k, row)"
  by (simp add: metadata_from_row_def hide_row_def)

lemma try_map_hide: "try_map metadata_from_row (hide_rows rows) = try_map metadata_from_row rows"
  by (induction rows) (auto simp: hide_rows_def)

lemma store_reads_hide [simp]:
  "store_list env (hide_store db) = store_list env db"
  "store_count env (hide_store db) = store_count env db"
  "integrity_check env (hide_store db) = integrity_check env db"
  by (simp_all add: store_list_def store_count_def integrity_check_def try_map_hide)

lemma store_show_hide [simp]: "store_show env (hide_store db) cref = store_show env db cref"
  by (cases "bt_get (cdb_rows db) cref") (simp_all add: store_show_def)

lemma transact_hide:
  "transact env (hide_store db) (map_option hide_rows rows') e = map_prod hide_store id (transact env db rows' e)"
  by (simp add: transact_def split: option.split)

lemma st_then_show_hide:
  assumes "m' = map_prod hide_store id m"
  shows "st_then m' (\<lambda>db _. (db, store_show env db cref))
       = map_prod hide_store id (st_then m (\<lambda>db _. (db, store_show env db cref)))"
  unfolding assms by (cases m; cases "snd m") simp_all

lemma update_row_hide:
  assumes "\<And>row. f' (hide_row row) = hide_row (f row)"
  shows "update_row (hide_store db) cref f' = map_option hide_rows (update_row db cref f)"
  by (cases "bt_get (cdb_rows db) cref") (simp_all add: update_row_def hide_rows_insert assms)

lemma store_rotate_hide:
  "store_rotate env now (hide_store db) cref '''' = map_prod hide_store id (store_rotate env now db cref s)"
  unfolding store_rotate_def
  by (rule st_then_show_hide, subst transact_hide [symmetric], subst update_row_hide [symmetric])
     (simp_all add: hide_row_def)

lemma store_revoke_hide:
  "store_revoke env now (hide_store db) cref = map_prod hide_store id (store_revoke env now db cref)"
  unfolding store_revoke_def
  by (rule st_then_show_hide, subst transact_hide [symmetric], subst update_row_hide [symmetric])
     (simp_all add: hide_row_def)

lemma store_delete_hide:
  "store_delete env (hide_store db) cref = map_prod hide_store id (store_delete env db cref)"
  unfolding store_delete_def
  by (subst transact_hide [symmetric]) (simp add: hide_rows_remove)

lemma store_provision_hide:
  "store_provision env now (hide_store db) cref prov label ''''
     = map_prod hide_store id (store_provision env now db cref prov label s)"
proof -
  have row: "(if bt_contains_key (hide_rows (cdb_rows db)) cref then None
      else Some (bt_insert cref (fresh_row now prov label '''') (hide_rows (cdb_rows db))))
    = map_option hide_rows (if bt_contains_key (cdb_rows db) cref then None
      else Some (bt_insert cref (fresh_row now prov label s) (cdb_rows db)))"
    by (simp add: hide_rows_insert fresh_row_def hide_row_def)
  show ?thesis
    unfolding store_provision_def hide_store_simps store_reads_hide row transact_hide
    by (simp add: st_then_show_hide split: sum.split)
qed

subsection \<open>The core\<close>

lemma hide_core_simps [simp]:
  "ac_store (hide_core st) = hide_store (ac_store st)"
  "ac_poisoned (hide_core st) = ac_poisoned st"
  "ac_definitions (hide_core st) = ac_definitions st"
  "ac_audit (hide_core st) = ac_audit st"
  "ac_audit_failures (hide_core st) = ac_audit_failures st"
  "ac_world (hide_core st) = ac_world st"
  "hide_core (st\<lparr>ac_audit := k\<rparr>) = (hide_core st)\<lparr>ac_audit := k\<rparr>"
  "hide_core (st\<lparr>ac_audit_failures := n\<rparr>) = (hide_core st)\<lparr>ac_audit_failures := n\<rparr>"
  "hide_core (st\<lparr>ac_store := db\<rparr>) = (hide_core st)\<lparr>ac_store := hide_store db\<rparr>"
  by (simp_all add: hide_core_def)

lemma record_audit_hide [simp]:
  "api_record_audit ports (hide_core st) r = hide_core (api_record_audit ports st r)"
  by (simp add: api_record_audit_def split: prod.split sum.split)

lemma preflight_hide:
  "require_audit_preflight ports (hide_core st) p i action target
     = map_prod hide_core id (require_audit_preflight ports st p i action target)"
  by (simp add: require_audit_preflight_def split: prod.split)

lemma with_store_hide:
  assumes "f' (hide_store (ac_store st)) = map_prod hide_store id (f (ac_store st))"
  shows "with_store (hide_core st) f' = map_prod hide_core id (with_store st f)"
  using assms by (cases "f (ac_store st)") (simp add: with_store_def lock_store_def)

lemma st_then_hide:
  assumes "m' = map_prod hide_core id m" and "\<And>st x. g' (hide_core st) x = map_prod hide_core id (g st x)"
  shows "st_then m' g' = map_prod hide_core id (st_then m g)"
  unfolding assms(1) by (cases m; cases "snd m") (simp_all add: assms(2))

lemma admin_action_hide:
  "api_admin_action ports (hide_core st) p i (hide_action a)
     = map_prod hide_core id (api_admin_action ports st p i a)"
proof (cases a)
  case (AdminShow cref)
  then show ?thesis by (simp add: api_admin_action_def lock_store_def)
next
  case AdminList
  then show ?thesis by (simp add: api_admin_action_def lock_store_def)
qed (auto simp: api_admin_action_def store_provision_hide store_rotate_hide store_revoke_hide
    store_delete_hide intro!: st_then_hide with_store_hide preflight_hide)

lemma hide_action_simps [simp]:
  "admin_action_name (hide_action a) = admin_action_name a"
  "admin_action_target (hide_action a) = admin_action_target a"
  by (cases a; simp)+

lemma admin_into_action_hide:
  "admin_into_action (hide_request rq) = (case admin_into_action rq of Inl e \<Rightarrow> Err e | Inr a \<Rightarrow> Ok (hide_action a))"
proof -
  have valid: "admin_validate (hide_request rq) = admin_validate rq"
    by (simp add: admin_validate_def hide_request_def)
  have "aq_secret rq \<noteq> None" if "admin_validate rq = Ok ()"
      "aq_action rq = ''credential.provision'' \<or> aq_action rq = ''credential.rotate''"
    using that by (auto simp: admin_validate_def Let_def result_simps invalid_api_def split: if_splits)
  then show ?thesis
    unfolding admin_into_action_def valid
    by (cases "admin_validate rq") (auto simp: hide_request_def Let_def)
qed

lemma hide_request_id [simp]: "aq_request_id (hide_request rq) = aq_request_id rq"
  by (simp add: hide_request_def)

lemma dispatch_admin_hide:
  "api_dispatch_admin ports (hide_core st) p (hide_request rq)
     = map_prod hide_core id (api_dispatch_admin ports st p rq)"
proof (cases "admin_into_action rq")
  case (Inl e)
  then show ?thesis by (simp add: api_dispatch_admin_def admin_into_action_hide)
next
  case (Inr a)
  then show ?thesis
    by (cases "api_admin_action ports st p (aq_request_id rq) a")
       (simp add: api_dispatch_admin_def admin_into_action_hide admin_action_hide api_audit_admin_def Let_def)
qed

lemma can_discover_hide [simp]: "can_discover ports (hide_core st) p = can_discover ports st p"
  by (rule ext) (simp add: can_discover_def)

lemma visible_hide [simp]:
  "visible_credentials ports (hide_core st) p = visible_credentials ports st p"
  "visible_credential ports (hide_core st) p cref = visible_credential ports st p cref"
  by (simp_all add: visible_credentials_def visible_credential_def lock_store_def)

lemma dispatch_use_hide:
  assumes "\<And>cref operation payload. use_into_action rq \<noteq> Ok (UseApiRequest cref operation payload)"
  shows "api_dispatch_use ports (hide_core st) p rq = map_prod hide_core id (api_dispatch_use ports st p rq)"
  using assms
  by (cases "use_into_action rq")
     (auto simp: api_dispatch_use_alone api_use_action_alone api_health_def lock_store_def split: UseAction.split)

text \<open>C8. Secrets stay inside: take two daemons that differ in nothing but the text of stored secrets, and two
  requests that differ in nothing but the text of a submitted secret. Then every administrative request,
  and every use request other than a protected request itself, gets the same answer from both, leaves the
  same audit log and the same network behind, and leaves daemons that again differ in nothing but
  secrets.\<close>

theorem secrets_stay_inside:
  assumes "hide_core st = hide_core st'"
  shows "(hide_request rq = hide_request rq' \<longrightarrow>
      snd (api_dispatch_admin ports st p rq) = snd (api_dispatch_admin ports st' p rq')
    \<and> hide_core (fst (api_dispatch_admin ports st p rq)) = hide_core (fst (api_dispatch_admin ports st' p rq'))
    \<and> ac_audit (fst (api_dispatch_admin ports st p rq)) = ac_audit (fst (api_dispatch_admin ports st' p rq'))
    \<and> ac_world (fst (api_dispatch_admin ports st p rq)) = ac_world (fst (api_dispatch_admin ports st' p rq')))
  \<and> ((\<forall>cref operation payload. use_into_action u \<noteq> Ok (UseApiRequest cref operation payload)) \<longrightarrow>
      snd (api_dispatch_use ports st p u) = snd (api_dispatch_use ports st' p u)
    \<and> hide_core (fst (api_dispatch_use ports st p u)) = hide_core (fst (api_dispatch_use ports st' p u))
    \<and> ac_audit (fst (api_dispatch_use ports st p u)) = ac_audit (fst (api_dispatch_use ports st' p u)))"
proof -
  have split: "snd x = snd y \<and> hide_core (fst x) = hide_core (fst y) \<and> ac_audit (fst x) = ac_audit (fst y)
      \<and> ac_world (fst x) = ac_world (fst y)"
    if "map_prod hide_core id x = map_prod hide_core id y"
    for x y :: "('a, 'b) ProtectedApiCore \<times> ProviderResponse"
    using that by (cases x; cases y) (auto dest: arg_cong [where f = ac_audit] arg_cong [where f = ac_world])
  have "map_prod hide_core id (api_dispatch_admin ports st p rq)
      = map_prod hide_core id (api_dispatch_admin ports st' p rq')" if "hide_request rq = hide_request rq'"
    unfolding dispatch_admin_hide [symmetric] that assms by (rule refl)
  moreover have "map_prod hide_core id (api_dispatch_use ports st p u)
      = map_prod hide_core id (api_dispatch_use ports st' p u)"
    if "\<forall>cref operation payload. use_into_action u \<noteq> Ok (UseApiRequest cref operation payload)"
    using dispatch_use_hide [of u ports st p] dispatch_use_hide [of u ports st' p] that assms by simp
  ultimately show ?thesis using split by blast
qed

end
