(* ===== verification/Apid_Witnesses.thy ===== *)
theory Apid_Witnesses
  imports Apid_Secrecy
begin

section \<open>The protected API properties at work\<close>

text \<open>
  A provider with one operation, one credential, a policy on disk that grants the operation to uid
  1000, and a network that keeps the address and the header value of every request it receives.
\<close>

subsection \<open>A policy that grants one operation\<close>

definition api_action :: ActionDefinition where
  "api_action = \<lparr>ad_id = POLICY_ACTION, ad_label = ''API'', ad_class = PrivilegedTypedOperation,
     ad_resource_kind = Some ''credential'', ad_resource_required = True, ad_root_equivalent = False\<rparr>"

definition api_registry :: ActionRegistry where
  "api_registry = \<lparr>reg_policy_version = 1, reg_actions = [api_action, demo_restart, demo_root]\<rparr>"

definition api_subject :: SubjectPolicy where
  "api_subject = \<lparr>sp_policy_version = 1, sp_uid = 1000, sp_label = None, sp_bundles = [],
     sp_grants = [demo_grant POLICY_ACTION Allow [''acme/main|run'']]\<rparr>"

definition api_snapshot :: PolicySnapshot where
  "api_snapshot = \<lparr>ps_global = demo_global,
     ps_actions = [(POLICY_ACTION, api_action), (''root'', demo_root), (''svc'', demo_restart)],
     ps_bundles = [(''ops'', demo_ops), (''strict'', demo_strict)],
     ps_subjects = [(1000, api_subject)]\<rparr>"

definition api_codec :: PolicyCodec where
  "api_codec = demo_codec\<lparr>parse_registry := (\<lambda>t. if t = ''A'' then Some api_registry else None),
     parse_subject := (\<lambda>t. if t = ''S'' then Some api_subject else None)\<rparr>"

lemma api_from_documents:
  "from_documents demo_global api_registry [demo_ops, demo_strict] [api_subject] = Ok api_snapshot"
  by code_simp

lemma api_evaluates:
  "\<exists>d. evaluate api_snapshot demo_user \<lparr>pc_action = POLICY_ACTION, pc_resource = Some ''acme/main|run''\<rparr> = Ok d
     \<and> pd_effect d = Allow"
proof -
  have "map_sum (\<lambda>_. ()) pd_effect (evaluate api_snapshot demo_user
      \<lparr>pc_action = POLICY_ACTION, pc_resource = Some ''acme/main|run''\<rparr>) = Ok Allow"
    by code_simp
  then show ?thesis
    by (cases "evaluate api_snapshot demo_user
      \<lparr>pc_action = POLICY_ACTION, pc_resource = Some ''acme/main|run''\<rparr>") simp_all
qed

lemma api_documents:
  "parse_file demo_env demo_store (parse_global api_codec) [''/'', ''e'', ''p.toml''] = Ok demo_global"
  "parse_file demo_env demo_store (parse_registry api_codec) [''/'', ''u'', ''a.toml''] = Ok api_registry"
  "parse_file demo_env demo_store (parse_bundle api_codec) [''/'', ''u'', ''b'', ''o.toml''] = Ok demo_ops"
  "parse_file demo_env demo_store (parse_bundle api_codec) [''/'', ''u'', ''b'', ''t.toml''] = Ok demo_strict"
  "parse_file demo_env demo_store (parse_subject api_codec) [''/'', ''e'', ''s'', ''1000.toml''] = Ok api_subject"
  by (rule demo_parse_file [where d = "''G''"] demo_parse_file [where d = "''A''"] demo_parse_file [where d = "''O''"]
      demo_parse_file [where d = "''T''"] demo_parse_file [where d = "''S''"];
      simp add: demo_store_def bt_get_def demo_codec_def api_codec_def; fail)+

lemma api_policy_loads: "policy_load demo_env api_codec demo_store demo_paths RootOwnedSystem = Ok api_snapshot"
proof -
  have "load_subject demo_env api_codec demo_store [''/'', ''e'', ''s'', ''1000.toml''] = Ok api_subject"
    by (simp add: load_subject_def api_documents path_file_name_def demo_names api_subject_def)
  then show ?thesis
    unfolding policy_load_iff [OF demo_store_sorted demo_faultless]
    using api_from_documents
    by (intro conjI demo_trust_ok exI [of _ demo_global] exI [of _ api_registry]
        exI [of _ "[demo_ops, demo_strict]"] exI [of _ "[api_subject]"])
      (simp_all add: demo_paths_def demo_docs policy_limits api_documents)
qed

lemma api_allows:
  "policy_effect demo_env api_codec demo_store demo_paths RootOwnedSystem demo_user ''acme/main'' ''run'' = Ok Allow"
proof -
  have "policy_resource ''acme/main'' ''run'' = Ok ''acme/main|run''" by code_simp
  with api_evaluates show ?thesis by (auto simp: policy_effect_def api_policy_loads)
qed

subsection \<open>A provider, its credential and a network\<close>

text \<open>URLs of one scheme, a host and a path. Joining a path that is not plain may lead to another host.\<close>

definition acme_url :: "(string \<times> string) UrlLib" where
  "acme_url = \<lparr>url_parse = (\<lambda>s. if s = ''https://api.acme.test'' then Some (''api.acme.test'', ''/'') else None),
     url_join = (\<lambda>u path. Some (if plain_path path then (fst u, path) else (drop 2 path, ''/''))),
     url_scheme = (\<lambda>_. ''https''), url_host_str = (\<lambda>u. Some (fst u)), url_username = (\<lambda>_. ''''),
     url_password = (\<lambda>_. None), url_query = (\<lambda>_. None), url_fragment = (\<lambda>_. None), url_path = snd\<rparr>"

definition acme_run :: OperationDefinition where
  "acme_run = \<lparr>od_method = ''POST'', od_path = ''/v1/run'', od_streaming = False\<rparr>"

definition acme :: ProviderDefinition where
  "acme = \<lparr>df_schema_version = 1, df_provider_id = ''acme'', df_origin = ''https://api.acme.test'',
     df_authentication = \<lparr>au_kind = ''bearer'', au_header = ''Authorization'', au_prefix = ''Bearer ''\<rparr>,
     df_limits = \<lparr>dl_max_request_bytes = 100, dl_max_response_bytes = 100, dl_timeout_ms = 100\<rparr>,
     df_operations = [(''run'', acme_run)]\<rparr>"

type_synonym acme_world = "((string \<times> string) \<times> string) list"

definition acme_http :: "(string \<times> string, acme_world) HttpLib" where
  "acme_http = \<lparr>client_builds = True, method_from_bytes = (\<lambda>_. True), header_name_from_bytes = (\<lambda>_. True),
     header_value_from_str = (\<lambda>_. True),
     http_send = (\<lambda>w hq. (w @ [(hq_url hq, hq_header_value hq)], Ok \<lparr>hr_status = 200, hr_content_length = None, hr_received = ''null'',
       hr_broken = False\<rparr>))\<rparr>"

definition acme_row :: "string \<Rightarrow> CredentialRow" where
  "acme_row secret = fresh_row ''1'' ''acme'' None secret"

definition acme_store :: "string \<Rightarrow> CredentialDb" where
  "acme_store secret = \<lparr>cdb_meta = Some [1], cdb_rows = [(''acme/main'', acme_row secret)]\<rparr>"

definition acme_core :: "string \<Rightarrow> (acme_world, unit) ProtectedApiCore" where
  "acme_core secret = api_core_new (acme_store secret) [(''acme'', acme)] [] ()"

definition acme_ports :: "(acme_world, unit) ApidPorts" where
  "acme_ports = \<lparr>api_effect = policy_effect demo_env api_codec demo_store demo_paths RootOwnedSystem,
     api_upstream = https_execute acme_url acme_http, api_record = (\<lambda>k r. (k, null_sink_record r)),
     api_to_vec = (\<lambda>_. Some ''null''), api_from_slice = (\<lambda>_. Some JNull),
     api_sql = \<lparr>sql_fails = (\<lambda>_. False), sql_integrity = ''ok''\<rparr>, api_stamp = ''2'',
     api_now_before = 1, api_now_after = 2\<rparr>"

definition acme_use :: UseRequest where
  "acme_use = use_request_new ''r1'' (UseApiRequest ''acme/main'' ''run'' JNull)"

definition acme_root :: Principal where
  "acme_root = \<lparr>uid = 0, gid = 0\<rparr>"

definition acme_revoke :: AdminRequest where
  "acme_revoke = admin_request_new ''r2'' (AdminRevoke ''acme/main'')"

lemma acme_valid: "catalog_wf acme_url [(''acme'', acme)]"
proof -
  have ids: "validate_provider_id ''acme'' = Ok ()" "validate_operation_id ''run'' = Ok ()"
    and shapes: "operation_shape acme_run" "bounded_bearer (df_authentication acme)" by code_simp+
  have "bounded_limits (df_limits acme)"
    by (simp add: bounded_limits_def acme_def MAX_REQUEST_BYTES_def MAX_RESPONSE_BYTES_def MAX_TIMEOUT_MS_def)
  with ids shapes have "validate_definition acme_url acme = Ok ()"
    by (simp add: validate_definition_def acme_def acme_url_def bare_https_origin_def
        MAX_OPERATIONS_PER_PROVIDER_def)
  then show ?thesis
    by (simp add: catalog_wf_def bt_sorted_def entries_valid_def bt_get_def MAX_PROVIDER_DEFINITIONS_def acme_def)
qed

lemma acme_ids: "validate_credential_ref ''acme/main'' = Ok ()" "validate_operation_id ''run'' = Ok ()"
  "validate_provider_id ''acme'' = Ok ()"
  by code_simp+

lemma acme_secrets: "secret_wf ''hunter2''" "secret_wf ''letmein''"
  by (simp_all add: secret_wf_def secret_new_def SECRET_MAX_BYTES_def contains_char_def line_breaks_def byte_def)

lemma acme_store_wf: "secret_wf s \<Longrightarrow> store_wf (acme_store s)"
  by (auto simp: store_wf_def acme_store_def bt_sorted_def bt_get_def MAX_CREDENTIALS_def row_wf_def
      acme_row_def fresh_row_def acme_ids split: if_splits)

lemma acme_records:
  "null_sink_record (preflight_record 1 demo_user ''r1'' ''protected-api.request'' (Some ''acme/main|run'')) = Ok ()"
  "null_sink_record (preflight_record 1 acme_root ''r2'' ''credential.revoke'' (Some ''acme/main'')) = Ok ()"
  by code_simp+

lemma acme_joins: "join_keeps_origin acme_url fst"
  by (auto simp: join_keeps_origin_def acme_url_def)

lemma acme_path: "plain_path ''/v1/run''" "no_tab_or_backslash ''/v1/run''" "no_tab_or_backslash (od_path acme_run)"
  by code_simp+

lemma acme_sends_amid:
  assumes "row_at (meanwhile (acme_store ''hunter2'')) ''acme/main'' = Some row" and "cr_state row = CredActive"
    and "secret_wf (cr_secret row)"
  shows "ac_world (fst (api_dispatch_use_amid meanwhile acme_ports (acme_core ''hunter2'') demo_user acme_use))
    = [((''api.acme.test'', ''/v1/run''), ''Bearer '' @ cr_secret row)]"
proof -
  have action: "use_into_action acme_use = Ok (UseApiRequest ''acme/main'' ''run'' JNull)"
    and rid: "ur_request_id acme_use = ''r1''"
    by (simp_all add: acme_use_def use_into_action_def use_validate_def use_request_empty_def acme_ids)
  have shown: "\<exists>c. store_show (api_sql acme_ports) (ac_store (acme_core ''hunter2'')) ''acme/main'' = Ok c
      \<and> cm_provider_id c = ''acme''"
    by (simp add: store_show_def checked_ref_def acme_ids sql_def acme_ports_def acme_core_def api_core_new_def
        acme_store_def bt_get_def metadata_from_row_def acme_row_def fresh_row_def i64_max_def)
  have prep: "\<exists>c. prepare_request acme_ports (acme_core ''hunter2'') demo_user ''acme/main'' ''run'' JNull
      = Ok (c, acme, ''null'')"
    using shown api_allows
    by (auto simp: prepare_request_def acme_ports_def acme_core_def api_core_new_def lock_store_def bt_get_def
        definition_operation_def acme_def acme_run_def)
  have secret: "load_secret (api_sql acme_ports) (meanwhile (acme_store ''hunter2'')) ''acme/main''
      = Ok (cr_secret row)"
    using assms by (simp add: load_secret_Ok acme_ports_def)
  have build: "\<exists>hq. https_build acme_url acme_http \<lparr>uq_definition = acme, uq_operation = ''run'',
      uq_body = ''null'', uq_secret = cr_secret row\<rparr> = Ok hq
      \<and> hq_url hq = (''api.acme.test'', ''/v1/run'') \<and> hq_header_value hq = ''Bearer '' @ cr_secret row"
    by (simp add: https_build_def operation_url_def definition_operation_def acme_def acme_url_def acme_http_def
        acme_run_def acme_path bt_get_def Let_def)
  from prep build secret acme_records(1) show ?thesis
    by (auto simp: api_dispatch_use_amid_def action rid api_use_action_amid_def execute_request_amid_def
        require_audit_preflight_def send_upstream_def lock_store_def https_execute_def acme_http_def
        acme_ports_def acme_core_def api_core_new_def split: prod.splits)
qed

text \<open>An administrator rotates the credential between the two locks: the new secret is sent.\<close>

definition acme_rotation :: "(SqlEnv \<times> string \<times> AdminAction) list" where
  "acme_rotation = [(api_sql acme_ports, ''2'', AdminRotate ''acme/main'' ''letmein'')]"

lemma acme_rotated:
  "\<exists>row. row_at (store_actions acme_rotation (acme_store ''hunter2'')) ''acme/main'' = Some row
     \<and> cr_state row = CredActive \<and> cr_secret row = ''letmein''"
  by (simp add: acme_rotation_def store_action_def store_rotate_def transact_def update_row_def acme_ports_def
      acme_store_def bt_get_def store_show_def checked_ref_def acme_ids sql_def metadata_from_row_def acme_row_def
      fresh_row_def i64_max_def row_at_def split: prod.split)

theorem secret_leaves_only_by_policy_witness:
  "\<exists>hq. hq_header_value hq = ''Bearer letmein'' \<and> url_scheme acme_url (hq_url hq) = ''https''
     \<and> fst (hq_url hq) = ''api.acme.test'' \<and> \<not> hq_follow_redirects hq
     \<and> ac_world (fst (api_dispatch_use_amid (store_actions acme_rotation) acme_ports (acme_core ''hunter2'')
         demo_user acme_use)) = fst (http_send acme_http [] hq)"
proof -
  obtain row where row: "row_at (store_actions acme_rotation (acme_store ''hunter2'')) ''acme/main'' = Some row"
    "cr_state row = CredActive" "cr_secret row = ''letmein''" using acme_rotated by blast
  obtain st' resp where run: "api_dispatch_use_amid (store_actions acme_rotation) acme_ports (acme_core ''hunter2'')
      demo_user acme_use = (st', resp)" by fastforce
  have effect: "api_effect acme_ports = policy_effect demo_env api_codec demo_store demo_paths RootOwnedSystem"
    and upstream: "api_upstream acme_ports = https_execute acme_url acme_http"
    and catalog: "catalog_wf acme_url (ac_definitions (acme_core ''hunter2''))"
    and store: "store_wf (ac_store (acme_core ''hunter2''))"
    using acme_valid acme_store_wf [OF acme_secrets(1)]
    by (simp_all add: acme_ports_def acme_core_def api_core_new_def)
  have core: "ac_store (acme_core x) = acme_store x" "ac_definitions (acme_core x) = [(''acme'', acme)]"
      "ac_world (acme_core x) = []" for x by (simp_all add: acme_core_def api_core_new_def)
  have "ac_world st' \<noteq> ac_world (acme_core ''hunter2'')"
    using acme_sends_amid [of "store_actions acme_rotation" row] row acme_secrets(2) run by (simp add: acme_core_def api_core_new_def)
  from secret_leaves_only_by_policy [OF effect upstream catalog store acme_joins run this, unfolded core]
  show ?thesis
  proof (elim exE conjE)
    fix cref operation shown row' defn oper origin hq
    assume shown: "row_at (acme_store ''hunter2'') cref = Some shown"
      and defn: "bt_get [(''acme'', acme)] (cr_provider_id shown) = Some defn"
      and oper: "bt_get (df_operations defn) operation = Some oper"
      and sent: "row_at (store_actions acme_rotation (acme_store ''hunter2'')) cref = Some row'"
        "hq_header_value hq = au_prefix (df_authentication defn) @ cr_secret row'"
        "url_scheme acme_url (hq_url hq) = ''https''" "\<not> hq_follow_redirects hq"
        "ac_world st' = fst (http_send acme_http [] hq)"
      and origin: "url_parse acme_url (df_origin defn) = Some origin"
        "no_tab_or_backslash (od_path oper) \<longrightarrow> fst (hq_url hq) = fst origin"
    have cref: "cref = ''acme/main''" and defn: "defn = acme" and oper: "oper = acme_run"
      using shown defn oper
      by (auto simp: acme_store_def row_at_def bt_get_def acme_def split: if_splits)
    have "fst (hq_url hq) = ''api.acme.test''"
      using origin acme_path by (auto simp: defn oper acme_def acme_url_def)
    moreover have "hq_header_value hq = ''Bearer letmein''"
      using sent(1,2) row by (simp add: cref defn acme_def)
    ultimately show ?thesis using sent(3-5) run by auto
  qed
qed

text \<open>
  What the theorem leaves open is possible. An administrator deletes the reference between the two
  locks and provisions it anew for another provider: the secret of the new provider goes to the host
  of the old one. And a path that starts with a slash and a backslash passes the checks on definitions.
\<close>

definition acme_swap :: "(SqlEnv \<times> string \<times> AdminAction) list" where
  "acme_swap = [(api_sql acme_ports, ''2'', AdminDelete ''acme/main''),
     (api_sql acme_ports, ''2'', AdminProvision ''acme/main'' ''other'' None ''letmein'')]"

lemma swapped_secret_sent:
  "\<exists>row. row_at (store_actions acme_swap (acme_store ''hunter2'')) ''acme/main'' = Some row
     \<and> cr_provider_id row = ''other''
     \<and> ac_world (fst (api_dispatch_use_amid (store_actions acme_swap) acme_ports (acme_core ''hunter2'')
         demo_user acme_use)) = [((''api.acme.test'', ''/v1/run''), ''Bearer '' @ cr_secret row)]"
proof -
  have "validate_provider_id ''other'' = Ok ()" by code_simp
  then have swapped: "store_actions acme_swap (acme_store ''hunter2'')
      = \<lparr>cdb_meta = Some [1], cdb_rows = [(''acme/main'', fresh_row ''2'' ''other'' None ''letmein'')]\<rparr>"
    by (simp add: acme_swap_def store_action_def store_delete_def store_provision_def store_count_def transact_def
        acme_ports_def acme_store_def bt_get_def bt_remove_def bt_contains_key_def store_show_def checked_ref_def acme_ids sql_def
        metadata_from_row_def fresh_row_def i64_max_def MAX_CREDENTIALS_def split: prod.split)
  define row where "row = fresh_row ''2'' ''other'' None ''letmein''"
  have "row_at (store_actions acme_swap (acme_store ''hunter2'')) ''acme/main'' = Some row"
    "cr_provider_id row = ''other''" "cr_state row = CredActive" "secret_wf (cr_secret row)"
    using swapped acme_secrets(2) by (simp_all add: row_at_def bt_get_def row_def fresh_row_def)
  with acme_sends_amid [of "store_actions acme_swap" row] show ?thesis by blast
qed

lemma backslash_path_accepted:
  "operation_shape \<lparr>od_method = ''POST'', od_path = CHR 0x2F # CHR 0x5C # ''evil.test'', od_streaming = False\<rparr>"
  by code_simp

subsection \<open>Revoking it\<close>

lemma acme_revoke_action: "admin_into_action acme_revoke = Ok (AdminRevoke ''acme/main'')"
  by (simp add: acme_revoke_def admin_into_action_def admin_validate_def admin_request_empty_def acme_ids Let_def)

definition acme_revoked :: "string \<Rightarrow> CredentialDb" where
  "acme_revoked secret = \<lparr>cdb_meta = Some [1], cdb_rows = [(''acme/main'',
     (acme_row secret)\<lparr>cr_state := CredRevoked, cr_revoked_at := Some ''2'', cr_updated_at := ''2''\<rparr>)]\<rparr>"

lemma acme_revoke_store:
  "\<exists>c. store_revoke (api_sql acme_ports) (api_stamp acme_ports) (acme_store s) ''acme/main'' = (acme_revoked s, Ok c)"
  by (simp add: store_revoke_def transact_def update_row_def acme_ports_def acme_store_def bt_get_def
      store_show_def checked_ref_def acme_ids sql_def metadata_from_row_def acme_row_def fresh_row_def
      i64_max_def acme_revoked_def)

lemma acme_revokes:
  "\<exists>st resp. api_dispatch_admin acme_ports (acme_core s) acme_root acme_revoke = (st, resp)
     \<and> pn_ok resp \<and> ac_store st = acme_revoked s"
proof -
  obtain c where "store_revoke (api_sql acme_ports) (api_stamp acme_ports) (acme_store s) ''acme/main''
      = (acme_revoked s, Ok c)" using acme_revoke_store by blast
  moreover have "aq_request_id acme_revoke = ''r2''" by (simp add: acme_revoke_def admin_request_empty_def)
  moreover have "api_record acme_ports () (preflight_record (api_now_before acme_ports) acme_root ''r2''
      ''credential.revoke'' (Some ''acme/main'')) = ((), Ok ())"
    using acme_records(2) by (simp add: acme_ports_def)
  ultimately show ?thesis
    by (simp add: api_dispatch_admin_def acme_revoke_action acme_root_def api_admin_action_def Let_def
        require_audit_preflight_def with_store_def lock_store_def acme_core_def api_core_new_def is_ok_def)
qed

theorem credential_lifecycle_witness:
  "\<exists>st resp. api_serve acme_ports (acme_core ''hunter2'') (AdminCall acme_root acme_revoke) = (st, resp)
     \<and> life (AdminRevoke ''acme/main'') ''acme/main'' (Held 1 True ''hunter2'') (held_at (ac_store st) ''acme/main'')
     \<and> store_wf (ac_store st)"
proof -
  obtain st resp where run: "api_serve acme_ports (acme_core ''hunter2'') (AdminCall acme_root acme_revoke) = (st, resp)"
    and okay: "pn_ok resp" using acme_revokes by fastforce
  have wf: "store_wf (ac_store (acme_core ''hunter2''))" and secrets: "call_secret_wf (AdminCall acme_root acme_revoke)"
    using acme_store_wf [OF acme_secrets(1)]
    by (simp_all add: acme_core_def api_core_new_def acme_revoke_def admin_request_empty_def)
  have before: "held_at (ac_store (acme_core ''hunter2'')) ''acme/main'' = Held 1 True ''hunter2''"
    by (simp add: held_at_def held_row_def acme_core_def api_core_new_def row_at_def acme_store_def bt_get_def
        acme_row_def fresh_row_def)
  from credential_lifecycle [OF run wf secrets] okay
  have "life (AdminRevoke ''acme/main'') ''acme/main'' (held_at (ac_store (acme_core ''hunter2'')) ''acme/main'')
      (held_at (ac_store st) ''acme/main'')" and "store_wf (ac_store st)"
    using acme_revoke_action by auto
  with run before show ?thesis by auto
qed

theorem revoked_until_rotated_witness:
  "\<exists>st resp. api_dispatch_use acme_ports (api_run (fst (api_dispatch_admin acme_ports (acme_core ''hunter2'')
       acme_root acme_revoke)) [(acme_ports, UseCall demo_user acme_use)]) demo_user acme_use = (st, resp)
     \<and> \<not> pn_ok resp"
proof -
  obtain st1 resp where revoke: "api_dispatch_admin acme_ports (acme_core ''hunter2'') acme_root acme_revoke = (st1, resp)"
    and okay: "pn_ok resp" using acme_revokes by blast
  let ?st = "api_run st1 [(acme_ports, UseCall demo_user acme_use)]"
  obtain st2 resp2 where again: "api_dispatch_use acme_ports ?st demo_user acme_use = (st2, resp2)" by fastforce
  have wf: "store_wf (ac_store (acme_core ''hunter2''))" and secrets: "call_secret_wf (AdminCall acme_root acme_revoke)"
    using acme_store_wf [OF acme_secrets(1)]
    by (simp_all add: acme_core_def api_core_new_def acme_revoke_def admin_request_empty_def)
  have calls: "\<forall>(ports, call)\<in>set [(acme_ports, UseCall demo_user acme_use)].
      call_secret_wf call \<and> \<not> reactivates ''acme/main'' call" by simp
  have action: "use_into_action acme_use = Ok (UseApiRequest ''acme/main'' ''run'' JNull)"
    by (simp add: acme_use_def use_into_action_def use_validate_def use_request_empty_def acme_ids)
  from revoked_until_rotated [OF revoke acme_revoke_action okay wf secrets calls action again]
  show ?thesis using revoke again by simp
qed

theorem secrets_stay_inside_witness:
  "snd (api_dispatch_admin acme_ports (acme_core ''hunter2'') acme_root acme_revoke)
     = snd (api_dispatch_admin acme_ports (acme_core ''letmein'') acme_root acme_revoke)
   \<and> snd (api_dispatch_use acme_ports (acme_core ''hunter2'') demo_user (use_request_new ''r3'' UseCredentialList))
     = snd (api_dispatch_use acme_ports (acme_core ''letmein'') demo_user (use_request_new ''r3'' UseCredentialList))"
proof -
  have "hide_core (acme_core ''hunter2'') = hide_core (acme_core ''letmein'')"
    by (simp add: hide_core_def hide_store_def hide_rows_def hide_row_def acme_core_def api_core_new_def
        acme_store_def acme_row_def fresh_row_def)
  moreover have "use_into_action (use_request_new ''r3'' UseCredentialList) = Ok UseCredentialList"
    by (intro use_into_action_new) (simp add: use_action_valid_def)
  ultimately show ?thesis
    using secrets_stay_inside [of "acme_core ''hunter2''" "acme_core ''letmein''" acme_revoke acme_revoke acme_ports
        acme_root "use_request_new ''r3'' UseCredentialList"]
      secrets_stay_inside [of "acme_core ''hunter2''" "acme_core ''letmein''" acme_revoke acme_revoke acme_ports
        demo_user "use_request_new ''r3'' UseCredentialList"]
    by simp
qed

subsection \<open>A reference the audit sink refuses\<close>

text \<open>
  The audit sink takes \<open>private_key\<close> in a target for secret material, while the identifier rules of the
  broker admit it in a credential reference: the record that must precede provisioning such a
  credential is refused by every sink, so the credential can never be provisioned or used.
\<close>

lemma private_key_reference_refused:
  "validate_credential_ref ''acme/private_key'' = Ok ()"
  "\<exists>e. validate_record (preflight_record now p i ''credential.provision'' (Some ''acme/private_key'')) = Err e"
proof -
  show "validate_credential_ref ''acme/private_key'' = Ok ()" by code_simp
  have "\<exists>e. validate_safe_text ''acme/private_key'' MAX_AUDIT_TARGET_BYTES ''target'' = Err e"
    by (rule exI [of _ "InvalidRecord ''secret-like material rejected''"]) code_simp
  moreover have "validate_safe_text ''credential.provision.preflight'' MAX_AUDIT_ACTION_BYTES ''action'' = Ok ()"
    "validate_safe_text ''audit_ready'' MAX_AUDIT_REASON_BYTES ''reason'' = Ok ()" by code_simp+
  ultimately show "\<exists>e. validate_record (preflight_record now p i ''credential.provision''
      (Some ''acme/private_key'')) = Err e"
    by (auto simp: validate_record_def preflight_record_def audit_record_new_def audit_actor_is_valid_def
        audit_actor_principal_def)
qed

end
