(* ===== verification/Runtime_Tasks.thy ===== *)
theory Runtime_Tasks
  imports Task_Engine_Properties
begin

section \<open>The task methods of the runtime daemon\<close>

text \<open>
  \<^verbatim>\<open>portusd/src/core.rs\<close>: the handlers of \<open>task.list\<close>, \<open>task.show\<close>, \<open>task.events\<close> and
  \<open>task.cancel\<close> and the page the event stream reads. Each takes the state lock, lets the task engine
  record exited children, and answers from the database for the authenticated principal. The typed
  decoders and the encoders of \<open>serde_json\<close> and the parser of a task id are the record \<open>TaskRpc\<close>.
\<close>

record TaskListParams =
  tl_limit :: u16
  tl_cursor :: "string option"
  tl_state :: "TaskState option"
  tl_project_ref :: "string option"

record TaskShowParams =
  ts_task_id :: TaskId

record TaskEventsParams =
  tq_task_id :: TaskId
  tq_after_sequence :: "nat option"
  tq_limit :: u16

record TaskCancelParams =
  tc_task_id :: TaskId
  tc_if_state :: "TaskState option"

record TaskRpc =
  from_task_list :: "json \<Rightarrow> TaskListParams option"
  from_task_show :: "json \<Rightarrow> TaskShowParams option"
  from_task_events :: "json \<Rightarrow> TaskEventsParams option"
  from_task_cancel :: "json \<Rightarrow> TaskCancelParams option"
  parse_task_id :: "string \<Rightarrow> TaskId option"
  page_to_value :: "TaskPage \<Rightarrow> json option"
  task_view_to_value :: "TaskView \<Rightarrow> json option"
  event_page_to_value :: "TaskEventPage \<Rightarrow> json option"

record RuntimeTasks =
  rt_engine :: TaskEngine
  rt_poisoned :: bool

subsection \<open>Errors and parameters\<close>

definition invalid_request :: "string \<Rightarrow> SemanticError" where
  "invalid_request message = semantic_error_new CodeInvalidRequest message"

definition runtime_internal_error :: "string \<Rightarrow> SemanticError" where
  "runtime_internal_error message = semantic_error_new CodeInternal message"

definition runtime_state_error :: "StateError \<Rightarrow> SemanticError" where
  "runtime_state_error e = semantic_error_new CodeUnavailable ''Portus state is unavailable''"

definition task_not_visible :: SemanticError where
  "task_not_visible = semantic_error_new CodeNotFound ''task is not visible to this caller''"

fun runtime_task_error :: "TaskError \<Rightarrow> SemanticError" where
  "runtime_task_error TaskNotFound = task_not_visible"
| "runtime_task_error (PreconditionFailed expected found) =
     semantic_error_with_detail (semantic_error_with_detail
       (semantic_error_new CodePreconditionFailed ''task state precondition failed'')
       ''expected'' (JString (task_state_as_str expected)))
       ''found'' (JString (task_state_as_str found))"
| "runtime_task_error (InvalidTransition source_state target_state) =
     semantic_error_with_detail (semantic_error_with_detail
       (semantic_error_new CodeConflict ''task lifecycle transition is not allowed'')
       ''from'' (JString (task_state_as_str source_state)))
       ''to'' (JString (task_state_as_str target_state))"
| "runtime_task_error (TaskUnsupported _) = semantic_error_new CodeUnsupported
     ''task backend does not support the requested lifecycle operation''"
| "runtime_task_error (InvalidSpec _) = semantic_error_new CodeInvalidRequest
     ''managed task specification is invalid''"
| "runtime_task_error (TaskStateError _) = semantic_error_new CodeUnavailable
     ''task state or managed backend is unavailable''"
| "runtime_task_error (TaskIo _) = semantic_error_new CodeUnavailable
     ''task state or managed backend is unavailable''"

definition runtime_parse_params :: "(json \<Rightarrow> 'a option) \<Rightarrow> json \<Rightarrow> SemanticError + 'a" where
  "runtime_parse_params decode params =
     ok_or (decode params) (invalid_request ''method parameters do not match the expected schema'')"

definition validate_limit :: "u16 \<Rightarrow> SemanticError + unit" where
  "validate_limit limit =
     ensure (1 \<le> limit \<and> limit \<le> 200) (invalid_request ''limit must be between 1 and 200'')"

definition validate_optional_filter :: "string option \<Rightarrow> nat \<Rightarrow> string \<Rightarrow> SemanticError + unit" where
  "validate_optional_filter v max_bytes field =
     (case v of
        None \<Rightarrow> Ok ()
      | Some s \<Rightarrow>
          if s = [] \<or> max_bytes < length s
          then Err (invalid_request (field @ '' is empty or exceeds '' @ show_nat max_bytes @ '' bytes''))
          else Ok ())"

subsection \<open>Handlers\<close>

definition lock_tasks :: "RuntimeTasks \<Rightarrow> RuntimeTasks \<times> (SemanticError + unit)" where
  "lock_tasks rt =
     (rt, if rt_poisoned rt then Err (runtime_internal_error ''state lock poisoned'') else Ok ())"

definition with_engine ::
  "(TaskEngine \<Rightarrow> TaskEngine \<times> (TaskError + 'a)) \<Rightarrow> RuntimeTasks \<Rightarrow> RuntimeTasks \<times> (SemanticError + 'a)" where
  "with_engine f rt =
     (case f (rt_engine rt) of (s, r) \<Rightarrow> (rt\<lparr>rt_engine := s\<rparr>, map_err runtime_task_error r))"

definition refreshed :: "Os \<Rightarrow> RuntimeTasks \<Rightarrow> RuntimeTasks \<times> (SemanticError + PortusState)" where
  "refreshed os rt =
     st_then (lock_tasks rt) (\<lambda>rt _.
     st_then (with_engine (refresh_all os) rt) (\<lambda>rt _. (rt, Ok (te_db (rt_engine rt)))))"

definition json_u64 :: "nat \<Rightarrow> json" where
  "json_u64 n = JNumber (PosInt (of_nat n))"

definition json_u64_option :: "nat option \<Rightarrow> json" where
  "json_u64_option v = (case v of None \<Rightarrow> JNull | Some n \<Rightarrow> json_u64 n)"

definition task_status_value ::
  "Os \<Rightarrow> RuntimeTasks \<Rightarrow> Principal \<Rightarrow> RuntimeTasks \<times> (SemanticError + json)" where
  "task_status_value os rt p =
     st_then (refreshed os rt) (\<lambda>rt db.
     (rt, case task_counts_visible db p of (active, terminal) \<Rightarrow>
        Ok (JObject [(''active'', json_u64 active), (''reason_code'', JString ''ready''),
                     (''state'', JString ''ready''), (''terminal'', json_u64 terminal)])))"

definition task_list ::
  "TaskRpc \<Rightarrow> Os \<Rightarrow> RuntimeTasks \<Rightarrow> Principal \<Rightarrow> json \<Rightarrow> RuntimeTasks \<times> (SemanticError + json)" where
  "task_list rpc os rt p params =
     (case and_then (runtime_parse_params (from_task_list rpc) params) (\<lambda>ps.
           and_then (validate_limit (tl_limit ps)) (\<lambda>_.
           and_then (validate_optional_filter (tl_project_ref ps) 512 ''task project filter'') (\<lambda>_.
           case tl_cursor ps of
             None \<Rightarrow> Ok (ps, None)
           | Some c \<Rightarrow> and_then (ok_or (parse_task_id rpc c) (invalid_request ''task cursor is invalid''))
               (\<lambda>t. Ok (ps, Some t))))) of
        Inl e \<Rightarrow> (rt, Err e)
      | Inr (ps, cursor) \<Rightarrow>
          st_then (refreshed os rt) (\<lambda>rt db.
          (rt, and_then (map_err runtime_state_error (list_tasks_visible db p
                 \<lparr>tf_state = tl_state ps, tf_project_ref = tl_project_ref ps\<rparr> (tl_limit ps) cursor)) (\<lambda>page.
               ok_or (page_to_value rpc page) (runtime_internal_error ''failed to encode task page'')))))"

definition task_show ::
  "TaskRpc \<Rightarrow> Os \<Rightarrow> RuntimeTasks \<Rightarrow> Principal \<Rightarrow> json \<Rightarrow> RuntimeTasks \<times> (SemanticError + json)" where
  "task_show rpc os rt p params =
     (case runtime_parse_params (from_task_show rpc) params of
        Inl e \<Rightarrow> (rt, Err e)
      | Inr ps \<Rightarrow>
          st_then (refreshed os rt) (\<lambda>rt db.
          (rt, and_then (ok_or (task_view_visible db (ts_task_id ps) p) task_not_visible) (\<lambda>view.
               ok_or (task_view_to_value rpc view) (runtime_internal_error ''failed to encode task view'')))))"

definition task_event_page_for_stream ::
  "Os \<Rightarrow> RuntimeTasks \<Rightarrow> Principal \<Rightarrow> TaskId \<Rightarrow> nat option \<Rightarrow> u16
    \<Rightarrow> RuntimeTasks \<times> (SemanticError + TaskEventPage)" where
  "task_event_page_for_stream os rt p t after_sequence limit =
     (case validate_limit limit of
        Inl e \<Rightarrow> (rt, Err e)
      | Inr _ \<Rightarrow>
          st_then (refreshed os rt) (\<lambda>rt db.
          (rt, and_then (map_err runtime_state_error (task_events_visible db t p after_sequence limit)) (\<lambda>page.
               ok_or page task_not_visible))))"

definition stale_events :: "TaskEventPage \<Rightarrow> SemanticError" where
  "stale_events page =
     semantic_error_with_detail (semantic_error_with_detail
       (semantic_error_new CodeStaleResource ''requested task event sequence is older than retained history'')
       ''retained_from'' (json_u64_option (ep_retained_from_sequence page)))
       ''latest_sequence'' (json_u64 (ep_latest_sequence page))"

definition task_events ::
  "TaskRpc \<Rightarrow> Os \<Rightarrow> RuntimeTasks \<Rightarrow> Principal \<Rightarrow> json \<Rightarrow> RuntimeTasks \<times> (SemanticError + json)" where
  "task_events rpc os rt p params =
     (case and_then (runtime_parse_params (from_task_events rpc) params) (\<lambda>ps.
           and_then (validate_limit (tq_limit ps)) (\<lambda>_. Ok ps)) of
        Inl e \<Rightarrow> (rt, Err e)
      | Inr ps \<Rightarrow>
          st_then (refreshed os rt) (\<lambda>rt db.
          (rt, and_then (map_err runtime_state_error (task_events_visible db (tq_task_id ps) p
                 (tq_after_sequence ps) (tq_limit ps))) (\<lambda>r.
               case r of
                 None \<Rightarrow> Err task_not_visible
               | Some page \<Rightarrow>
                   if ep_gap_before_page page then Err (stale_events page)
                   else ok_or (event_page_to_value rpc page)
                     (runtime_internal_error ''failed to encode task events'')))))"

definition task_cancel ::
  "TaskRpc \<Rightarrow> Os \<Rightarrow> RuntimeTasks \<Rightarrow> Principal \<Rightarrow> json \<Rightarrow> RuntimeTasks \<times> (SemanticError + json)" where
  "task_cancel rpc os rt p params =
     (case runtime_parse_params (from_task_cancel rpc) params of
        Inl e \<Rightarrow> (rt, Err e)
      | Inr ps \<Rightarrow>
          st_then (lock_tasks rt) (\<lambda>rt _.
          st_then (with_engine (cancel_task os p (tc_task_id ps) (tc_if_state ps)) rt) (\<lambda>rt view.
          (rt, ok_or (task_view_to_value rpc view)
                 (runtime_internal_error ''failed to encode cancelled task'')))))"

subsection \<open>A page of a task's events\<close>

text \<open>
  What a reader that already has the events up to \<open>after\<close> is given: the next events in sequence,
  without a hole unless the page says so.
\<close>

lemma refreshed_wf:
  assumes "refreshed os rt = (rt', r)" and "engine_wf (rt_engine rt)"
  shows "engine_wf (rt_engine rt')" and "r = Ok db \<Longrightarrow> db = te_db (rt_engine rt')"
proof -
  obtain s x where s: "refresh_all os (rt_engine rt) = (s, x)" by fastforce
  then have "engine_wf s"
    using engine_steps_wf [OF refresh_steps [OF assms(2), of os] assms(2)] by simp
  then show "engine_wf (rt_engine rt')" "r = Ok db \<Longrightarrow> db = te_db (rt_engine rt')"
    using assms s
    by (cases x; fastforce simp: refreshed_def lock_tasks_def with_engine_def split: if_splits)+
qed

lemma events_page_consecutive_i64:
  assumes "events_wf evs" and "significant_events_for_object evs k r (Some after) limit = Ok page"
    and "\<not> pg_gap_before_page page" and "after < nat i64_max"
  shows "\<exists>n. map sg_sequence (pg_events page) = [Suc after..<Suc (after + n)]
    \<and> (pg_next_sequence page = None \<longrightarrow> latest_sequence evs k r \<le> after + n)"
proof -
  obtain lo hi where seqs: "map sg_sequence (object_events evs k r) = [Suc lo..<Suc hi]"
    and hi: "hi \<le> nat i64_max" using assms(1) by (rule object_log_wfE)
  have small: "nat i64_max < u64_max" by (simp add: i64_max_def u64_max_def)
  have latest: "latest_sequence evs k r = (if lo < hi then hi else 0)"
    using max_sequence_upt [OF seqs] by (simp add: latest_sequence_def)
  let ?h = "max after (if lo < hi then hi else 0)"
  let ?rows = "take (unat limit + 1) (filter (\<lambda>x. after < sg_sequence x) (object_events evs k r))"
  have i64: "i64_of_u64 after = after" using assms(4) by (simp add: i64_of_u64_def)
  have page: "pg_events page = take (unat limit) ?rows"
    and more: "pg_next_sequence page = None \<longleftrightarrow> \<not> unat limit < length ?rows \<or> pg_events page = []"
    and limit: "limit \<noteq> 0"
    and nogap: "lo < hi \<Longrightarrow> lo \<le> after"
    using assms(2,3) small assms(4) min_sequence_upt [OF seqs]
    by (auto simp: significant_events_for_object_def Let_def i64 filter_sorted_id [OF assms(1)]
        sat_add_u64_def split: if_splits)
  have "map sg_sequence (filter (\<lambda>x. after < sg_sequence x) (object_events evs k r))
      = filter ((<) after) [Suc lo..<Suc hi]"
    by (simp add: filter_map o_def del: upt_Suc flip: seqs)
  also have "\<dots> = [Suc (max lo after)..<Suc hi]" by (rule filter_gt_upt)
  also have "\<dots> = [Suc after..<Suc (max after (if lo < hi then hi else 0))]"
    using nogap by (cases "lo < hi") (auto simp: max_def)
  finally have rows: "map sg_sequence (filter (\<lambda>x. after < sg_sequence x) (object_events evs k r))
      = [Suc after..<Suc ?h]" .
  then have len: "length (filter (\<lambda>x. after < sg_sequence x) (object_events evs k r)) = ?h - after"
    by (metis diff_Suc_Suc length_map length_upt)
  let ?n = "min (unat limit) (?h - after)"
  have "map sg_sequence (pg_events page) = [Suc after..<Suc (after + ?n)]"
    unfolding page by (auto simp: take_map [symmetric] rows take_upt min_def simp del: upt_Suc)
  moreover have "latest_sequence evs k r \<le> after + ?n" if "pg_next_sequence page = None"
  proof -
    have "unat limit \<noteq> 0" using limit by (simp add: unat_eq_zero)
    then have "unat limit < length ?rows \<longrightarrow> length ?rows = 0"
      using that unfolding more page by auto
    then have "?h - after \<le> unat limit" unfolding length_take len by linarith
    then have "?n = ?h - after" by (rule min_absorb2)
    then have "?h \<le> after + ?n" by (simp only: le_add_diff_inverse max.cobounded1)
    then show ?thesis unfolding latest by (rule order_trans [OF max.cobounded2])
  qed
  ultimately show ?thesis by (intro exI [of _ ?n] conjI impI)
qed

lemma events_page_consecutive:
  assumes "events_wf evs" and "significant_events_for_object evs k r (Some after) limit = Ok page"
    and "\<not> pg_gap_before_page page"
  shows "\<exists>n. map sg_sequence (pg_events page) = [Suc after..<Suc (after + n)]
    \<and> (pg_next_sequence page = None \<longrightarrow> latest_sequence evs k r \<le> after + n)"
proof (cases "after < nat i64_max")
  case True
  then show ?thesis using events_page_consecutive_i64 [OF assms] by blast
next
  case False
  then have i64: "i64_of_u64 after = nat i64_max" by (simp add: i64_of_u64_def)
  obtain lo hi where seqs: "map sg_sequence (object_events evs k r) = [Suc lo..<Suc hi]"
    and hi: "hi \<le> nat i64_max" using assms(1) by (rule object_log_wfE)
  have none: "filter (\<lambda>x. nat i64_max < sg_sequence x) (object_events evs k r) = []"
    using event_sequence_bound [OF assms(1)] by (auto simp: filter_empty_conv not_less)
  have "pg_events page = []"
    using assms(2) by (auto simp: significant_events_for_object_def Let_def i64 none split: if_splits)
  moreover have "latest_sequence evs k r \<le> after"
    using max_sequence_upt [OF seqs] hi False by (simp add: latest_sequence_def)
  ultimately show ?thesis by (intro exI [of _ 0]) simp
qed

lemma events_page_rows:
  assumes "significant_events_for_object evs k r after limit = Ok page"
  shows "set (pg_events page) \<subseteq> set (object_events evs k r)"
  using assms
  by (auto simp: significant_events_for_object_def Let_def split: if_splits dest!: in_set_takeD)

text \<open>The database a page read answers from: the engine has recorded exited children first.\<close>

definition page_db :: "Os \<Rightarrow> RuntimeTasks \<Rightarrow> PortusState" where
  "page_db os rt = te_db (rt_engine (fst (refreshed os rt)))"

lemma page_db_wf: "engine_wf (rt_engine rt) \<Longrightarrow> task_db_wf (page_db os rt)"
  using refreshed_wf(1) [of os rt "fst (refreshed os rt)" "snd (refreshed os rt)"]
  by (simp add: page_db_def)

lemma stream_page_Ok:
  assumes "snd (task_event_page_for_stream os rt p t after limit) = Ok page"
    and "engine_wf (rt_engine rt)"
  shows "task_events_visible (page_db os rt) t p after limit = Ok (Some page)"
proof -
  obtain rt' db where r: "refreshed os rt = (rt', Ok db)"
    and v: "task_events_visible db t p after limit = Ok (Some page)"
    using assms(1)
    by (cases "refreshed os rt"; cases "snd (refreshed os rt)")
      (auto simp: task_event_page_for_stream_def result_simps split: sum.splits option.splits)
  then show ?thesis using refreshed_wf(2) [OF r assms(2)] by (simp add: page_db_def)
qed

end
