(* ===== verification/Task_Stream.thy ===== *)
theory Task_Stream
  imports Runtime_Tasks Framing
begin

section \<open>Following the events of a task\<close>

text \<open>
  \<open>serve_task_event_stream\<close> of \<^verbatim>\<open>portusd/src/unix.rs\<close>: the connection that follows a task's events.
  Other connections use the same runtime core while it runs, so what each of its page reads
  finds is an argument (\<open>sp_seen\<close>, by the number of the read), and so is the outcome of each wait for
  a wake-up. A frame is written through the bounded framing; the frames the writer accepted are
  recorded beside it. One turn of the loop is a definition of its own, so that statements cover
  streams that have not ended as well as those that have.
\<close>

record TaskEventFollowParams =
  fp_task_id :: TaskId
  fp_after_sequence :: "nat option"
  fp_limit :: u16

datatype WakeUp = Woken | WakeTimeout | WakeDisconnected

datatype Flow = KeepFollowing | Finished

record 'w StreamPorts =
  sp_seen :: "nat \<Rightarrow> Os \<times> RuntimeTasks"
  sp_wake :: "nat \<Rightarrow> WakeUp"
  sp_to_vec :: "TaskEventStreamFrame \<Rightarrow> string option"
  sp_port :: "'w WritePort"
  sp_max_frame_bytes :: nat
  sp_from_params :: "json \<Rightarrow> TaskEventFollowParams option"

record 'w Stream =
  so_writer :: 'w
  so_frames :: "TaskEventStreamFrame list"
  so_after :: nat
  so_reads :: nat
  so_waits :: nat

definition stream_start :: "'w \<Rightarrow> nat \<Rightarrow> 'w Stream" where
  "stream_start w after = \<lparr>so_writer = w, so_frames = [], so_after = after, so_reads = 0, so_waits = 0\<rparr>"

definition send_frame ::
  "'w StreamPorts \<Rightarrow> 'w Stream \<Rightarrow> TaskEventStreamFrame \<Rightarrow> 'w Stream \<times> (FrameError + unit)" where
  "send_frame ports s f =
     (case write_json_line (sp_to_vec ports) (sp_port ports) (so_writer s) f (sp_max_frame_bytes ports) of
        (w, Inl e) \<Rightarrow> (s\<lparr>so_writer := w\<rparr>, Err e)
      | (w, Inr _) \<Rightarrow> (s\<lparr>so_writer := w, so_frames := so_frames s @ [f]\<rparr>, Ok ()))"

fun emit_task_event_page ::
  "'w StreamPorts \<Rightarrow> RequestId \<Rightarrow> TaskEvent list \<Rightarrow> 'w Stream \<Rightarrow> 'w Stream \<times> (FrameError + unit)" where
  "emit_task_event_page ports i [] s = (s, Ok ())"
| "emit_task_event_page ports i (ev # evs) s =
     (if te_sequence ev \<le> so_after s then emit_task_event_page ports i evs s
      else st_then (send_frame ports s (frame_event i ev)) (\<lambda>s _.
           emit_task_event_page ports i evs (s\<lparr>so_after := te_sequence ev\<rparr>)))"

definition stream_read ::
  "'w StreamPorts \<Rightarrow> Principal \<Rightarrow> TaskId \<Rightarrow> u16 \<Rightarrow> 'w Stream \<Rightarrow> 'w Stream \<times> (SemanticError + TaskEventPage)" where
  "stream_read ports p t limit s =
     (case sp_seen ports (so_reads s) of (os, rt) \<Rightarrow>
        (s\<lparr>so_reads := so_reads s + 1\<rparr>,
         snd (task_event_page_for_stream os rt p t (Some (so_after s)) limit)))"

definition stream_wait :: "'w StreamPorts \<Rightarrow> 'w Stream \<Rightarrow> 'w Stream \<times> WakeUp" where
  "stream_wait ports s = (s\<lparr>so_waits := so_waits s + 1\<rparr>, sp_wake ports (so_waits s))"

definition finish_with ::
  "'w StreamPorts \<Rightarrow> 'w Stream \<Rightarrow> TaskEventStreamFrame \<Rightarrow> 'w Stream \<times> (FrameError + Flow)" where
  "finish_with ports s f = st_then (send_frame ports s f) (\<lambda>s _. (s, Ok Finished))"

definition stale_stream :: "nat \<Rightarrow> TaskEventPage \<Rightarrow> SemanticError" where
  "stale_stream after page =
     semantic_error_with_detail (semantic_error_with_detail (semantic_error_with_detail
       (semantic_error_new CodeStaleResource ''requested task event sequence is older than retained history'')
       ''requested_after'' (json_u64 after))
       ''retained_from'' (json_u64_option (ep_retained_from_sequence page)))
       ''latest_sequence'' (json_u64 (ep_latest_sequence page))"

definition idle_pruned :: SemanticError where
  "idle_pruned = semantic_error_new CodeStaleResource
     ''task event history was pruned while the stream was idle''"

definition idle_timeout :: SemanticError where
  "idle_timeout = semantic_error_retryable
     (semantic_error_new CodeTimeout ''task event stream reached its idle timeout'') True"

definition wake_disconnected :: SemanticError where
  "wake_disconnected = semantic_error_retryable
     (semantic_error_new CodeUnavailable ''runtime event wake-up channel disconnected'') True"

text \<open>The state an end frame reports, once everything up to the newest event has been written.\<close>

definition stream_ended :: "TaskEventPage \<Rightarrow> nat \<Rightarrow> TaskState option" where
  "stream_ended page after =
     (case ep_terminal_state page of
        Some terminal \<Rightarrow> if ep_latest_sequence page \<le> after then Some terminal else None
      | None \<Rightarrow> None)"

definition final_page_turn ::
  "'w StreamPorts \<Rightarrow> RequestId \<Rightarrow> Principal \<Rightarrow> TaskId \<Rightarrow> u16 \<Rightarrow> 'w Stream \<Rightarrow> 'w Stream \<times> (FrameError + Flow)" where
  "final_page_turn ports i p t limit s =
     (case stream_read ports p t limit s of
        (s, Inl e) \<Rightarrow> finish_with ports s (frame_error i e)
      | (s, Inr page) \<Rightarrow>
          if ep_gap_before_page page then finish_with ports s (frame_error i idle_pruned)
          else st_then (emit_task_event_page ports i (ep_events page) s) (\<lambda>s _.
            case stream_ended page (so_after s) of
              Some terminal \<Rightarrow> finish_with ports s (frame_end i (task_state_as_str terminal))
            | None \<Rightarrow> finish_with ports s (frame_error i idle_timeout)))"

definition stream_turn ::
  "'w StreamPorts \<Rightarrow> RequestId \<Rightarrow> Principal \<Rightarrow> TaskId \<Rightarrow> u16 \<Rightarrow> 'w Stream \<Rightarrow> 'w Stream \<times> (FrameError + Flow)" where
  "stream_turn ports i p t limit s =
     (case stream_read ports p t limit s of
        (s, Inl e) \<Rightarrow> finish_with ports s (frame_error i e)
      | (s, Inr page) \<Rightarrow>
          if ep_gap_before_page page
          then finish_with ports s (frame_error i (stale_stream (so_after s) page))
          else st_then (emit_task_event_page ports i (ep_events page) s) (\<lambda>s _.
            if ep_next_sequence page \<noteq> None then (s, Ok KeepFollowing)
            else case stream_ended page (so_after s) of
              Some terminal \<Rightarrow> finish_with ports s (frame_end i (task_state_as_str terminal))
            | None \<Rightarrow>
                (case stream_wait ports s of
                   (s, Woken) \<Rightarrow> (s, Ok KeepFollowing)
                 | (s, WakeTimeout) \<Rightarrow> final_page_turn ports i p t limit s
                 | (s, WakeDisconnected) \<Rightarrow> finish_with ports s (frame_error i wake_disconnected))))"

partial_function (option) stream_loop ::
  "'w StreamPorts \<Rightarrow> RequestId \<Rightarrow> Principal \<Rightarrow> TaskId \<Rightarrow> u16 \<Rightarrow> 'w Stream
    \<Rightarrow> ('w Stream \<times> (FrameError + unit)) option" where
  "stream_loop ports i p t limit s =
     (case stream_turn ports i p t limit s of
        (s, Inl e) \<Rightarrow> Some (s, Err e)
      | (s, Inr flow) \<Rightarrow>
          if flow = Finished then Some (s, Ok ()) else stream_loop ports i p t limit s)"

definition reply_error ::
  "'w StreamPorts \<Rightarrow> 'w \<Rightarrow> RequestId \<Rightarrow> SemanticError \<Rightarrow> ('w Stream \<times> (FrameError + unit)) option" where
  "reply_error ports w i e = Some (send_frame ports (stream_start w 0) (frame_error i e))"

definition serve_task_event_stream ::
  "'w StreamPorts \<Rightarrow> 'w \<Rightarrow> Principal \<Rightarrow> json RequestEnvelope \<Rightarrow> ('w Stream \<times> (FrameError + unit)) option" where
  "serve_task_event_stream ports w p rq =
     (case request_validate rq of
        Inl e \<Rightarrow> reply_error ports w (rq_request_id rq)
                   (semantic_error_new (protocol_error_semantic_code e) (protocol_error_to_string e))
      | Inr _ \<Rightarrow>
          (case sp_from_params ports (rq_params rq) of
             None \<Rightarrow> reply_error ports w (rq_request_id rq) (semantic_error_new CodeInvalidRequest
                       ''task event stream parameters do not match the expected schema'')
           | Some ps \<Rightarrow>
               stream_loop ports (rq_request_id rq) p (fp_task_id ps) (fp_limit ps)
                 (stream_start w (case fp_after_sequence ps of None \<Rightarrow> 0 | Some a \<Rightarrow> a))))"

subsection \<open>What a stream has written at any moment\<close>

inductive stream_run ::
  "'w StreamPorts \<Rightarrow> RequestId \<Rightarrow> Principal \<Rightarrow> TaskId \<Rightarrow> u16 \<Rightarrow> 'w Stream \<Rightarrow> 'w Stream \<Rightarrow> FrameError + Flow \<Rightarrow> bool"
  for ports i p t limit s0 where
  begin_stream: "stream_run ports i p t limit s0 s0 (Ok KeepFollowing)"
| next_turn: "stream_run ports i p t limit s0 s (Ok KeepFollowing) \<Longrightarrow>
    stream_turn ports i p t limit s = (s', r) \<Longrightarrow> stream_run ports i p t limit s0 s' r"

text \<open>
  The vocabulary of the specification. \<open>event_seen\<close>: one of the first \<open>n\<close> page reads found the event
  in the log of a task the principal may see. \<open>sent_in_order\<close>: the event frames are those of
  such events, with the sequence numbers \<open>after0 + 1, \<dots>, so_after\<close> in order. \<open>ended_properly\<close>: a page
  read found the task in the reported terminal state with nothing newer than what was sent.
\<close>

definition read_db :: "'w StreamPorts \<Rightarrow> nat \<Rightarrow> PortusState" where
  "read_db ports k = page_db (fst (sp_seen ports k)) (snd (sp_seen ports k))"

definition event_seen :: "'w StreamPorts \<Rightarrow> Principal \<Rightarrow> TaskId \<Rightarrow> nat \<Rightarrow> TaskEvent \<Rightarrow> bool" where
  "event_seen ports p t n ev \<longleftrightarrow>
     (\<exists>k < n. task_summary_visible (read_db ports k) t p \<noteq> None
        \<and> ev \<in> task_event_of t ` set (object_events (db_events (read_db ports k)) ObjTask t))"

definition sent_in_order ::
  "'w StreamPorts \<Rightarrow> RequestId \<Rightarrow> Principal \<Rightarrow> TaskId \<Rightarrow> nat \<Rightarrow> 'w Stream \<Rightarrow> TaskEventStreamFrame list \<Rightarrow> bool" where
  "sent_in_order ports i p t after0 s tail \<longleftrightarrow>
     (\<exists>evs. so_frames s = map (frame_event i) evs @ tail
        \<and> map te_sequence evs = [Suc after0..<Suc (so_after s)] \<and> after0 \<le> so_after s
        \<and> (\<forall>ev\<in>set evs. event_seen ports p t (so_reads s) ev))"

definition ended_properly ::
  "'w StreamPorts \<Rightarrow> Principal \<Rightarrow> TaskId \<Rightarrow> 'w Stream \<Rightarrow> TaskState \<Rightarrow> bool" where
  "ended_properly ports p t s terminal \<longleftrightarrow>
     (\<exists>k < so_reads s. \<exists>task. task_summary_visible (read_db ports k) t p = Some task
        \<and> is_terminal terminal \<and> tk_state task = terminal
        \<and> latest_sequence (db_events (read_db ports k)) ObjTask t \<le> so_after s)"

subsection \<open>One page\<close>

lemma send_frame_cases:
  assumes "send_frame ports s f = (s', r)"
  obtains (accepted) w where "s' = s\<lparr>so_writer := w, so_frames := so_frames s @ [f]\<rparr>" "r = Ok ()"
  | (failed) w e where "s' = s\<lparr>so_writer := w\<rparr>" "r = Err e"
  using assms unfolding send_frame_def by (auto split: prod.splits sum.splits)

lemma emit_page:
  assumes "emit_task_event_page ports i evs s = (s', r)"
    and "map te_sequence evs = [Suc (so_after s)..<Suc (so_after s + n)]"
  shows "\<exists>m\<le>n. so_frames s' = so_frames s @ map (frame_event i) (take m evs)
    \<and> so_after s' = so_after s + m \<and> so_reads s' = so_reads s \<and> so_waits s' = so_waits s
    \<and> (r = Ok () \<longrightarrow> m = n)"
  using assms
proof (induction evs arbitrary: s n)
  case Nil
  then show ?case by (auto split: if_splits)
next
  case (Cons ev evs)
  obtain n' where n: "n = Suc n'" using Cons.prems(2) by (cases n) (auto simp del: upt_Suc)
  have ev: "te_sequence ev = Suc (so_after s)"
    and rest: "map te_sequence evs = [Suc (Suc (so_after s))..<Suc (so_after s + n)]"
    using Cons.prems(2) n by (auto simp: upt_conv_Cons simp del: upt_Suc)
  obtain s1 r1 where send: "send_frame ports s (frame_event i ev) = (s1, r1)" by fastforce
  from send show ?case
  proof (cases rule: send_frame_cases)
    case (failed w e)
    then show ?thesis using Cons.prems(1) send ev by (intro exI [of _ 0]) auto
  next
    case (accepted w)
    let ?s = "s1\<lparr>so_after := te_sequence ev\<rparr>"
    have "emit_task_event_page ports i evs ?s = (s', r)"
      using Cons.prems(1) send accepted ev by simp
    moreover have "map te_sequence evs = [Suc (so_after ?s)..<Suc (so_after ?s + n')]"
      using rest n ev by simp
    ultimately obtain m where "m \<le> n'"
      "so_frames s' = so_frames ?s @ map (frame_event i) (take m evs)"
      "so_after s' = so_after ?s + m" "so_reads s' = so_reads ?s" "so_waits s' = so_waits ?s"
      "r = Ok () \<longrightarrow> m = n'"
      using Cons.IH by blast
    then show ?thesis using accepted ev n by (intro exI [of _ "Suc m"]) simp
  qed
qed

lemma visible_page:
  assumes "task_events_visible db t p (Some after) limit = Ok (Some page)" and "task_db_wf db"
    and nogap: "\<not> ep_gap_before_page page"
  obtains task n where "task_summary_visible db t p = Some task"
    "set (ep_events page) \<subseteq> task_event_of t ` set (object_events (db_events db) ObjTask t)"
    "latest_sequence (db_events db) ObjTask t \<le> ep_latest_sequence page"
    "\<forall>s. ep_terminal_state page = Some s \<longrightarrow> is_terminal s \<and> tk_state task = s"
    "map te_sequence (ep_events page) = [Suc after..<Suc (after + n)]"
    "ep_next_sequence page = None \<longrightarrow> latest_sequence (db_events db) ObjTask t \<le> after + n"
proof -
  obtain task pg where task: "task_summary_visible db t p = Some task"
    and pg: "significant_events_for_object (db_events db) ObjTask t (Some after) limit = Ok pg"
    and page: "page = \<lparr>ep_events = map (task_event_of t) (pg_events pg),
        ep_retained_from_sequence = pg_retained_from_sequence pg,
        ep_latest_sequence = max (pg_latest_sequence pg) (tk_last_event_sequence task),
        ep_gap_before_page = pg_gap_before_page pg, ep_next_sequence = pg_next_sequence pg,
        ep_terminal_state = (if is_terminal (tk_state task) then Some (tk_state task) else None)\<rparr>"
    using assms(1) unfolding task_events_visible_def
    by (auto simp: result_simps split: option.splits if_splits)
  have ev: "te_sequence (task_event_of t x) = sg_sequence x" for x by (simp add: task_event_of_def)
  have wf: "events_wf (db_events db)" using assms(2) by (simp add: task_db_wf_def)
  have "\<not> pg_gap_before_page pg" using nogap page by simp
  from events_page_consecutive [OF wf pg this] obtain n
    where n: "map sg_sequence (pg_events pg) = [Suc after..<Suc (after + n)]
      \<and> (pg_next_sequence pg = None \<longrightarrow> latest_sequence (db_events db) ObjTask t \<le> after + n)" ..
  have latest: "pg_latest_sequence pg = latest_sequence (db_events db) ObjTask t"
    using pg by (auto simp: significant_events_for_object_def Let_def latest_sequence_def split: if_splits)
  show thesis
  proof (rule that [OF task])
    show "set (ep_events page) \<subseteq> task_event_of t ` set (object_events (db_events db) ObjTask t)"
      using events_page_rows [OF pg] page by auto
    show "latest_sequence (db_events db) ObjTask t \<le> ep_latest_sequence page" using page latest by simp
    show "\<forall>s. ep_terminal_state page = Some s \<longrightarrow> is_terminal s \<and> tk_state task = s"
      using page by (auto split: if_splits)
    show "map te_sequence (ep_events page) = [Suc after..<Suc (after + n)]"
      using conjunct1 [OF n] unfolding page by (simp add: o_def ev del: upt_Suc)
    show "ep_next_sequence page = None \<longrightarrow> latest_sequence (db_events db) ObjTask t \<le> after + n"
      using conjunct2 [OF n] unfolding page by simp
  qed
qed

subsection \<open>One turn\<close>

definition stream_ok ::
  "'w StreamPorts \<Rightarrow> RequestId \<Rightarrow> Principal \<Rightarrow> TaskId \<Rightarrow> nat \<Rightarrow> 'w Stream \<Rightarrow> FrameError + Flow \<Rightarrow> bool" where
  "stream_ok ports i p t after0 s r \<longleftrightarrow>
     (if r = Ok Finished
      then (\<exists>e. sent_in_order ports i p t after0 s [frame_error i e])
        \<or> (\<exists>terminal. sent_in_order ports i p t after0 s [frame_end i (task_state_as_str terminal)]
             \<and> ended_properly ports p t s terminal)
      else sent_in_order ports i p t after0 s [])"

lemma event_seen_mono: "event_seen ports p t n ev \<Longrightarrow> n \<le> m \<Longrightarrow> event_seen ports p t m ev"
  unfolding event_seen_def by (meson order_less_le_trans)

lemma sent_in_order_same:
  assumes "so_frames s' = so_frames s @ fs" "so_after s' = so_after s" "so_reads s \<le> so_reads s'"
    and "sent_in_order ports i p t after0 s []"
  shows "sent_in_order ports i p t after0 s' fs"
proof -
  obtain evs where "so_frames s = map (frame_event i) evs"
    "map te_sequence evs = [Suc after0..<Suc (so_after s)]" "after0 \<le> so_after s"
    "\<forall>ev\<in>set evs. event_seen ports p t (so_reads s) ev"
    using assms(4) by (auto simp: sent_in_order_def simp del: upt_Suc)
  then show ?thesis
    unfolding sent_in_order_def
    using assms(1-3) event_seen_mono [of ports p t "so_reads s" _ "so_reads s'"]
    by (intro exI [of _ evs]) (auto simp del: upt_Suc)
qed

lemma finish_frame:
  assumes "finish_with ports s f = (s', r)" "sent_in_order ports i p t after0 s []"
  shows "r = Ok Finished \<Longrightarrow> sent_in_order ports i p t after0 s' [f]"
    and "r \<noteq> Ok Finished \<Longrightarrow> sent_in_order ports i p t after0 s' []"
    and "ended_properly ports p t s terminal \<Longrightarrow> ended_properly ports p t s' terminal"
proof -
  obtain s1 r1 where send: "send_frame ports s f = (s1, r1)" by fastforce
  have *: "(r = Ok Finished \<longrightarrow> so_frames s' = so_frames s @ [f])
      \<and> (r \<noteq> Ok Finished \<longrightarrow> so_frames s' = so_frames s @ [])
      \<and> so_after s' = so_after s \<and> so_reads s' = so_reads s"
    using assms(1) unfolding finish_with_def send by (cases rule: send_frame_cases [OF send]) auto
  then show "r = Ok Finished \<Longrightarrow> sent_in_order ports i p t after0 s' [f]"
    and "r \<noteq> Ok Finished \<Longrightarrow> sent_in_order ports i p t after0 s' []"
    using sent_in_order_same [OF _ _ _ assms(2)] by simp_all
  show "ended_properly ports p t s terminal \<Longrightarrow> ended_properly ports p t s' terminal"
    using * by (simp add: ended_properly_def)
qed

lemma finish_error_ok:
  assumes "finish_with ports s (frame_error i e) = (s', r)" "sent_in_order ports i p t after0 s []"
  shows "stream_ok ports i p t after0 s' r"
  using finish_frame [OF assms] unfolding stream_ok_def by auto

lemma finish_end_ok:
  assumes "finish_with ports s (frame_end i (task_state_as_str terminal)) = (s', r)"
    and "sent_in_order ports i p t after0 s []" "ended_properly ports p t s terminal"
  shows "stream_ok ports i p t after0 s' r"
  using finish_frame [OF assms(1,2)] assms(3) unfolding stream_ok_def by auto

lemma read_and_emit:
  assumes wf: "\<And>n. engine_wf (rt_engine (snd (sp_seen ports n)))"
    and sent: "sent_in_order ports i p t after0 s []"
    and read: "stream_read ports p t limit s = (s1, Ok page)" and nogap: "\<not> ep_gap_before_page page"
    and emit: "emit_task_event_page ports i (ep_events page) s1 = (s2, r)"
  shows "sent_in_order ports i p t after0 s2 []"
    and "stream_ended page (so_after s2) = Some terminal \<Longrightarrow> ended_properly ports p t s2 terminal"
proof -
  let ?db = "read_db ports (so_reads s)"
  have s1: "s1 = s\<lparr>so_reads := Suc (so_reads s)\<rparr>"
    and visible: "task_events_visible ?db t p (Some (so_after s)) limit = Ok (Some page)"
    using read wf stream_page_Ok
    by (auto simp: stream_read_def read_db_def case_prod_beta)
  have "task_db_wf ?db" unfolding read_db_def using wf by (rule page_db_wf)
  from visible this obtain task n where task: "task_summary_visible ?db t p = Some task"
    and rows: "set (ep_events page) \<subseteq> task_event_of t ` set (object_events (db_events ?db) ObjTask t)"
    and latest: "latest_sequence (db_events ?db) ObjTask t \<le> ep_latest_sequence page"
    and terminal: "\<forall>x. ep_terminal_state page = Some x \<longrightarrow> is_terminal x \<and> tk_state task = x"
    and seqs: "map te_sequence (ep_events page) = [Suc (so_after s)..<Suc (so_after s + n)]"
    using nogap by (rule visible_page)
  have seqs1: "map te_sequence (ep_events page) = [Suc (so_after s1)..<Suc (so_after s1 + n)]"
    using seqs by (simp add: s1 del: upt_Suc)
  obtain m where m: "m \<le> n" "so_frames s2 = so_frames s @ map (frame_event i) (take m (ep_events page))"
    "so_after s2 = so_after s + m" "so_reads s2 = Suc (so_reads s)"
    using emit_page [OF emit seqs1] by (auto simp: s1)
  have new: "event_seen ports p t (so_reads s2) ev" if "ev \<in> set (take m (ep_events page))" for ev
    unfolding event_seen_def
    using that task rows m(4) by (intro exI [of _ "so_reads s"]) (auto dest: in_set_takeD)
  obtain evs where evs: "so_frames s = map (frame_event i) evs"
    "map te_sequence evs = [Suc after0..<Suc (so_after s)]" "after0 \<le> so_after s"
    "\<forall>ev\<in>set evs. event_seen ports p t (so_reads s) ev"
    using sent by (auto simp: sent_in_order_def simp del: upt_Suc)
  have "map te_sequence (take m (ep_events page)) = [Suc (so_after s)..<Suc (so_after s + m)]"
    using m(1) by (simp add: seqs take_map [symmetric] take_upt del: upt_Suc)
  then have "map te_sequence (evs @ take m (ep_events page)) = [Suc after0..<Suc (so_after s2)]"
    using evs(2,3) m(3) upt_add_eq_append [of "Suc after0" "Suc (so_after s)" m]
    by (simp del: upt_Suc)
  then show "sent_in_order ports i p t after0 s2 []"
    unfolding sent_in_order_def using evs m new
      event_seen_mono [of ports p t "so_reads s" _ "so_reads s2"]
    by (intro exI [of _ "evs @ take m (ep_events page)"]) (auto simp del: upt_Suc)
  show "stream_ended page (so_after s2) = Some terminal \<Longrightarrow> ended_properly ports p t s2 terminal"
    unfolding ended_properly_def using task latest terminal m(4)
    by (intro exI [of _ "so_reads s"]) (auto simp: stream_ended_def split: option.splits if_splits)
qed

lemma final_page_ok:
  assumes wf: "\<And>n. engine_wf (rt_engine (snd (sp_seen ports n)))"
    and sent: "sent_in_order ports i p t after0 s []"
    and turn: "final_page_turn ports i p t limit s = (s', r)"
  shows "stream_ok ports i p t after0 s' r"
proof -
  obtain s1 res where read: "stream_read ports p t limit s = (s1, res)" by fastforce
  have sent1: "sent_in_order ports i p t after0 s1 []"
    using read by (intro sent_in_order_same [OF _ _ _ sent]) (auto simp: stream_read_def case_prod_beta)
  show ?thesis
  proof (cases res)
    case (Inl e)
    then show ?thesis using turn read finish_error_ok [OF _ sent1] by (simp add: final_page_turn_def)
  next
    case (Inr page)
    show ?thesis
    proof (cases "ep_gap_before_page page")
      case True
      then show ?thesis
        using turn read Inr finish_error_ok [OF _ sent1] by (simp add: final_page_turn_def)
    next
      case False
      obtain s2 r2 where emit: "emit_task_event_page ports i (ep_events page) s1 = (s2, r2)" by fastforce
      note emitted = read_and_emit [OF wf sent read [unfolded Inr] False emit]
      show ?thesis
        using turn read Inr False emit emitted(1) finish_error_ok [OF _ emitted(1)]
          finish_end_ok [OF _ emitted]
        by (cases r2) (auto simp: final_page_turn_def stream_ok_def split: option.splits)
    qed
  qed
qed

lemma stream_turn_ok:
  assumes wf: "\<And>n. engine_wf (rt_engine (snd (sp_seen ports n)))"
    and sent: "sent_in_order ports i p t after0 s []"
    and turn: "stream_turn ports i p t limit s = (s', r)"
  shows "stream_ok ports i p t after0 s' r"
proof -
  obtain s1 res where read: "stream_read ports p t limit s = (s1, res)" by fastforce
  have sent1: "sent_in_order ports i p t after0 s1 []"
    using read by (intro sent_in_order_same [OF _ _ _ sent]) (auto simp: stream_read_def case_prod_beta)
  show ?thesis
  proof (cases res)
    case (Inl e)
    then show ?thesis using turn read finish_error_ok [OF _ sent1] by (simp add: stream_turn_def)
  next
    case (Inr page)
    show ?thesis
    proof (cases "ep_gap_before_page page")
      case True
      then show ?thesis
        using turn read Inr finish_error_ok [OF _ sent1] by (simp add: stream_turn_def)
    next
      case False
      obtain s2 r2 where emit: "emit_task_event_page ports i (ep_events page) s1 = (s2, r2)" by fastforce
      note emitted = read_and_emit [OF wf sent read [unfolded Inr] False emit]
      have waited: "sent_in_order ports i p t after0 (fst (stream_wait ports s2)) []"
        by (intro sent_in_order_same [OF _ _ _ emitted(1)]) (simp_all add: stream_wait_def)
      show ?thesis
        using turn read Inr False emit emitted(1) waited finish_error_ok [OF _ waited]
          final_page_ok [OF wf waited] finish_end_ok [OF _ emitted]
        by (cases r2; cases "snd (stream_wait ports s2)")
          (auto simp: stream_turn_def stream_ok_def case_prod_beta split: option.splits if_splits)
    qed
  qed
qed

end
