(* ===== verification/Task_Stream_Properties.thy ===== *)
theory Task_Stream_Properties
  imports Task_Stream
begin

section \<open>Properties of the task event stream\<close>

text \<open>
  Two statements about \<open>serve_task_event_stream\<close>: whatever the other connections do meanwhile, what has
  been written at any moment is the next events of the task in sequence, and a stream
  over a task that has ended returns after delivering everything retained.
\<close>

subsection \<open>The frames of a finished task\<close>

lemma filter_after_drop:
  "map f xs = [Suc a..<Suc b] \<Longrightarrow> filter (\<lambda>x. a + n < f x) xs = drop n xs"
proof (induction xs arbitrary: a n)
  case Nil
  then show ?case by simp
next
  case (Cons x xs)
  then have "a < b" by (cases "a < b") auto
  then have x: "f x = Suc a" and xs: "map f xs = [Suc (Suc a)..<Suc b]"
    using Cons.prems by (auto simp: upt_conv_Cons simp del: upt_Suc)
  show ?case
  proof (cases n)
    case 0
    have "\<forall>y\<in>set xs. a < f y"
    proof
      fix y assume "y \<in> set xs"
      then have "f y \<in> set (map f xs)" by simp
      then show "a < f y" unfolding xs by (simp del: upt_Suc)
    qed
    then show ?thesis using 0 x by simp
  next
    case (Suc m)
    then show ?thesis using Cons.IH [OF xs, of m] x by simp
  qed
qed

lemma filter_i64:
  assumes "events_wf evs"
  shows "filter (\<lambda>x. i64_of_u64 a < sg_sequence x) (object_events evs k r)
    = filter (\<lambda>x. a < sg_sequence x) (object_events evs k r)"
  using event_sequence_bound [OF assms] by (intro filter_cong refl) (force simp: i64_of_u64_def)

text \<open>
  \<open>nothing_pruned\<close>: a reader that has the events up to \<open>after\<close> can still be given the next one.
\<close>

definition nothing_pruned :: "PortusState \<Rightarrow> TaskId \<Rightarrow> nat \<Rightarrow> bool" where
  "nothing_pruned db t after \<longleftrightarrow>
     (case min_sequence (object_events (db_events db) ObjTask t) of
        None \<Rightarrow> True | Some first \<Rightarrow> first \<le> Suc after)"

definition events_after :: "PortusState \<Rightarrow> TaskId \<Rightarrow> nat \<Rightarrow> SignificantEvent list" where
  "events_after db t after =
     filter (\<lambda>x. after < sg_sequence x) (object_events (db_events db) ObjTask t)"

lemma events_after_sequences:
  assumes "task_db_wf db" "nothing_pruned db t after"
  obtains hi where "map sg_sequence (events_after db t after) = [Suc after..<Suc hi]"
    "latest_sequence (db_events db) ObjTask t \<le> hi"
    "after \<le> hi"
proof -
  let ?log = "object_events (db_events db) ObjTask t"
  obtain lo hi where seqs: "map sg_sequence ?log = [Suc lo..<Suc hi]"
    using assms(1) unfolding task_db_wf_def by (meson object_log_wfE)
  let ?h = "max after (if lo < hi then hi else 0)"
  have "map sg_sequence (events_after db t after) = filter ((<) after) [Suc lo..<Suc hi]"
    by (simp add: events_after_def filter_map o_def del: upt_Suc flip: seqs)
  also have "\<dots> = [Suc (max lo after)..<Suc hi]" by (rule filter_gt_upt)
  also have "\<dots> = [Suc after..<Suc ?h]"
    using assms(2) min_sequence_upt [OF seqs]
    by (cases "lo < hi") (auto simp: nothing_pruned_def max_def)
  finally show thesis
    using max_sequence_upt [OF seqs] by (intro that [of ?h]) (auto simp: latest_sequence_def)
qed

lemma settled_page:
  assumes wf: "task_db_wf db" and task: "task_summary_visible db t p = Some task"
    and limit: "1 \<le> limit" "limit \<le> 200" and kept: "nothing_pruned db t after"
  obtains page where "task_events_visible db t p (Some after) limit = Ok (Some page)"
    "\<not> ep_gap_before_page page"
    "ep_events page = map (task_event_of t) (take (unat limit) (events_after db t after))"
    "ep_next_sequence page = None \<longleftrightarrow> length (events_after db t after) \<le> unat limit"
    "ep_latest_sequence page = latest_sequence (db_events db) ObjTask t"
    "ep_terminal_state page = (if is_terminal (tk_state task) then Some (tk_state task) else None)"
proof -
  obtain x where x: "bt_get (db_tasks db) t = Some x" "task = task_summary_from_row db x"
    using task by (auto simp: task_summary_visible_def task_row_visible_Some)
  then have row: "task_row_wf (db_events db) t x" using task_db_wf_row [OF wf] by blast
  have evs: "events_wf (db_events db)" using wf by (simp add: task_db_wf_def)
  let ?rows = "events_after db t after"
  have pos: "0 < unat limit" using limit(1) by (simp add: word_le_nat_alt)
  have l: "limit \<noteq> 0" "\<not> 200 < limit" using limit by auto
  have nogap: "\<not> sat_add_u64 after 1 < first"
    if "min_sequence (object_events (db_events db) ObjTask t) = Some first" for first
  proof -
    obtain lo hi where seqs: "map sg_sequence (object_events (db_events db) ObjTask t) = [Suc lo..<Suc hi]"
      and hi: "hi \<le> nat i64_max" using evs by (rule object_log_wfE)
    have "first \<le> nat i64_max" using that hi min_sequence_upt [OF seqs] by (auto split: if_splits)
    moreover have "nat i64_max < u64_max" by (simp add: i64_max_def u64_max_def)
    ultimately show ?thesis using that kept by (auto simp: nothing_pruned_def sat_add_u64_def)
  qed
  let ?page = "\<lparr>ep_events = map (task_event_of t) (take (unat limit) ?rows),
     ep_retained_from_sequence = min_sequence (object_events (db_events db) ObjTask t),
     ep_latest_sequence = latest_sequence (db_events db) ObjTask t, ep_gap_before_page = False,
     ep_next_sequence = (if unat limit < length ?rows then Some (sg_sequence (last (take (unat limit) ?rows))) else None),
     ep_terminal_state = (if is_terminal (tk_state task) then Some (tk_state task) else None)\<rparr>"
  have "task_events_visible db t p (Some after) limit = Ok (Some ?page)"
    using task row x(2) l pos nogap
    by (auto simp: task_events_visible_def significant_events_for_object_def Let_def task_row_wf_def
        ref_ok_def MAX_SIGNIFICANT_EVENT_PAGE_def filter_sorted_id [OF evs] filter_i64 [OF evs]
        events_after_def latest_sequence_def split: option.splits)
  then show thesis by (rule that) simp_all
qed

definition writer_accepts :: "'w StreamPorts \<Rightarrow> bool" where
  "writer_accepts ports \<longleftrightarrow>
     (\<forall>w f. snd (write_json_line (sp_to_vec ports) (sp_port ports) w f (sp_max_frame_bytes ports)) = Ok ())"

lemma send_frame_accepted:
  assumes "writer_accepts ports"
  obtains w where "send_frame ports s f = (s\<lparr>so_writer := w, so_frames := so_frames s @ [f]\<rparr>, Ok ())"
proof -
  obtain s' r where send: "send_frame ports s f = (s', r)" by fastforce
  have "r = Ok ()"
    using send assms unfolding send_frame_def writer_accepts_def
    by (auto split: prod.splits sum.splits) (metis snd_conv sum.distinct(1))
  with send show thesis by (cases rule: send_frame_cases [OF send]) (auto intro: that)
qed

lemma emit_accepted:
  assumes "writer_accepts ports"
  shows "snd (emit_task_event_page ports i evs s) = Ok ()"
proof (induction evs arbitrary: s)
  case (Cons ev evs)
  obtain w where "send_frame ports s (frame_event i ev)
      = (s\<lparr>so_writer := w, so_frames := so_frames s @ [frame_event i ev]\<rparr>, Ok ())"
    using assms by (rule send_frame_accepted)
  then show ?case using Cons.IH by simp
qed simp

text \<open>
  What the page reads of a stream find of a task that has ended. \<open>finished_at db p t terminal log\<close>: in
  \<open>db\<close> the principal may see the task, it is in the state \<open>terminal\<close>, and its retained events are \<open>log\<close>.
  \<open>only_engine_between\<close>: from the runtime one read leaves behind (with its own refresh) to the one the
  next read finds, other connections ran operations of the engine, with whatever operating system.
\<close>

definition finished_at :: "PortusState \<Rightarrow> Principal \<Rightarrow> TaskId \<Rightarrow> TaskState \<Rightarrow> SignificantEvent list \<Rightarrow> bool" where
  "finished_at db p t terminal log \<longleftrightarrow>
     task_db_wf db \<and> is_terminal terminal \<and> object_events (db_events db) ObjTask t = log
   \<and> (\<exists>task. task_summary_visible db t p = Some task \<and> tk_state task = terminal)"

definition only_engine_between :: "'w StreamPorts \<Rightarrow> bool" where
  "only_engine_between ports \<longleftrightarrow>
     (\<forall>n. (\<lambda>s s'. \<exists>os. engine_op os s s')\<^sup>*\<^sup>*
        (rt_engine (fst (refreshed (fst (sp_seen ports n)) (snd (sp_seen ports n)))))
        (rt_engine (snd (sp_seen ports (Suc n)))))"

definition refreshes :: "'w StreamPorts \<Rightarrow> bool" where
  "refreshes ports \<longleftrightarrow> (\<forall>n. is_ok (snd (refreshed (fst (sp_seen ports n)) (snd (sp_seen ports n)))))"

lemma refreshed_steps:
  assumes "engine_wf (rt_engine rt)"
  shows "engine_steps (rt_engine rt) (rt_engine (fst (refreshed os rt)))"
proof -
  obtain s x where s: "refresh_all os (rt_engine rt) = (s, x)" by fastforce
  with refresh_steps [OF assms, of os] have "engine_steps (rt_engine rt) s" by simp
  then show ?thesis using s by (cases x) (auto simp: refreshed_def lock_tasks_def with_engine_def)
qed

lemma other_ops_steps:
  "(\<lambda>s s'. \<exists>os. engine_op os s s')\<^sup>*\<^sup>* s s' \<Longrightarrow> engine_wf s \<Longrightarrow> engine_steps s s'"
proof (induction rule: rtranclp_induct)
  case (step s' s'')
  then have "engine_steps s s'" and "engine_wf s'" using engine_steps_wf by auto
  with step(2) engine_op_steps show ?case by (meson rtranclp_trans)
qed simp

lemma reads_finished:
  assumes "engine_wf (rt_engine (snd (sp_seen ports 0)))" and "only_engine_between ports"
    and "task_summary_visible (read_db ports 0) t p = Some task" and "is_terminal (tk_state task)"
  shows "finished_at (read_db ports n) p t (tk_state task) (object_events (db_events (read_db ports 0)) ObjTask t)"
proof -
  define eng where "eng n = rt_engine (fst (refreshed (fst (sp_seen ports n)) (snd (sp_seen ports n))))" for n
  have db: "read_db ports n = te_db (eng n)" for n by (simp add: read_db_def page_db_def eng_def)
  obtain x where x: "bt_get (db_tasks (read_db ports 0)) t = Some x" "tk_owner x = p" "tk_state x = tk_state task"
    using assms(3) by (auto simp: task_summary_visible_def task_row_visible_Some)
  have "engine_wf (eng n) \<and> engine_steps (eng 0) (eng n)"
  proof (induction n)
    case 0
    show ?case using engine_steps_wf [OF refreshed_steps assms(1)] assms(1) by (simp add: eng_def)
  next
    case (Suc n)
    let ?rt = "rt_engine (snd (sp_seen ports (Suc n)))"
    have "engine_steps (eng n) ?rt"
      using assms(2) Suc by (intro other_ops_steps) (auto simp: only_engine_between_def eng_def)
    moreover from this have wf: "engine_wf ?rt" using Suc engine_steps_wf by blast
    moreover have "engine_steps ?rt (eng (Suc n))" using refreshed_steps [OF wf] by (simp add: eng_def)
    ultimately show ?case using Suc engine_steps_wf by (meson rtranclp_trans)
  qed
  moreover from this have "bt_get (db_tasks (read_db ports n)) t = Some x
      \<and> object_events (db_events (read_db ports n)) ObjTask t = object_events (db_events (read_db ports 0)) ObjTask t"
    using engine_steps_log [of "eng 0" "eng n" t x] x assms(4) by (simp add: db)
  ultimately show ?thesis
    using x assms(4) by (auto simp: finished_at_def db task_summary_visible_def task_row_visible_Some)
qed

lemma finished_log:
  assumes "finished_at db' p t terminal (object_events (db_events db) ObjTask t)"
  shows "events_after db' t = events_after db t" "nothing_pruned db' t = nothing_pruned db t"
    "latest_sequence (db_events db') ObjTask t = latest_sequence (db_events db) ObjTask t"
  using assms by (simp_all add: finished_at_def events_after_def nothing_pruned_def latest_sequence_def fun_eq_iff)

lemma settled_read:
  assumes "refreshes ports" and "1 \<le> limit" "limit \<le> 200"
    and "task_events_visible (read_db ports (so_reads s)) t p (Some (so_after s)) limit = Ok (Some page)"
  shows "stream_read ports p t limit s = (s\<lparr>so_reads := so_reads s + 1\<rparr>, Ok page)"
proof -
  obtain os rt where seen: "sp_seen ports (so_reads s) = (os, rt)" by fastforce
  obtain rt' db where ref: "refreshed os rt = (rt', Ok db)"
    using assms(1) seen unfolding refreshes_def is_ok_iff by (metis fst_conv prod.collapse snd_conv)
  have "db = te_db (rt_engine rt')"
    using ref by (auto simp: refreshed_def lock_tasks_def with_engine_def result_simps split: prod.splits if_splits)
  then have "read_db ports (so_reads s) = db" using seen ref by (simp add: read_db_def page_db_def)
  with assms(2,3,4) seen ref show ?thesis
    by (simp add: stream_read_def task_event_page_for_stream_def validate_limit_def)
qed

lemma settled_turn:
  assumes wf: "task_db_wf db" and refresh: "refreshes ports" and accepts: "writer_accepts ports"
    and reads: "\<And>n. finished_at (read_db ports n) p t terminal (object_events (db_events db) ObjTask t)"
    and limit: "1 \<le> limit" "limit \<le> 200" and kept: "nothing_pruned db t (so_after s)"
  obtains (more) s' where "stream_turn ports i p t limit s = (s', Ok KeepFollowing)"
      "so_after s' = so_after s + unat limit" "unat limit < length (events_after db t (so_after s))"
      "so_frames s' = so_frames s
         @ map (frame_event i \<circ> task_event_of t) (take (unat limit) (events_after db t (so_after s)))"
  | (over) s' where "stream_turn ports i p t limit s = (s', Ok Finished)"
      "so_frames s' = so_frames s @ map (frame_event i \<circ> task_event_of t) (events_after db t (so_after s))
         @ [frame_end i (task_state_as_str terminal)]"
proof -
  let ?rows = "events_after db t (so_after s)"
  let ?db = "read_db ports (so_reads s)"
  note same = finished_log [OF reads [of "so_reads s"]]
  obtain task where task: "task_summary_visible ?db t p = Some task" "tk_state task = terminal" "is_terminal terminal"
    and wf': "task_db_wf ?db"
    using reads [of "so_reads s"] by (auto simp: finished_at_def)
  obtain page where page: "task_events_visible ?db t p (Some (so_after s)) limit = Ok (Some page)"
    "\<not> ep_gap_before_page page"
    "ep_events page = map (task_event_of t) (take (unat limit) ?rows)"
    "ep_next_sequence page = None \<longleftrightarrow> length ?rows \<le> unat limit"
    "ep_latest_sequence page = latest_sequence (db_events db) ObjTask t"
    "ep_terminal_state page = Some terminal"
    using settled_page [OF wf' task(1) limit kept [folded same(2)]] task(2,3) unfolding same by metis
  obtain hi where hi: "map sg_sequence ?rows = [Suc (so_after s)..<Suc hi]"
    "latest_sequence (db_events db) ObjTask t \<le> hi" "so_after s \<le> hi"
    using wf kept by (rule events_after_sequences)
  let ?n = "min (unat limit) (length ?rows)"
  let ?s = "s\<lparr>so_reads := so_reads s + 1\<rparr>"
  have len: "length ?rows = hi - so_after s" using arg_cong [OF hi(1), of length] by (simp del: upt_Suc)
  have read: "stream_read ports p t limit s = (?s, Ok page)"
    using refresh limit page(1) by (rule settled_read)
  have "map te_sequence (ep_events page) = take (unat limit) (map sg_sequence ?rows)"
    unfolding page(3) by (simp add: task_event_of_def o_def take_map)
  also have "\<dots> = [Suc (so_after ?s)..<Suc (so_after ?s + ?n)]"
    unfolding hi(1) len using hi(3) by (auto simp: min_def take_upt simp del: upt_Suc)
  finally have seqs: "map te_sequence (ep_events page) = [Suc (so_after ?s)..<Suc (so_after ?s + ?n)]" .
  obtain s2 where emit: "emit_task_event_page ports i (ep_events page) ?s = (s2, Ok ())"
    using emit_accepted [OF accepts, of i "ep_events page" ?s] by (metis prod.collapse)
  have "length (ep_events page) = ?n" using page(3) by simp
  then have s2: "so_frames s2 = so_frames s @ map (frame_event i) (ep_events page)"
    "so_after s2 = so_after s + ?n"
    using emit_page [OF emit seqs] by auto
  show thesis
  proof (cases "unat limit < length ?rows")
    case True
    then show thesis
      using read page(2,3,4) emit s2
      by (intro more [of s2]) (auto simp: stream_turn_def)
  next
    case False
    then have "ep_latest_sequence page \<le> so_after s2" using page(5) hi(2) len s2(2) by auto
    then have ended: "stream_ended page (so_after s2) = Some terminal"
      using page(6) by (simp add: stream_ended_def)
    obtain w where "send_frame ports s2 (frame_end i (task_state_as_str terminal))
        = (s2\<lparr>so_writer := w, so_frames := so_frames s2
             @ [frame_end i (task_state_as_str terminal)]\<rparr>, Ok ())"
      using accepts by (rule send_frame_accepted)
    then show thesis
      using read page(2,3,4) emit s2(1) ended False
      by (intro over) (auto simp: stream_turn_def finish_with_def)
  qed
qed

lemma settled_loop:
  assumes wf: "task_db_wf db" and refresh: "refreshes ports" and accepts: "writer_accepts ports"
    and reads: "\<And>n. finished_at (read_db ports n) p t terminal (object_events (db_events db) ObjTask t)"
    and limit: "1 \<le> limit" "limit \<le> 200"
  shows "nothing_pruned db t (so_after s) \<Longrightarrow>
    \<exists>s'. stream_loop ports i p t limit s = Some (s', Ok ())
      \<and> so_frames s' = so_frames s
          @ map (frame_event i \<circ> task_event_of t) (events_after db t (so_after s))
          @ [frame_end i (task_state_as_str terminal)]"
proof (induction "length (events_after db t (so_after s))" arbitrary: s rule: less_induct)
  case less
  let ?rows = "events_after db t (so_after s)"
  from wf refresh accepts reads limit less.prems show ?case
  proof (cases rule: settled_turn [where i = i])
    case (over s')
    then show ?thesis by (subst stream_loop.simps) simp
  next
    case (more s')
    obtain hi where "map sg_sequence ?rows = [Suc (so_after s)..<Suc hi]"
      using wf less.prems by (rule events_after_sequences)
    then have "filter (\<lambda>x. so_after s + unat limit < sg_sequence x) ?rows = drop (unat limit) ?rows"
      by (rule filter_after_drop)
    moreover have "so_after s < n \<and> so_after s + unat limit < n \<longleftrightarrow> so_after s + unat limit < n" for n
      by auto
    ultimately have rest: "events_after db t (so_after s') = drop (unat limit) ?rows"
      using more(2) by (simp add: events_after_def)
    have "0 < unat limit" using limit(1) by (simp add: word_le_nat_alt)
    then have "length (events_after db t (so_after s')) < length ?rows" using more(3) rest by simp
    moreover have "nothing_pruned db t (so_after s')"
      using less.prems more(2) by (auto simp: nothing_pruned_def split: option.splits)
    ultimately obtain s'' where "stream_loop ports i p t limit s' = Some (s'', Ok ())"
      "so_frames s'' = so_frames s' @ map (frame_event i \<circ> task_event_of t) (drop (unat limit) ?rows)
         @ [frame_end i (task_state_as_str terminal)]"
      using less.hyps [of s'] rest by auto
    moreover have "map (frame_event i \<circ> task_event_of t) (take (unat limit) ?rows)
        @ map (frame_event i \<circ> task_event_of t) (drop (unat limit) ?rows)
        = map (frame_event i \<circ> task_event_of t) ?rows"
      by (simp flip: map_append)
    ultimately show ?thesis using more(1,4) by (subst stream_loop.simps) simp
  qed
qed

subsection \<open>Properties\<close>

text \<open>C26. However the runtime changes between its page reads and however its waits end, at every moment
  of an event stream the frames written so far are one event frame for each of the sequence
  numbers that follow the one the client named, in order, without a gap or a repetition, and each
  event was in the log of a task the principal may see; a stream that finished wrote one
  frame more, an error or an end frame, and an end frame only after a page read that found the task
  in that terminal state with no event newer than the last one sent.
\<close>

theorem follow_in_order:
  assumes "\<forall>n. engine_wf (rt_engine (snd (sp_seen ports n)))"
    and "stream_run ports i p t limit (stream_start w after) s r"
  shows "stream_ok ports i p t after s r"
  using assms(2)
proof induction
  case begin_stream
  then show ?case by (simp add: stream_ok_def sent_in_order_def stream_start_def)
next
  case (next_turn s s' r)
  have "sent_in_order ports i p t after s []" using next_turn.IH by (simp add: stream_ok_def)
  with assms(1) show ?case using next_turn.hyps(2) by (intro stream_turn_ok) auto
qed

text \<open>C27. Following a task that has ended returns with its whole story, while other connections go on using
  the runtime. Suppose the first page read finds the task, visible to the caller and in a terminal
  state, with no event after the one the client named pruned; between the reads other connections
  run operations of the engine, in any number and order; no read's refresh of the engine fails; the page
  size lies between 1 and 200; and the socket accepts the frames. Then the stream writes every later
  event of the task in order, then one end frame with the task's state, and closes.
\<close>

theorem follow_finished_task:
  assumes "engine_wf (rt_engine (snd (sp_seen ports 0)))" and "only_engine_between ports" and "refreshes ports"
    and "writer_accepts ports"
    and "request_validate rq = Ok ()" and "sp_from_params ports (rq_params rq) = Some ps"
    and "1 \<le> fp_limit ps" and "fp_limit ps \<le> 200"
    and "task_summary_visible (read_db ports 0) (fp_task_id ps) p = Some task" and "is_terminal (tk_state task)"
    and "after = (case fp_after_sequence ps of None \<Rightarrow> 0 | Some a \<Rightarrow> a)"
    and "nothing_pruned (read_db ports 0) (fp_task_id ps) after"
  shows "\<exists>s. serve_task_event_stream ports w p rq = Some (s, Ok ())
    \<and> so_frames s = map (frame_event (rq_request_id rq) \<circ> task_event_of (fp_task_id ps))
          (events_after (read_db ports 0) (fp_task_id ps) after)
        @ [frame_end (rq_request_id rq) (task_state_as_str (tk_state task))]"
proof -
  note reads = reads_finished [OF assms(1,2,9,10)]
  have wf: "task_db_wf (read_db ports 0)" using reads by (simp add: finished_at_def)
  have "nothing_pruned (read_db ports 0) (fp_task_id ps) (so_after (stream_start w after))"
    using assms(12) by (simp add: stream_start_def)
  from settled_loop [OF wf assms(3,4) reads assms(7,8) this, of "rq_request_id rq"] show ?thesis
    using assms(5,6,11) by (simp add: serve_task_event_stream_def stream_start_def)
qed

subsection \<open>Witnesses\<close>

definition over_transition :: TaskTransition where
  "over_transition = demo_transition\<lparr>tt_next := TaskFailed, tt_result_kind := Some ResultFailure,
     tt_event_kind := ''task.failed''\<rparr>"

definition over_row :: TaskRow where
  "over_row = transition_row over_transition 2 (created_row demo_spec)"

definition over_db :: PortusState where
  "over_db = demo_db\<lparr>db_tasks := [(''task_1'', over_row)],
     db_events := db_events demo_db @
       [event_row (transition_event ''task_1'' (principal_new 1000 1000) over_transition) 2]\<rparr>"

definition over_runtime :: RuntimeTasks where
  "over_runtime = \<lparr>rt_engine = \<lparr>te_db = over_db, te_children = [], te_sink = [], te_calls = 0\<rparr>,
     rt_poisoned = False\<rparr>"

definition over_os :: Os where
  "over_os = \<lparr>os_time = (\<lambda>n. int n), os_task_id = (\<lambda>_. ''task_1''), os_spawn = (\<lambda>_. Ok 7),
     os_try_wait = (\<lambda>_ _. Ok None), os_kill = (\<lambda>_ _. Ok ()), os_wait = (\<lambda>_ _. Ok (Some 0)),
     os_hash_order = (\<lambda>cs. cs), os_to_json = demo_to_json\<rparr>"

text \<open>After the first page read another connection registers an execution, which makes a second task.\<close>

definition over_spec :: AssociatedExecutionSpec where
  "over_spec = \<lparr>as_backend_kind = BackendNativeProcess, as_backend_ref = ''b'', as_generation_ref = ''g'',
     as_correlation_ref = None, as_title = None, as_objective_summary = ''o'', as_requester_surface = ''cli'',
     as_project_ref = None, as_session_ref = None, as_retry_safety = RetryNever\<rparr>"

definition over_later :: TaskEngine where
  "over_later = fst (register_associated_execution (over_os\<lparr>os_task_id := (\<lambda>_. ''task_2'')\<rparr>)
     (principal_new 1000 1000) over_spec (rt_engine over_runtime))"

definition over_ports :: "string StreamPorts" where
  "over_ports = \<lparr>sp_seen = (\<lambda>n. (over_os, if n = 0 then over_runtime else over_runtime\<lparr>rt_engine := over_later\<rparr>)), sp_wake = (\<lambda>_. WakeTimeout),
     sp_to_vec = (\<lambda>_. Some ''{}''), sp_port = vec_port, sp_max_frame_bytes = DEFAULT_MAX_FRAME_BYTES,
     sp_from_params = (\<lambda>_. Some \<lparr>fp_task_id = ''task_1'', fp_after_sequence = Some 0, fp_limit = 1\<rparr>)\<rparr>"

definition over_request :: "json RequestEnvelope" where
  "over_request = \<lparr>rq_version = CURRENT_PROTOCOL_VERSION, rq_request_id = ''req_1'',
     rq_method = ''task.events.follow'', rq_params = JNull\<rparr>"

lemma over_move: "transition_task demo_to_json demo_db ''task_1'' (principal_new 1000 1000) over_transition =
    (over_db, Ok \<lparr>tv_task = task_summary_from_row over_db over_row, tv_relationships = []\<rparr>)"
  by code_simp

lemma over_wf: "task_db_wf over_db"
  using transition_task_wf [OF demo_db_wf over_move] .

text \<open>Registering an existing execution starts no process.\<close>

lemma st_then_children:
  assumes "te_children (fst m) = cs" and "\<And>s x. te_children s = cs \<Longrightarrow> te_children (fst (f s x)) = cs"
  shows "te_children (fst (st_then m f)) = cs"
  using assms by (cases m; cases "snd m") auto

lemma db_try_children: "te_children (fst (db_try f s)) = te_children s"
  by (cases "f (te_db s)"; cases "snd (f (te_db s))") (auto simp: db_try_def db_call_def)

lemma notify_event_children: "te_children (fst (notify_event t owner n s)) = te_children s"
  unfolding notify_event_def by (intro st_then_children) (auto split: option.split)

lemma transition_children:
  "te_children (fst (transition os t owner from to reason kind summary ekind esummary edata s)) = te_children s"
  unfolding transition_def
  by (auto simp: db_try_children notify_event_children unix_time_ms_def os_call_def intro!: st_then_children)

lemma register_associated_children:
  "te_children (fst (register_associated_execution os owner spec s)) = te_children s"
  unfolding register_associated_execution_def create_notified_def
  by (auto simp: db_try_children notify_event_children transition_children unix_time_ms_def os_call_def
      intro!: st_then_children)

lemma over_later_children: "te_children over_later = []"
  by (simp add: over_later_def register_associated_children over_runtime_def)

lemma over_refreshed:
  "te_children (rt_engine rt) = [] \<Longrightarrow> \<not> rt_poisoned rt \<Longrightarrow> refreshed over_os rt = (rt, Ok (te_db (rt_engine rt)))"
  by (simp add: refreshed_def lock_tasks_def with_engine_def refresh_all_def over_os_def)

lemma over_seen:
  "refreshed (fst (sp_seen over_ports n)) (snd (sp_seen over_ports n))
     = (snd (sp_seen over_ports n), Ok (te_db (rt_engine (snd (sp_seen over_ports n)))))"
proof -
  let ?rt = "snd (sp_seen over_ports n)"
  have "te_children (rt_engine ?rt) = []" "\<not> rt_poisoned ?rt" "fst (sp_seen over_ports n) = over_os"
    using over_later_children by (simp_all add: over_ports_def over_runtime_def)
  with over_refreshed [of ?rt] show ?thesis by simp
qed

lemma over_between: "only_engine_between over_ports"
proof -
  have "engine_op (over_os\<lparr>os_task_id := (\<lambda>_. ''task_2'')\<rparr>) (rt_engine over_runtime) over_later"
    unfolding over_later_def by (rule op_associate)
  then have "(\<lambda>s s'. \<exists>os. engine_op os s s')\<^sup>*\<^sup>* (rt_engine over_runtime) over_later" by blast
  then show ?thesis by (auto simp: only_engine_between_def over_seen) (auto simp: over_ports_def)
qed

lemma over_facts:
  "engine_wf (rt_engine (snd (sp_seen over_ports 0)))" "refreshes over_ports" "writer_accepts over_ports"
  "request_validate over_request = Ok ()" "read_db over_ports 0 = over_db"
  "task_summary_visible over_db ''task_1'' (principal_new 1000 1000) = Some (task_summary_from_row over_db over_row)"
  "is_terminal (tk_state (task_summary_from_row over_db over_row))"
  "tk_state (task_summary_from_row over_db over_row) = TaskFailed"
  "nothing_pruned over_db ''task_1'' 0"
  subgoal using over_wf by (simp add: over_runtime_def over_ports_def)
  subgoal by (simp add: refreshes_def over_seen is_ok_def)
  subgoal by (simp add: writer_accepts_def over_ports_def write_json_line_def vec_port_def DEFAULT_MAX_FRAME_BYTES_def)
  subgoal by (simp add: request_validate_def over_request_def result_simps)
  subgoal unfolding read_db_def page_db_def over_seen by (simp add: over_ports_def over_runtime_def)
  by code_simp+

lemma over_wf_all: "engine_wf (rt_engine (snd (sp_seen over_ports n)))"
proof (cases n)
  case (Suc m)
  have "engine_steps (rt_engine over_runtime) over_later"
    unfolding over_later_def using over_facts(1) by (intro register_associated_steps) (simp add: over_ports_def)
  then show ?thesis using engine_steps_wf over_facts(1) Suc by (auto simp: over_ports_def)
qed (use over_facts(1) in simp)

theorem follow_in_order_witness:
  "\<exists>s r. stream_turn over_ports ''req_1'' (principal_new 1000 1000) ''task_1'' 1 (stream_start [] 0) = (s, r)
     \<and> stream_ok over_ports ''req_1'' (principal_new 1000 1000) ''task_1'' 0 s r"
proof -
  obtain s r where turn: "stream_turn over_ports ''req_1'' (principal_new 1000 1000) ''task_1'' 1
      (stream_start [] 0) = (s, r)" by fastforce
  have "stream_run over_ports ''req_1'' (principal_new 1000 1000) ''task_1'' 1 (stream_start [] 0) s r"
    using begin_stream turn by (rule next_turn)
  with over_wf_all have "stream_ok over_ports ''req_1'' (principal_new 1000 1000) ''task_1'' 0 s r"
    by (intro follow_in_order) auto
  with turn show ?thesis by blast
qed

theorem follow_finished_task_witness:
  "\<exists>s. serve_task_event_stream over_ports [] (principal_new 1000 1000) over_request = Some (s, Ok ())
     \<and> length (so_frames s) = 3 \<and> last (so_frames s) = frame_end ''req_1'' ''failed''"
proof -
  have rows: "length (events_after over_db ''task_1'' 0) = 2" by code_simp
  show ?thesis
    using follow_finished_task [OF over_facts(1) over_between over_facts(2-4),
        of "\<lparr>fp_task_id = ''task_1'', fp_after_sequence = Some 0, fp_limit = 1\<rparr>"
        "principal_new 1000 1000" _ 0 "[]"] over_facts(5-9) rows
    by (auto simp: over_ports_def over_request_def)
qed

end
