(* ===== verification/Event_Hub.thy ===== *)
theory Event_Hub
  imports Event_Store "HOL-Library.Sublist" "HOL-Library.Multiset"
begin

section \<open>The runtime's event hub\<close>

text \<open>
  \<^verbatim>\<open>portusd/src/events.rs\<close>: wake-ups for the connections that follow an object. A subscription and the
  hub share a bounded channel and a counter of missed events; the shared part is a store indexed
  by channel. A publisher takes its sequence number before it takes the lock over the subscribers,
  so another publisher may deliver in between: \<open>next_event\<close> and \<open>deliver\<close> are separate steps
  and \<open>publish_object\<close> is their composition.
\<close>

record RuntimeEvent =
  re_sequence :: "64 word"
  re_object_kind :: EventObjectKind
  re_object_ref :: string
  re_object_sequence :: "nat option"
  re_kind :: string
  re_safe_summary :: "string option"

record EventFilter =
  ef_object_kind :: EventObjectKind
  ef_object_ref :: string

record Channel =
  ch_queue :: "RuntimeEvent list"
  ch_receiver :: bool
  ch_missed :: "64 word"

record Subscriber =
  sb_channel :: nat
  sb_filter :: "EventFilter option"

record PublishOutcome =
  po_delivered :: nat
  po_lagging :: nat
  po_disconnected :: nat

record EventHub =
  hub_next_sequence :: "64 word"
  hub_capacity :: nat
  hub_subscribers :: "Subscriber list"
  hub_channels :: "nat \<Rightarrow> Channel"
  hub_fresh :: nat

datatype TrySend = Sent | SendFull | SendDisconnected

datatype RecvResult = Received RuntimeEvent | RecvEmpty | RecvDisconnected

definition DEFAULT_SUBSCRIBER_CAPACITY :: nat where
  "DEFAULT_SUBSCRIBER_CAPACITY = 64"

definition fresh_channel :: Channel where
  "fresh_channel = \<lparr>ch_queue = [], ch_receiver = True, ch_missed = 0\<rparr>"

definition hub_new :: "nat \<Rightarrow> EventHub option" where
  "hub_new capacity =
     (if 0 < capacity
      then Some \<lparr>hub_next_sequence = 1, hub_capacity = capacity, hub_subscribers = [],
             hub_channels = (\<lambda>_. fresh_channel), hub_fresh = 0\<rparr>
      else None)"

definition filter_matches :: "EventFilter option \<Rightarrow> RuntimeEvent \<Rightarrow> bool" where
  "filter_matches f ev =
     (case f of
        None \<Rightarrow> True
      | Some f \<Rightarrow> ef_object_kind f = re_object_kind ev \<and> ef_object_ref f = re_object_ref ev)"

subsection \<open>Subscriptions\<close>

definition subscribe_filtered :: "EventFilter option \<Rightarrow> EventHub \<Rightarrow> EventHub \<times> nat" where
  "subscribe_filtered f hub =
     (let c = hub_fresh hub in
      (hub\<lparr>hub_subscribers := hub_subscribers hub @ [\<lparr>sb_channel = c, sb_filter = f\<rparr>],
           hub_channels := (hub_channels hub)(c := fresh_channel), hub_fresh := c + 1\<rparr>, c))"

definition subscribe :: "EventHub \<Rightarrow> EventHub \<times> nat" where
  "subscribe hub = subscribe_filtered None hub"

definition subscribe_object :: "EventObjectKind \<Rightarrow> string \<Rightarrow> EventHub \<Rightarrow> EventHub \<times> nat" where
  "subscribe_object k r hub = subscribe_filtered (Some \<lparr>ef_object_kind = k, ef_object_ref = r\<rparr>) hub"

definition subscriber_count :: "EventHub \<Rightarrow> nat" where
  "subscriber_count hub = length (hub_subscribers hub)"

definition has_sender :: "EventHub \<Rightarrow> nat \<Rightarrow> bool" where
  "has_sender hub c \<longleftrightarrow> c \<in> sb_channel ` set (hub_subscribers hub)"

definition try_recv :: "nat \<Rightarrow> EventHub \<Rightarrow> EventHub \<times> RecvResult" where
  "try_recv c hub =
     (case ch_queue (hub_channels hub c) of
        ev # evs \<Rightarrow>
          (hub\<lparr>hub_channels := (hub_channels hub)(c := (hub_channels hub c)\<lparr>ch_queue := evs\<rparr>)\<rparr>, Received ev)
      | [] \<Rightarrow> (hub, if has_sender hub c then RecvEmpty else RecvDisconnected))"

definition take_missed :: "nat \<Rightarrow> EventHub \<Rightarrow> EventHub \<times> 64 word" where
  "take_missed c hub =
     (hub\<lparr>hub_channels := (hub_channels hub)(c := (hub_channels hub c)\<lparr>ch_missed := 0\<rparr>)\<rparr>,
      ch_missed (hub_channels hub c))"

definition drop_subscription :: "nat \<Rightarrow> EventHub \<Rightarrow> EventHub" where
  "drop_subscription c hub =
     hub\<lparr>hub_channels := (hub_channels hub)(c := (hub_channels hub c)\<lparr>ch_queue := [], ch_receiver := False\<rparr>)\<rparr>"

subsection \<open>Publishing\<close>

definition try_send :: "nat \<Rightarrow> RuntimeEvent \<Rightarrow> Channel \<Rightarrow> Channel \<times> TrySend" where
  "try_send capacity ev ch =
     (if \<not> ch_receiver ch then (ch, SendDisconnected)
      else if capacity \<le> length (ch_queue ch) then (ch, SendFull)
      else (ch\<lparr>ch_queue := ch_queue ch @ [ev]\<rparr>, Sent))"

fun retain_subscribers ::
  "nat \<Rightarrow> RuntimeEvent \<Rightarrow> Subscriber list \<Rightarrow> (nat \<Rightarrow> Channel) \<times> PublishOutcome
    \<Rightarrow> Subscriber list \<times> (nat \<Rightarrow> Channel) \<times> PublishOutcome" where
  "retain_subscribers capacity ev [] (chans, out) = ([], chans, out)"
| "retain_subscribers capacity ev (sub # subs) (chans, out) =
     (if \<not> filter_matches (sb_filter sub) ev
      then case retain_subscribers capacity ev subs (chans, out) of (kept, r) \<Rightarrow> (sub # kept, r)
      else case try_send capacity ev (chans (sb_channel sub)) of
          (ch, Sent) \<Rightarrow>
            (case retain_subscribers capacity ev subs
                (chans(sb_channel sub := ch), out\<lparr>po_delivered := po_delivered out + 1\<rparr>) of
               (kept, r) \<Rightarrow> (sub # kept, r))
        | (ch, SendFull) \<Rightarrow>
            (case retain_subscribers capacity ev subs
                (chans(sb_channel sub := ch\<lparr>ch_missed := ch_missed ch + 1\<rparr>), out\<lparr>po_lagging := po_lagging out + 1\<rparr>) of
               (kept, r) \<Rightarrow> (sub # kept, r))
        | (ch, SendDisconnected) \<Rightarrow>
            retain_subscribers capacity ev subs
              (chans, out\<lparr>po_disconnected := po_disconnected out + 1\<rparr>))"

definition deliver :: "RuntimeEvent \<Rightarrow> EventHub \<Rightarrow> EventHub \<times> PublishOutcome" where
  "deliver ev hub =
     (case retain_subscribers (hub_capacity hub) ev (hub_subscribers hub)
        (hub_channels hub, \<lparr>po_delivered = 0, po_lagging = 0, po_disconnected = 0\<rparr>) of
        (kept, chans, out) \<Rightarrow> (hub\<lparr>hub_subscribers := kept, hub_channels := chans\<rparr>, out))"

definition next_event ::
  "EventObjectKind \<Rightarrow> string \<Rightarrow> nat option \<Rightarrow> string \<Rightarrow> string option \<Rightarrow> EventHub \<Rightarrow> EventHub \<times> RuntimeEvent" where
  "next_event k r object_sequence kind summary hub =
     (hub\<lparr>hub_next_sequence := hub_next_sequence hub + 1\<rparr>,
      \<lparr>re_sequence = hub_next_sequence hub, re_object_kind = k, re_object_ref = r,
       re_object_sequence = object_sequence, re_kind = kind, re_safe_summary = summary\<rparr>)"

definition publish_object ::
  "EventObjectKind \<Rightarrow> string \<Rightarrow> nat option \<Rightarrow> string \<Rightarrow> string option \<Rightarrow> EventHub \<Rightarrow> EventHub \<times> PublishOutcome" where
  "publish_object k r object_sequence kind summary hub =
     (case next_event k r object_sequence kind summary hub of (hub, ev) \<Rightarrow> deliver ev hub)"

definition publish :: "string \<Rightarrow> string option \<Rightarrow> EventHub \<Rightarrow> EventHub \<times> PublishOutcome" where
  "publish kind summary hub = publish_object ObjRuntime ''portusd'' None kind summary hub"

definition publish_task_event :: "TaskEvent \<Rightarrow> EventHub \<Rightarrow> EventHub \<times> PublishOutcome" where
  "publish_task_event ev hub =
     publish_object ObjTask (te_task_id ev) (Some (te_sequence ev)) (te_event_kind ev) (te_safe_summary ev) hub"

subsection \<open>One delivery\<close>

definition offered :: "nat \<Rightarrow> RuntimeEvent \<Rightarrow> Channel \<Rightarrow> Channel" where
  "offered capacity ev ch =
     (if \<not> ch_receiver ch then ch
      else if capacity \<le> length (ch_queue ch) then ch\<lparr>ch_missed := ch_missed ch + 1\<rparr>
      else ch\<lparr>ch_queue := ch_queue ch @ [ev]\<rparr>)"

definition wanted :: "RuntimeEvent \<Rightarrow> Subscriber list \<Rightarrow> nat set" where
  "wanted ev subs = sb_channel ` {s \<in> set subs. filter_matches (sb_filter s) ev}"

lemma wanted_Cons:
  "wanted ev (s # subs) = (if filter_matches (sb_filter s) ev then insert (sb_channel s) (wanted ev subs) else wanted ev subs)"
  by (auto simp: wanted_def)

lemma retain_channels:
  "distinct (map sb_channel subs) \<Longrightarrow>
   fst (snd (retain_subscribers capacity ev subs (chans, out))) c
     = (if c \<in> wanted ev subs then offered capacity ev (chans c) else chans c)"
proof (induction subs arbitrary: chans out)
  case (Cons s subs)
  have fresh: "sb_channel s \<notin> wanted ev subs" using Cons.prems by (auto simp: wanted_def)
  then show ?case
    using Cons.IH Cons.prems
    by (auto simp: wanted_Cons case_prod_beta try_send_def offered_def split: TrySend.split)
qed (simp add: wanted_def)

lemma retain_kept:
  "distinct (map sb_channel subs) \<Longrightarrow>
   fst (retain_subscribers capacity ev subs (chans, out))
     = filter (\<lambda>s. filter_matches (sb_filter s) ev \<longrightarrow> ch_receiver (chans (sb_channel s))) subs"
proof (induction subs arbitrary: chans out)
  case (Cons s subs)
  have other: "filter (\<lambda>x. filter_matches (sb_filter x) ev \<longrightarrow> ch_receiver ((chans(sb_channel s := ch)) (sb_channel x))) subs
      = filter (\<lambda>x. filter_matches (sb_filter x) ev \<longrightarrow> ch_receiver (chans (sb_channel x))) subs" for ch
    using Cons.prems by (intro filter_cong refl) (force simp: image_iff)
  show ?case
    using Cons.IH [of _ out] Cons.IH Cons.prems
    by (simp add: case_prod_beta try_send_def other del: fun_upd_apply split: TrySend.split)
qed simp

lemma deliver_spec:
  assumes "distinct (map sb_channel (hub_subscribers hub))"
  shows "hub_channels (fst (deliver ev hub)) c
      = (if c \<in> wanted ev (hub_subscribers hub) then offered (hub_capacity hub) ev (hub_channels hub c)
         else hub_channels hub c)"
    and "hub_subscribers (fst (deliver ev hub))
      = filter (\<lambda>s. filter_matches (sb_filter s) ev \<longrightarrow> ch_receiver (hub_channels hub (sb_channel s)))
          (hub_subscribers hub)"
    and "hub_capacity (fst (deliver ev hub)) = hub_capacity hub"
    and "hub_fresh (fst (deliver ev hub)) = hub_fresh hub"
  using retain_channels [OF assms] retain_kept [OF assms]
  by (simp_all add: deliver_def case_prod_beta)

subsection \<open>Histories\<close>

text \<open>
  A hub together with what its users see: the events between \<open>fetch_add\<close> and delivery, and for each
  channel the events delivered that match its filter, those received, and the missed counts taken.
  A step is one atomic action of one of the threads.
\<close>

record Watch =
  wt_filter :: "EventFilter option"
  wt_expected :: "RuntimeEvent list"
  wt_received :: "RuntimeEvent list"
  wt_taken :: "64 word"

record HubSystem =
  sy_hub :: EventHub
  sy_inflight :: "RuntimeEvent multiset"
  sy_watch :: "nat \<Rightarrow> Watch"

definition watch_new :: "EventFilter option \<Rightarrow> Watch" where
  "watch_new f = \<lparr>wt_filter = f, wt_expected = [], wt_received = [], wt_taken = 0\<rparr>"

definition watch_delivery :: "RuntimeEvent \<Rightarrow> Watch \<Rightarrow> Watch" where
  "watch_delivery ev w =
     (if filter_matches (wt_filter w) ev then w\<lparr>wt_expected := wt_expected w @ [ev]\<rparr> else w)"

definition listening :: "HubSystem \<Rightarrow> nat \<Rightarrow> bool" where
  "listening y c \<longleftrightarrow> c < hub_fresh (sy_hub y) \<and> ch_receiver (hub_channels (sy_hub y) c)"

inductive hub_step :: "HubSystem \<Rightarrow> HubSystem \<Rightarrow> bool" where
  step_subscribe: "subscribe_filtered f (sy_hub y) = (hub, c) \<Longrightarrow>
    hub_step y (y\<lparr>sy_hub := hub, sy_watch := (sy_watch y)(c := watch_new f)\<rparr>)"
| step_fetch: "next_event k r n kind summary (sy_hub y) = (hub, ev) \<Longrightarrow>
    hub_step y (y\<lparr>sy_hub := hub, sy_inflight := add_mset ev (sy_inflight y)\<rparr>)"
| step_deliver: "ev \<in># sy_inflight y \<Longrightarrow> deliver ev (sy_hub y) = (hub, out) \<Longrightarrow>
    hub_step y \<lparr>sy_hub = hub, sy_inflight = sy_inflight y - {#ev#},
      sy_watch = (\<lambda>c. watch_delivery ev (sy_watch y c))\<rparr>"
| step_recv: "listening y c \<Longrightarrow> try_recv c (sy_hub y) = (hub, Received ev) \<Longrightarrow>
    hub_step y (y\<lparr>sy_hub := hub, sy_watch := (sy_watch y)(c :=
      (sy_watch y c)\<lparr>wt_received := wt_received (sy_watch y c) @ [ev]\<rparr>)\<rparr>)"
| step_take: "listening y c \<Longrightarrow> take_missed c (sy_hub y) = (hub, n) \<Longrightarrow>
    hub_step y (y\<lparr>sy_hub := hub, sy_watch := (sy_watch y)(c :=
      (sy_watch y c)\<lparr>wt_taken := wt_taken (sy_watch y c) + n\<rparr>)\<rparr>)"
| step_drop: "listening y c \<Longrightarrow> hub_step y (y\<lparr>sy_hub := drop_subscription c (sy_hub y)\<rparr>)"

definition hub_start :: "EventHub \<Rightarrow> HubSystem" where
  "hub_start hub = \<lparr>sy_hub = hub, sy_inflight = {#}, sy_watch = (\<lambda>_. watch_new None)\<rparr>"

definition accounted :: "nat \<Rightarrow> Channel \<Rightarrow> Watch \<Rightarrow> bool" where
  "accounted capacity ch w \<longleftrightarrow> length (ch_queue ch) \<le> capacity
     \<and> subseq (wt_received w @ ch_queue ch) (wt_expected w)
     \<and> word_of_nat (length (wt_expected w))
        = word_of_nat (length (wt_received w) + length (ch_queue ch)) + wt_taken w + ch_missed ch"

definition hub_inv :: "nat \<Rightarrow> HubSystem \<Rightarrow> bool" where
  "hub_inv capacity y \<longleftrightarrow> hub_capacity (sy_hub y) = capacity
     \<and> distinct (map sb_channel (hub_subscribers (sy_hub y)))
     \<and> (\<forall>s\<in>set (hub_subscribers (sy_hub y)). sb_channel s < hub_fresh (sy_hub y)
          \<and> sb_filter s = wt_filter (sy_watch y (sb_channel s)))
     \<and> (\<forall>c. listening y c \<longrightarrow> has_sender (sy_hub y) c
          \<and> accounted capacity (hub_channels (sy_hub y) c) (sy_watch y c))"

lemma watch_new_filter: "wt_filter (watch_new f) = f"
  by (simp add: watch_new_def)

lemma accounted_fresh: "accounted capacity fresh_channel (watch_new f)"
  by (simp add: accounted_def fresh_channel_def watch_new_def)

lemma accounted_offered:
  assumes "accounted capacity ch w" "ch_receiver ch"
  shows "accounted capacity (offered capacity ev ch) (w\<lparr>wt_expected := wt_expected w @ [ev]\<rparr>)"
  using assms
  by (auto simp: accounted_def offered_def list_emb_append_mono
      simp flip: append_assoc intro: subseq_order.order_trans)

lemma accounted_recv:
  assumes "accounted capacity ch w" "ch_queue ch = ev # evs"
  shows "accounted capacity (ch\<lparr>ch_queue := evs\<rparr>) (w\<lparr>wt_received := wt_received w @ [ev]\<rparr>)"
  using assms by (simp add: accounted_def)

lemma accounted_take:
  assumes "accounted capacity ch w"
  shows "accounted capacity (ch\<lparr>ch_missed := 0\<rparr>) (w\<lparr>wt_taken := wt_taken w + ch_missed ch\<rparr>)"
  using assms by (simp add: accounted_def)

lemma hub_inv_deliver:
  assumes inv: "hub_inv capacity y" and d: "deliver ev (sy_hub y) = (hub, out)"
  shows "hub_inv capacity \<lparr>sy_hub = hub, sy_inflight = i, sy_watch = (\<lambda>c. watch_delivery ev (sy_watch y c))\<rparr>"
    (is "hub_inv capacity ?y")
proof -
  let ?h = "sy_hub y"
  have distinct: "distinct (map sb_channel (hub_subscribers ?h))" and cap: "hub_capacity ?h = capacity"
    and subs: "\<And>s. s \<in> set (hub_subscribers ?h) \<Longrightarrow>
      sb_channel s < hub_fresh ?h \<and> sb_filter s = wt_filter (sy_watch y (sb_channel s))"
    and open_ch: "\<And>c. listening y c \<Longrightarrow> has_sender ?h c \<and> accounted capacity (hub_channels ?h c) (sy_watch y c)"
    using inv by (auto simp: hub_inv_def)
  note spec = deliver_spec [OF distinct, of ev, unfolded d fst_conv]
  have receiver: "ch_receiver (hub_channels hub c) = ch_receiver (hub_channels ?h c)" for c
    by (simp add: spec(1) offered_def)
  have same: "listening ?y c \<longleftrightarrow> listening y c" for c by (simp add: listening_def receiver spec(4))
  have filters: "wt_filter (watch_delivery ev w) = wt_filter w" for w by (simp add: watch_delivery_def)
  have "has_sender hub c \<and> accounted capacity (hub_channels hub c) (watch_delivery ev (sy_watch y c))"
    if c: "listening y c" for c
  proof -
    obtain s where s: "s \<in> set (hub_subscribers ?h)" "sb_channel s = c"
      using open_ch [OF c] by (auto simp: has_sender_def)
    have "c \<in> wanted ev (hub_subscribers ?h) \<longleftrightarrow> filter_matches (wt_filter (sy_watch y c)) ev"
      using s subs by (auto simp: wanted_def)
    then have "accounted capacity (hub_channels hub c) (watch_delivery ev (sy_watch y c))"
      using open_ch [OF c] accounted_offered [of capacity "hub_channels ?h c" "sy_watch y c" ev] c
      by (simp add: spec(1) cap watch_delivery_def listening_def)
    moreover have "has_sender hub c"
      using s c by (auto simp: has_sender_def spec(2) listening_def)
    ultimately show ?thesis by blast
  qed
  then show ?thesis
    using distinct subs
    by (auto simp: hub_inv_def spec(2-4) cap same filters distinct_map_filter)
qed

lemma hub_step_inv: "hub_step y y' \<Longrightarrow> hub_inv capacity y \<Longrightarrow> hub_inv capacity y'"
proof (induction rule: hub_step.induct)
  case (step_subscribe f y hub c)
  then have c: "c = hub_fresh (sy_hub y)" and hub: "hub = (sy_hub y)\<lparr>
      hub_subscribers := hub_subscribers (sy_hub y) @ [\<lparr>sb_channel = c, sb_filter = f\<rparr>],
      hub_channels := (hub_channels (sy_hub y))(c := fresh_channel), hub_fresh := c + 1\<rparr>"
    by (auto simp: subscribe_filtered_def Let_def)
  have new: "c \<notin> sb_channel ` set (hub_subscribers (sy_hub y))"
    using step_subscribe.prems c by (fastforce simp: hub_inv_def)
  then show ?case
    using step_subscribe.prems
    by (auto simp: hub c hub_inv_def listening_def has_sender_def accounted_fresh less_Suc_eq watch_new_filter
        dest: less_not_refl2)
next
  case (step_fetch k r n kind summary y hub ev)
  then show ?case by (auto simp: hub_inv_def listening_def has_sender_def next_event_def)
next
  case (step_deliver ev y hub out)
  then show ?case using hub_inv_deliver by blast
next
  case (step_recv y c hub ev)
  then show ?case
    by (auto simp: hub_inv_def listening_def has_sender_def try_recv_def accounted_recv split: list.splits)
next
  case (step_take y c hub n)
  then show ?case
    by (auto simp: hub_inv_def listening_def has_sender_def take_missed_def accounted_take)
next
  case (step_drop y c)
  then show ?case by (auto simp: hub_inv_def listening_def has_sender_def drop_subscription_def)
qed

text \<open>C28. Whatever the interleaving of publishers, subscribers and readers, a live subscription keeps its
  sender, its queue never exceeds the hub's capacity, and no matching event is lost without being
  counted: what was received and what is queued are matching events in the order of their delivery,
  and the rest of the delivered matching events are exactly the missed counts, taken or pending
  (counted modulo \<open>2^64\<close>).
\<close>

theorem event_hub_accounts:
  assumes "hub_new capacity = Some hub" and "hub_step\<^sup>*\<^sup>* (hub_start hub) y" and "listening y c"
  shows "has_sender (sy_hub y) c \<and> accounted capacity (hub_channels (sy_hub y) c) (sy_watch y c)"
proof -
  have "hub_inv capacity (hub_start hub)"
    using assms(1) by (auto simp: hub_new_def hub_inv_def hub_start_def listening_def split: if_splits)
  with assms(2) have "hub_inv capacity y"
    by (induction rule: rtranclp_induct) (auto intro: hub_step_inv)
  then show ?thesis using assms(3) by (simp add: hub_inv_def)
qed

definition one_reader :: EventHub where
  "one_reader = \<lparr>hub_next_sequence = 1, hub_capacity = 1, hub_subscribers = [\<lparr>sb_channel = 0, sb_filter = None\<rparr>],
     hub_channels = (\<lambda>_. fresh_channel), hub_fresh = 1\<rparr>"

theorem event_hub_accounts_witness:
  "\<exists>y. hub_step\<^sup>*\<^sup>* (hub_start \<lparr>hub_next_sequence = 1, hub_capacity = 1, hub_subscribers = [],
       hub_channels = (\<lambda>_. fresh_channel), hub_fresh = 0\<rparr>) y
     \<and> has_sender (sy_hub y) 0 \<and> accounted 1 (hub_channels (sy_hub y) 0) (sy_watch y 0)"
proof -
  let ?hub = "\<lparr>hub_next_sequence = 1, hub_capacity = 1, hub_subscribers = [],
       hub_channels = (\<lambda>_. fresh_channel), hub_fresh = 0\<rparr>"
  have new: "hub_new 1 = Some ?hub" by (simp add: hub_new_def)
  let ?y = "(hub_start ?hub)\<lparr>sy_hub := one_reader, sy_watch := (sy_watch (hub_start ?hub))(0 := watch_new None)\<rparr>"
  have "subscribe_filtered None (sy_hub (hub_start ?hub)) = (one_reader, 0)"
    by (simp add: subscribe_filtered_def hub_start_def one_reader_def fun_eq_iff)
  then have "hub_step (hub_start ?hub) ?y" by (rule step_subscribe)
  then have run: "hub_step\<^sup>*\<^sup>* (hub_start ?hub) ?y" by (rule r_into_rtranclp)
  have "listening ?y 0" by (simp add: listening_def one_reader_def fresh_channel_def)
  with event_hub_accounts [OF new run this] run show ?thesis by blast
qed

end
