(* ===== verification/Health.thy ===== *)
theory Health
  imports Event_Properties
begin

section \<open>Health observations and recovery\<close>

text \<open>
  \<^verbatim>\<open>portus-health\<close> (the classifiers of \<open>resource.rs\<close> and the restart budget of \<open>recovery.rs\<close>),
  \<^verbatim>\<open>portus-state/src/health.rs\<close> (observations and the recovery history) and the two
  functions of \<^verbatim>\<open>portusd/src/core.rs\<close> that join them. Times are \<open>i64\<close> milliseconds as integers with
  saturating subtraction; byte counts are \<open>u64\<close> as naturals with saturating multiplication. Faults of
  the database engine are not modelled.
\<close>

record HealthObservation =
  ho_component_ref :: string
  ho_component_type :: HealthComponentType
  ho_owner :: "Principal option"
  ho_health_state :: HealthState
  ho_reason_code :: HealthReasonCode
  ho_summary :: string
  ho_source :: string
  ho_observed_at_ms :: int
  ho_source_generation :: "string option"
  ho_last_healthy_at_ms :: "int option"
  ho_recovery_disposition :: RecoveryDisposition
  ho_recovery_attempt_count :: u16
  ho_safe_details :: "(string, string) btree"

record RecoveryAttempt =
  ra_component_ref :: string
  ra_action_kind :: RecoveryActionKind
  ra_attempt_number :: u16
  ra_started_at_ms :: int
  ra_finished_at_ms :: "int option"
  ra_outcome :: RecoveryAttemptOutcome
  ra_reason_code :: HealthReasonCode
  ra_safe_summary :: "string option"

subsection \<open>The restart budget\<close>

definition MAX_RESTART_ATTEMPTS :: nat where
  "MAX_RESTART_ATTEMPTS = 3"

definition RESTART_WINDOW_MS :: int where
  "RESTART_WINDOW_MS = 10 * 60 * 1000"

definition RESTART_BACKOFF_MS :: "int list" where
  "RESTART_BACKOFF_MS = [1000, 5000, 30000]"

definition STABLE_RESET_MS :: int where
  "STABLE_RESET_MS = 60000"

datatype RestartBudgetDecision =
    Allowed (attempt_number: u16) (minimum_backoff_ms: int)
  | Exhausted

definition restarts_in_window :: "int \<Rightarrow> int list \<Rightarrow> nat" where
  "restarts_in_window now_ms attempts =
     length (filter (\<lambda>a. sat_sub_i64 now_ms RESTART_WINDOW_MS \<le> a \<and> a \<le> now_ms) attempts)"

definition evaluate_restart_budget :: "int \<Rightarrow> int list \<Rightarrow> int option \<Rightarrow> RestartBudgetDecision" where
  "evaluate_restart_budget now_ms prior_attempts_ms healthy_since_ms =
     (if (case healthy_since_ms of None \<Rightarrow> False | Some since \<Rightarrow> STABLE_RESET_MS \<le> sat_sub_i64 now_ms since)
      then Allowed 1 (RESTART_BACKOFF_MS ! 0)
      else
        let used = restarts_in_window now_ms prior_attempts_ms in
        if MAX_RESTART_ATTEMPTS \<le> used then Exhausted
        else Allowed (if int (used + 1) \<le> 65535 then word_of_nat (used + 1) else 65535) (RESTART_BACKOFF_MS ! used))"

subsection \<open>Storage and memory\<close>

definition GIB :: nat where
  "GIB = 1024 * 1024 * 1024"

definition MIB :: nat where
  "MIB = 1024 * 1024"

record StorageSample =
  st_component_ref :: string
  st_total_bytes :: nat
  st_available_bytes :: nat
  st_writable :: bool
  st_observed_at_ms :: int

record MemorySample =
  me_total_bytes :: nat
  me_available_bytes :: nat
  me_observed_at_ms :: int

definition sat_mul_u64 :: "nat \<Rightarrow> nat \<Rightarrow> nat" where
  "sat_mul_u64 a b = min u64_max (a * b)"

definition available_percent :: "nat \<Rightarrow> nat \<Rightarrow> nat" where
  "available_percent available size_bytes =
     (if size_bytes = 0 then 0 else sat_mul_u64 available 100 div size_bytes)"

definition resource_details :: "nat \<Rightarrow> nat \<Rightarrow> nat \<Rightarrow> (string, string) btree" where
  "resource_details size_bytes available percent =
     bt_insert ''available_percent'' (show_nat percent)
       (bt_insert ''available_bytes'' (show_nat available)
         (bt_insert ''total_bytes'' (show_nat size_bytes) bt_empty))"

definition classify_storage :: "StorageSample \<Rightarrow> HealthObservation" where
  "classify_storage sample =
     (let percent = available_percent (st_available_bytes sample) (st_total_bytes sample);
          (state, reason, summary) =
            (if \<not> st_writable sample
             then (Unavailable, ReasonResourceUnavailable, ''required filesystem is not writable'')
             else if percent < 5 \<or> st_available_bytes sample < 512 * MIB
             then (Degraded, ReasonResourceCritical, ''filesystem free space is critically low'')
             else if percent < 10 \<or> st_available_bytes sample < 2 * GIB
             then (Degraded, ReasonResourceLow, ''filesystem free space is low'')
             else (Healthy, ReasonReady, ''filesystem capacity is within the first-ISO operating threshold''))
      in \<lparr>ho_component_ref = st_component_ref sample, ho_component_type = ComponentStorage, ho_owner = None,
          ho_health_state = state, ho_reason_code = reason, ho_summary = summary,
          ho_source = ''native-storage'', ho_observed_at_ms = st_observed_at_ms sample,
          ho_source_generation = None,
          ho_last_healthy_at_ms = (if state = Healthy then Some (st_observed_at_ms sample) else None),
          ho_recovery_disposition = DisposeObserve, ho_recovery_attempt_count = 0,
          ho_safe_details = resource_details (st_total_bytes sample) (st_available_bytes sample) percent\<rparr>)"

definition classify_memory :: "MemorySample \<Rightarrow> HealthObservation" where
  "classify_memory sample =
     (let percent = available_percent (me_available_bytes sample) (me_total_bytes sample);
          (state, reason, summary) =
            (if percent < 2 \<or> me_available_bytes sample < 256 * MIB
             then (Degraded, ReasonResourceCritical,
                   ''available memory is critically low for reliable control-plane operation'')
             else if percent < 5 \<or> me_available_bytes sample < 512 * MIB
             then (Degraded, ReasonResourceLow,
                   ''available memory is low for reliable control-plane operation'')
             else (Healthy, ReasonReady, ''available memory is within the first-ISO operating threshold''))
      in \<lparr>ho_component_ref = ''memory:system'', ho_component_type = ComponentMemory, ho_owner = None,
          ho_health_state = state, ho_reason_code = reason, ho_summary = summary,
          ho_source = ''native-memory'', ho_observed_at_ms = me_observed_at_ms sample,
          ho_source_generation = None,
          ho_last_healthy_at_ms = (if state = Healthy then Some (me_observed_at_ms sample) else None),
          ho_recovery_disposition = DisposeObserve, ho_recovery_attempt_count = 0,
          ho_safe_details = resource_details (me_total_bytes sample) (me_available_bytes sample) percent\<rparr>)"

subsection \<open>Validation\<close>

definition MAX_HEALTH_COMPONENT_REF_BYTES :: nat where
  "MAX_HEALTH_COMPONENT_REF_BYTES = 192"

definition MAX_HEALTH_SUMMARY_BYTES :: nat where
  "MAX_HEALTH_SUMMARY_BYTES = 512"

definition MAX_HEALTH_SOURCE_BYTES :: nat where
  "MAX_HEALTH_SOURCE_BYTES = 128"

definition MAX_HEALTH_GENERATION_BYTES :: nat where
  "MAX_HEALTH_GENERATION_BYTES = 128"

definition MAX_HEALTH_DETAILS :: nat where
  "MAX_HEALTH_DETAILS = 16"

definition MAX_HEALTH_DETAIL_KEY_BYTES :: nat where
  "MAX_HEALTH_DETAIL_KEY_BYTES = 64"

definition MAX_HEALTH_DETAIL_VALUE_BYTES :: nat where
  "MAX_HEALTH_DETAIL_VALUE_BYTES = 256"

definition MAX_HEALTH_DETAILS_JSON_BYTES :: nat where
  "MAX_HEALTH_DETAILS_JSON_BYTES = 2048"

definition MAX_HEALTH_OBSERVATIONS :: nat where
  "MAX_HEALTH_OBSERVATIONS = 128"

definition MAX_RECOVERY_ATTEMPTS_PER_COMPONENT :: nat where
  "MAX_RECOVERY_ATTEMPTS_PER_COMPONENT = 32"

definition RECOVERY_HISTORY_MAX_AGE_MS :: int where
  "RECOVERY_HISTORY_MAX_AGE_MS = 7 * 24 * 60 * 60 * 1000"

definition HEALTH_EVENT_MAX_AGE_MS :: int where
  "HEALTH_EVENT_MAX_AGE_MS = 30 * 24 * 60 * 60 * 1000"

definition health_validate_text :: "string \<Rightarrow> nat \<Rightarrow> string \<Rightarrow> StateError + unit" where
  "health_validate_text v max_len field =
     (if trim_is_empty v \<or> max_len < length v \<or> contains_char v line_breaks
      then Err (InvalidHealthState (field @ '' is invalid'')) else Ok ())"

definition validate_component_ref :: "string \<Rightarrow> StateError + unit" where
  "validate_component_ref v = health_validate_text v MAX_HEALTH_COMPONENT_REF_BYTES ''component reference''"

definition validate_detail :: "string \<times> string \<Rightarrow> StateError + unit" where
  "validate_detail kv = (case kv of (key, v) \<Rightarrow>
     and_then (health_validate_text key MAX_HEALTH_DETAIL_KEY_BYTES ''safe-detail key'') (\<lambda>_.
     and_then (health_validate_text v MAX_HEALTH_DETAIL_VALUE_BYTES ''safe-detail value'') (\<lambda>_.
     if secret_like_key key \<or> secret_like_text v
     then Err (InvalidHealthState ''secret-like health safe-detail material is forbidden'') else Ok ())))"

definition validate_generation :: "string option \<Rightarrow> StateError + unit" where
  "validate_generation g =
     (case g of
        None \<Rightarrow> Ok ()
      | Some generation \<Rightarrow>
          and_then (health_validate_text generation MAX_HEALTH_GENERATION_BYTES ''source generation'') (\<lambda>_.
          if secret_like_text generation
          then Err (InvalidHealthState ''health source generation contains secret-like text'') else Ok ()))"

definition validate_observation ::
  "((string, string) btree \<Rightarrow> string option) \<Rightarrow> HealthObservation \<Rightarrow> StateError + unit" where
  "validate_observation details_json ob =
     and_then (validate_component_ref (ho_component_ref ob)) (\<lambda>_.
     and_then (health_validate_text (ho_summary ob) MAX_HEALTH_SUMMARY_BYTES ''summary'') (\<lambda>_.
     and_then (health_validate_text (ho_source ob) MAX_HEALTH_SOURCE_BYTES ''source'') (\<lambda>_.
     if secret_like_text (ho_summary ob) \<or> secret_like_text (ho_source ob)
     then Err (InvalidHealthState ''health observation contains secret-like text'')
     else
       and_then (validate_generation (ho_source_generation ob)) (\<lambda>_.
       if MAX_HEALTH_DETAILS < length (ho_safe_details ob)
       then Err (InvalidHealthState ''too many health safe-detail fields'')
       else
         and_then (try_each validate_detail (ho_safe_details ob)) (\<lambda>_.
         and_then (ok_or (details_json (ho_safe_details ob))
           (InvalidHealthState ''health safe details are not serializable'')) (\<lambda>encoded.
         if MAX_HEALTH_DETAILS_JSON_BYTES < length encoded
         then Err (InvalidHealthState ''health safe details exceed bounded size'') else Ok ()))))))"

definition validate_recovery_attempt :: "RecoveryAttempt \<Rightarrow> StateError + unit" where
  "validate_recovery_attempt a =
     and_then (validate_component_ref (ra_component_ref a)) (\<lambda>_.
     if ra_attempt_number a = 0
     then Err (InvalidHealthState ''recovery attempt number must be positive'')
     else
       case ra_safe_summary a of
         None \<Rightarrow> Ok ()
       | Some summary \<Rightarrow>
           and_then (health_validate_text summary MAX_HEALTH_SUMMARY_BYTES ''recovery summary'') (\<lambda>_.
           if secret_like_text summary
           then Err (InvalidHealthState ''recovery summary contains secret-like text'') else Ok ()))"

subsection \<open>Observations\<close>

record RecoveryRow =
  rr_recovery_id :: nat
  rr_attempt :: RecoveryAttempt

record HealthDb =
  hd_observations :: "(string, HealthObservation) btree"
  hd_events :: events
  hd_recovery :: "RecoveryRow list"

record HealthCodec =
  hc_details_json :: "(string, string) btree \<Rightarrow> string option"
  hc_to_json :: "json \<Rightarrow> string option"

definition observation_changed :: "HealthObservation option \<Rightarrow> HealthObservation \<Rightarrow> bool" where
  "observation_changed previous ob =
     (case previous of
        None \<Rightarrow> True
      | Some p \<Rightarrow> ho_health_state p \<noteq> ho_health_state ob \<or> ho_reason_code p \<noteq> ho_reason_code ob
          \<or> ho_recovery_disposition p \<noteq> ho_recovery_disposition ob)"

definition upsert_observation ::
  "HealthObservation \<Rightarrow> (string, HealthObservation) btree \<Rightarrow> (string, HealthObservation) btree" where
  "upsert_observation ob rows =
     bt_insert (ho_component_ref ob)
       (ob\<lparr>ho_last_healthy_at_ms :=
          (case ho_last_healthy_at_ms ob of
             Some at_ms \<Rightarrow> Some at_ms
           | None \<Rightarrow> Option.bind (bt_get rows (ho_component_ref ob)) ho_last_healthy_at_ms)\<rparr>) rows"

definition health_event :: "HealthObservation \<Rightarrow> NewSignificantEvent" where
  "health_event ob =
     \<lparr>ne_object_kind = ObjHealth, ne_object_ref = ho_component_ref ob, ne_principal = ho_owner ob,
      ne_event_kind = ''health.changed'',
      ne_reason_code = Some (health_reason_code_as_str (ho_reason_code ob)),
      ne_source_ref = Some (ho_source ob), ne_safe_summary = Some (ho_summary ob),
      ne_safe_data = JObject [(''health_state'', JString (health_state_as_str (ho_health_state ob))),
        (''recovery_disposition'', JString (recovery_disposition_as_str (ho_recovery_disposition ob)))],
      ne_occurred_at_ms = ho_observed_at_ms ob\<rparr>"

definition prune_health_events :: "int \<Rightarrow> events \<Rightarrow> events" where
  "prune_health_events observed_at_ms evs =
     filter (\<lambda>e. \<not> (sg_object_kind e = ObjHealth
        \<and> sg_occurred_at_ms e < sat_sub_i64 observed_at_ms HEALTH_EVENT_MAX_AGE_MS)) evs"

definition record_health_observation ::
  "HealthCodec \<Rightarrow> HealthDb \<Rightarrow> HealthObservation \<Rightarrow> HealthDb \<times> (StateError + unit)" where
  "record_health_observation codec db ob =
     (case and_then (validate_observation (hc_details_json codec) ob) (\<lambda>_.
           ok_or (hc_details_json codec (ho_safe_details ob))
             (InvalidHealthState ''health safe details are not serializable'')) of
        Inl e \<Rightarrow> (db, Err e)
      | Inr _ \<Rightarrow>
          let changed = observation_changed (bt_get (hd_observations db) (ho_component_ref ob)) ob;
              db = db\<lparr>hd_observations := upsert_observation ob (hd_observations db)\<rparr>
          in if \<not> changed then (db, Ok ())
             else case append_significant_event (hc_to_json codec) (hd_events db) (health_event ob) of
                 (evs, Inl e) \<Rightarrow> (db\<lparr>hd_events := evs\<rparr>, Err e)
               | (evs, Inr _) \<Rightarrow>
                   (db\<lparr>hd_events := prune_health_events (ho_observed_at_ms ob) evs\<rparr>, Ok ()))"

definition observation_visible :: "Principal \<Rightarrow> HealthObservation \<Rightarrow> bool" where
  "observation_visible p ob =
     (case ho_owner ob of None \<Rightarrow> True | Some owner \<Rightarrow> uid owner = uid p \<or> uid p = 0)"

definition health_observations_visible :: "HealthDb \<Rightarrow> Principal \<Rightarrow> bool \<Rightarrow> HealthObservation list" where
  "health_observations_visible db p degraded_only =
     take MAX_HEALTH_OBSERVATIONS (filter (\<lambda>ob. observation_visible p ob
       \<and> (degraded_only \<longrightarrow> ho_health_state ob \<in> {Degraded, Unavailable})) (bt_values (hd_observations db)))"

definition health_observation_visible ::
  "HealthDb \<Rightarrow> string \<Rightarrow> Principal \<Rightarrow> StateError + HealthObservation option" where
  "health_observation_visible db component_ref p =
     and_then (validate_component_ref component_ref) (\<lambda>_.
     Ok (case bt_get (hd_observations db) component_ref of
           None \<Rightarrow> None
         | Some ob \<Rightarrow> if observation_visible p ob then Some ob else None))"

subsection \<open>The recovery history\<close>

definition newer_first :: "RecoveryRow list \<Rightarrow> RecoveryRow list" where
  "newer_first rows = rev (sort_key (\<lambda>r. ra_started_at_ms (rr_attempt r)) (sort_key rr_recovery_id rows))"

definition rows_of_component :: "string \<Rightarrow> RecoveryRow list \<Rightarrow> RecoveryRow list" where
  "rows_of_component c rows = filter (\<lambda>r. ra_component_ref (rr_attempt r) = c) rows"

definition next_recovery_id :: "RecoveryRow list \<Rightarrow> nat" where
  "next_recovery_id rows = foldr max (map rr_recovery_id rows) 0 + 1"

definition prune_recovery :: "RecoveryAttempt \<Rightarrow> RecoveryRow list \<Rightarrow> RecoveryRow list" where
  "prune_recovery a rows =
     (let rows = filter (\<lambda>r. sat_sub_i64 (ra_started_at_ms a) RECOVERY_HISTORY_MAX_AGE_MS
            \<le> ra_started_at_ms (rr_attempt r)) rows;
          old = drop MAX_RECOVERY_ATTEMPTS_PER_COMPONENT
            (newer_first (rows_of_component (ra_component_ref a) rows))
      in filter (\<lambda>r. rr_recovery_id r \<notin> rr_recovery_id ` set old) rows)"

definition record_recovery_attempt :: "HealthDb \<Rightarrow> RecoveryAttempt \<Rightarrow> HealthDb \<times> (StateError + unit)" where
  "record_recovery_attempt db a =
     (case validate_recovery_attempt a of
        Inl e \<Rightarrow> (db, Err e)
      | Inr _ \<Rightarrow>
          (db\<lparr>hd_recovery := prune_recovery a
             (hd_recovery db @ [\<lparr>rr_recovery_id = next_recovery_id (hd_recovery db), rr_attempt = a\<rparr>])\<rparr>, Ok ()))"

definition restart_attempt_times_since :: "HealthDb \<Rightarrow> string \<Rightarrow> int \<Rightarrow> StateError + int list" where
  "restart_attempt_times_since db component_ref since_ms =
     and_then (validate_component_ref component_ref) (\<lambda>_.
     Ok (sort (map (\<lambda>r. ra_started_at_ms (rr_attempt r))
       (filter (\<lambda>r. ra_action_kind (rr_attempt r) = ActionRestart
          \<and> since_ms \<le> ra_started_at_ms (rr_attempt r)) (rows_of_component component_ref (hd_recovery db))))))"

text \<open>
  The runtime's restart decision, with the state lock: a poisoned lock is reported as invalid health
  state.
\<close>

definition restart_budget_for_internal_use ::
  "bool \<Rightarrow> HealthDb \<Rightarrow> string \<Rightarrow> int \<Rightarrow> int option \<Rightarrow> StateError + RestartBudgetDecision" where
  "restart_budget_for_internal_use poisoned db component_ref now_ms healthy_since_ms =
     (if poisoned then Err (InvalidHealthState ''state lock poisoned'')
      else and_then (restart_attempt_times_since db component_ref (sat_sub_i64 now_ms RESTART_WINDOW_MS)) (\<lambda>attempts.
        Ok (evaluate_restart_budget now_ms attempts healthy_since_ms)))"

definition record_recovery_attempt_for_internal_use ::
  "bool \<Rightarrow> HealthDb \<Rightarrow> RecoveryAttempt \<Rightarrow> HealthDb \<times> (StateError + unit)" where
  "record_recovery_attempt_for_internal_use poisoned db a =
     (if poisoned then (db, Err (InvalidHealthState ''state lock poisoned''))
      else record_recovery_attempt db a)"

end
