(* ===== verification/Health_Properties.thy ===== *)
theory Health_Properties
  imports Health
begin

section \<open>Properties of health and recovery\<close>

text \<open>
  The restart budget bounds the restarts in every window, and deciding from the bounded history in
  the database is deciding from the whole history as long as the window holds no more
  attempts than the history keeps. Two statements record what the observation store does to the event
  history: a refused event leaves the observation stored, and age pruning restarts a log's numbering.
\<close>

subsection \<open>The restart budget\<close>

text \<open>
  \<open>granted\<close>: the times of restarts, newest first, each allowed by the budget on those before it, the
  component never having been stable for long enough to reset it.
\<close>

fun granted :: "int list \<Rightarrow> bool" where
  "granted [] \<longleftrightarrow> True"
| "granted (t # ts) \<longleftrightarrow> granted ts \<and> (\<forall>x\<in>set ts. x \<le> t) \<and> i64_min \<le> t \<and> t \<le> i64_max
     \<and> evaluate_restart_budget t ts None \<noteq> Exhausted"

lemma granted_i64: "granted ts \<Longrightarrow> x \<in> set ts \<Longrightarrow> i64_min \<le> x"
  by (induction ts) auto

lemma window_start_le:
  "i64_min \<le> x \<Longrightarrow> now - RESTART_WINDOW_MS \<le> x \<Longrightarrow> sat_sub_i64 now RESTART_WINDOW_MS \<le> x"
  by (auto simp: sat_sub_i64_def sat_i64_def)

text \<open>C38. Restarts that the budget allowed, with no stable period in between, are never more than three in
  any ten minutes.
\<close>

theorem restart_budget_window:
  assumes "granted ts"
  shows "length (filter (\<lambda>x. now - RESTART_WINDOW_MS \<le> x \<and> x \<le> now) ts) \<le> MAX_RESTART_ATTEMPTS"
  using assms
proof (induction ts)
  case (Cons t ts)
  let ?in = "\<lambda>now x. now - RESTART_WINDOW_MS \<le> x \<and> x \<le> now"
  show ?case
  proof (cases "?in now t")
    case True
    have "set (filter (?in now) ts) \<subseteq> {x \<in> set ts. sat_sub_i64 t RESTART_WINDOW_MS \<le> x \<and> x \<le> t}"
      using Cons.prems True granted_i64 by (fastforce intro!: window_start_le)
    then have "filter (?in now) ts = filter (?in now) (filter (\<lambda>x. sat_sub_i64 t RESTART_WINDOW_MS \<le> x \<and> x \<le> t) ts)"
      by (auto intro!: filter_cong)
    then have "length (filter (?in now) ts) \<le> restarts_in_window t ts"
      unfolding restarts_in_window_def by (metis length_filter_le)
    moreover have "restarts_in_window t ts < MAX_RESTART_ATTEMPTS"
      using Cons.prems by (auto simp: evaluate_restart_budget_def Let_def split: if_splits)
    ultimately show ?thesis using True by simp
  next
    case False
    then show ?thesis using Cons by auto
  qed
qed simp

theorem restart_budget_window_witness:
  "length (filter (\<lambda>x. 600000 - RESTART_WINDOW_MS \<le> x \<and> x \<le> 600000) [7000, 2000, 1000]) \<le> MAX_RESTART_ATTEMPTS"
proof -
  have "granted [7000, 2000, 1000]"
    by (simp add: evaluate_restart_budget_def restarts_in_window_def sat_sub_i64_def sat_i64_def i64_min_def
        i64_max_def RESTART_WINDOW_MS_def MAX_RESTART_ATTEMPTS_def)
  then show ?thesis by (rule restart_budget_window)
qed

subsection \<open>The bounded recovery history\<close>

abbreviation started :: "RecoveryAttempt \<Rightarrow> int" where
  "started \<equiv> ra_started_at_ms"

abbreviation row_started :: "RecoveryRow \<Rightarrow> int" where
  "row_started r \<equiv> started (rr_attempt r)"

definition attempts_of :: "string \<Rightarrow> RecoveryAttempt list \<Rightarrow> RecoveryAttempt list" where
  "attempts_of c as = filter (\<lambda>a. ra_component_ref a = c) as"

definition since :: "int \<Rightarrow> string \<Rightarrow> RecoveryAttempt list \<Rightarrow> nat" where
  "since t c as = length (filter (\<lambda>a. t \<le> started a) (attempts_of c as))"

definition record_all :: "HealthDb \<Rightarrow> RecoveryAttempt list \<Rightarrow> HealthDb" where
  "record_all db as = foldl (\<lambda>db a. fst (record_recovery_attempt db a)) db as"

definition in_time_order :: "RecoveryAttempt list \<Rightarrow> bool" where
  "in_time_order as \<longleftrightarrow> sorted (map started as)
     \<and> (\<forall>a\<in>set as. i64_min \<le> started a \<and> started a \<le> i64_max \<and> validate_recovery_attempt a = Ok ())"

text \<open>
  What the table holds after recording \<open>as\<close> in time order: of each component, its last attempts, and an
  attempt no longer there is more than seven days older than the newest one of all or is followed by
  thirty-two of its component.
\<close>

definition too_old :: "RecoveryAttempt list \<Rightarrow> RecoveryAttempt \<Rightarrow> bool" where
  "too_old as a \<longleftrightarrow> as \<noteq> [] \<and> started a < sat_sub_i64 (started (last as)) RECOVERY_HISTORY_MAX_AGE_MS"

definition history_of :: "RecoveryAttempt list \<Rightarrow> RecoveryRow list \<Rightarrow> bool" where
  "history_of as rows \<longleftrightarrow>
     sorted_wrt (<) (map rr_recovery_id rows) \<and> sorted (map row_started rows) \<and>
     (\<forall>c. \<exists>k\<le>length (attempts_of c as). map rr_attempt (rows_of_component c rows) = drop k (attempts_of c as)
        \<and> (\<forall>x\<in>set (take k (attempts_of c as)).
             too_old as x \<or> MAX_RECOVERY_ATTEMPTS_PER_COMPONENT < since (started x) c as))"

lemma filter_sorted_drop:
  assumes "sorted (map f xs)"
  obtains k where "filter (\<lambda>x. c \<le> f x) xs = drop k xs" "\<forall>x\<in>set (take k xs). f x < (c::int)"
proof -
  have "filter (\<lambda>x. c \<le> f x) xs = dropWhile (\<lambda>x. f x < c) xs"
    using assms
  proof (induction xs)
    case (Cons x xs)
    show ?case
    proof (cases "f x < c")
      case False
      then have "filter (\<lambda>x. c \<le> f x) xs = xs" using Cons.prems by (intro filter_True) auto
      then show ?thesis using False by simp
    qed (use Cons in simp)
  qed simp
  moreover have "dropWhile P xs = drop (length (takeWhile P xs)) xs" for P :: "'a \<Rightarrow> bool"
    by (rule dropWhile_eq_drop)
  moreover have "\<forall>x\<in>set (take (length (takeWhile (\<lambda>x. f x < c) xs)) xs). f x < c"
    by (metis set_takeWhileD takeWhile_eq_take)
  ultimately show thesis using that by metis
qed

lemma newer_first_in_order:
  assumes "sorted_wrt (<) (map rr_recovery_id rows)" "sorted (map row_started rows)"
  shows "newer_first rows = rev rows"
proof -
  have "sorted (map rr_recovery_id rows)" using assms(1) strict_sorted_imp_sorted by blast
  then have "sort_key rr_recovery_id rows = rows" by (rule sort_key_id_if_sorted)
  then show ?thesis using assms(2) by (simp add: newer_first_def sort_key_id_if_sorted)
qed

lemma next_recovery_id_greater: "r \<in> set rows \<Longrightarrow> rr_recovery_id r < next_recovery_id rows"
  unfolding next_recovery_id_def
  by (induction rows) (auto simp: less_Suc_eq_le intro: order_trans max.cobounded2 max.coboundedI2)

lemma rows_of_component_sorted:
  assumes "sorted_wrt (<) (map rr_recovery_id rows)" "sorted (map row_started rows)"
  shows "sorted_wrt (<) (map rr_recovery_id (rows_of_component c rows))"
    and "sorted (map row_started (rows_of_component c rows))"
  using assms unfolding rows_of_component_def sorted_wrt_map by (auto intro: sorted_wrt_filter)

text \<open>The rows of one component after pruning: its last thirty-two that are not too old.\<close>

lemma prune_recovery_rows:
  fixes a :: RecoveryAttempt
  assumes ids: "sorted_wrt (<) (map rr_recovery_id rows)" and times: "sorted (map row_started rows)"
  defines "limit \<equiv> sat_sub_i64 (started a) RECOVERY_HISTORY_MAX_AGE_MS"
  defines "young \<equiv> filter (\<lambda>r. limit \<le> row_started r) rows"
  shows "rows_of_component c (prune_recovery a rows)
    = (if c = ra_component_ref a
       then drop (length (rows_of_component c young) - MAX_RECOVERY_ATTEMPTS_PER_COMPONENT) (rows_of_component c young)
       else rows_of_component c young)"
proof -
  let ?mine = "rows_of_component (ra_component_ref a) young"
  have y: "sorted_wrt (<) (map rr_recovery_id young)" "sorted (map row_started young)"
    using ids times unfolding young_def sorted_wrt_map by (auto intro: sorted_wrt_filter)
  note mine = rows_of_component_sorted [OF y, of "ra_component_ref a"]
  let ?n = "length ?mine - MAX_RECOVERY_ATTEMPTS_PER_COMPONENT"
  have old: "set (drop MAX_RECOVERY_ATTEMPTS_PER_COMPONENT (newer_first ?mine)) = set (take ?n ?mine)"
    by (simp add: newer_first_in_order [OF mine] drop_rev)
  have inj: "inj_on rr_recovery_id (set young)"
    using y(1) by (metis distinct_map strict_sorted_iff)
  have pruned: "prune_recovery a rows = filter (\<lambda>r. r \<notin> set (take ?n ?mine)) young"
    unfolding prune_recovery_def Let_def limit_def [symmetric] young_def [symmetric] old
  proof (intro filter_cong refl)
    fix r assume "r \<in> set young"
    moreover have "set (take ?n ?mine) \<subseteq> set young"
      by (auto simp: rows_of_component_def dest: in_set_takeD)
    ultimately show "(rr_recovery_id r \<notin> rr_recovery_id ` set (take ?n ?mine)) = (r \<notin> set (take ?n ?mine))"
      using inj by (auto simp: inj_on_def)
  qed
  have dist: "distinct ?mine"
    using mine(1) by (metis distinct_map strict_sorted_iff)
  have drop_own: "filter (\<lambda>r. r \<notin> set (take ?n ?mine)) ?mine = drop ?n ?mine"
  proof -
    have "filter (\<lambda>r. r \<notin> set (take ?n ?mine)) (take ?n ?mine @ drop ?n ?mine) = drop ?n ?mine"
      using dist set_take_disj_set_drop_if_distinct [of ?mine ?n ?n]
      by (auto simp del: append_take_drop_id intro!: filter_True)
    then show ?thesis by simp
  qed
  show ?thesis
  proof (cases "c = ra_component_ref a")
    case True
    have "rows_of_component c (prune_recovery a rows) = filter (\<lambda>r. r \<notin> set (take ?n ?mine)) ?mine"
      unfolding pruned True rows_of_component_def filter_filter by (simp add: conj_commute)
    then show ?thesis using drop_own True by simp
  next
    case False
    have "rows_of_component c (prune_recovery a rows) = rows_of_component c young"
      unfolding pruned rows_of_component_def filter_filter
      using False by (intro filter_cong refl) (auto simp: rows_of_component_def dest: in_set_takeD)
    then show ?thesis using False by simp
  qed
qed

lemma in_time_order_snoc:
  assumes "in_time_order (as @ [a])"
  shows "in_time_order as" "x \<in> set as \<Longrightarrow> started x \<le> started a" "validate_recovery_attempt a = Ok ()"
    "i64_min \<le> started a" "started a \<le> i64_max"
  using assms by (auto simp: in_time_order_def sorted_append)

lemma attempts_of_sorted: "in_time_order as \<Longrightarrow> sorted (map started (attempts_of c as))"
  unfolding in_time_order_def attempts_of_def by (auto intro: sorted_filter)

lemma followed_by_many:
  assumes "in_time_order as" and "x \<in> set (take k (attempts_of c as))"
    and "k + n \<le> length (attempts_of c as)"
  shows "n < since (started x) c as"
proof -
  let ?A = "attempts_of c as"
  obtain q where q: "q < k" "x = ?A ! q"
    using assms(2,3) by (auto simp: in_set_conv_nth)
  have "\<forall>y\<in>set (drop q ?A). started x \<le> started y"
  proof
    fix y assume "y \<in> set (drop q ?A)"
    then obtain j where "j < length (drop q ?A)" "y = drop q ?A ! j" by (auto simp: in_set_conv_nth)
    then show "started x \<le> started y"
      using sorted_nth_mono [OF attempts_of_sorted [OF assms(1), of c], of q "q + j"] q assms(3) by auto
  qed
  then have "filter (\<lambda>a. started x \<le> started a) (drop q ?A) = drop q ?A" by (intro filter_True) auto
  moreover have "since (started x) c as
      = length (filter (\<lambda>a. started x \<le> started a) (take q ?A @ drop q ?A))" by (simp add: since_def)
  ultimately have "length ?A - q \<le> since (started x) c as" by (simp only: filter_append length_append length_drop)
  then show ?thesis using q(1) assms(3) by linarith
qed

lemma since_snoc: "since t c as \<le> since t c (as @ [a])"
  by (simp add: since_def attempts_of_def)

lemma too_old_snoc:
  assumes "in_time_order (as @ [a])" "too_old as x"
  shows "too_old (as @ [a]) x"
proof -
  have "started (last as) \<le> started a" using assms in_time_order_snoc(2) by (simp add: too_old_def)
  then show ?thesis using assms(2) by (auto simp: too_old_def sat_sub_i64_def sat_i64_def)
qed

lemma history_empty: "history_of [] []"
  by (simp add: history_of_def attempts_of_def rows_of_component_def)

lemma history_rows:
  assumes "history_of as rows" "r \<in> set rows"
  shows "rr_attempt r \<in> set as"
proof -
  have "r \<in> set (rows_of_component (ra_component_ref (rr_attempt r)) rows)"
    using assms(2) by (simp add: rows_of_component_def)
  moreover obtain k where "map rr_attempt (rows_of_component (ra_component_ref (rr_attempt r)) rows)
      = drop k (attempts_of (ra_component_ref (rr_attempt r)) as)"
    using assms(1) by (auto simp: history_of_def)
  ultimately have "rr_attempt r \<in> set (drop k (attempts_of (ra_component_ref (rr_attempt r)) as))"
    by (metis image_eqI set_map)
  then show ?thesis by (auto simp: attempts_of_def dest: in_set_dropD)
qed

lemma history_snoc_sorted:
  assumes hist: "history_of as rows" and order: "in_time_order (as @ [a])"
  defines "new \<equiv> rows @ [\<lparr>rr_recovery_id = next_recovery_id rows, rr_attempt = a\<rparr>]"
  shows "sorted_wrt (<) (map rr_recovery_id new)" and "sorted (map row_started new)"
proof -
  show "sorted_wrt (<) (map rr_recovery_id new)"
    using hist next_recovery_id_greater by (auto simp: new_def history_of_def sorted_wrt_append)
  show "sorted (map row_started new)"
    using hist history_rows [OF hist] in_time_order_snoc(2) [OF order]
    by (auto simp: new_def history_of_def sorted_append)
qed

lemma history_step:
  assumes hist: "history_of as rows" and order: "in_time_order (as @ [a])"
  shows "history_of (as @ [a]) (prune_recovery a (rows @ [\<lparr>rr_recovery_id = next_recovery_id rows, rr_attempt = a\<rparr>]))"
proof -
  define new where "new = rows @ [\<lparr>rr_recovery_id = next_recovery_id rows, rr_attempt = a\<rparr>]"
  note ids = history_snoc_sorted(1) [OF hist order, folded new_def]
    and times = history_snoc_sorted(2) [OF hist order, folded new_def]
  let ?limit = "sat_sub_i64 (started a) RECOVERY_HISTORY_MAX_AGE_MS"
  have "\<exists>k\<le>length (attempts_of c (as @ [a])).
      map rr_attempt (rows_of_component c (prune_recovery a new)) = drop k (attempts_of c (as @ [a]))
      \<and> (\<forall>x\<in>set (take k (attempts_of c (as @ [a]))).
           too_old (as @ [a]) x \<or> MAX_RECOVERY_ATTEMPTS_PER_COMPONENT < since (started x) c (as @ [a]))" for c
  proof -
    let ?A = "attempts_of c (as @ [a])"
    obtain k0 where k0: "k0 \<le> length (attempts_of c as)"
      "map rr_attempt (rows_of_component c rows) = drop k0 (attempts_of c as)"
      "\<forall>x\<in>set (take k0 (attempts_of c as)).
         too_old as x \<or> MAX_RECOVERY_ATTEMPTS_PER_COMPONENT < since (started x) c as"
      using hist unfolding history_of_def by meson
    have mine: "map rr_attempt (rows_of_component c new) = drop k0 ?A"
      using k0(1,2) by (simp add: new_def rows_of_component_def attempts_of_def)
    have taken: "take k0 ?A = take k0 (attempts_of c as)" using k0(1) by (simp add: attempts_of_def)
    obtain k1 where k1: "filter (\<lambda>r. ?limit \<le> row_started r) (rows_of_component c new) = drop k1 (rows_of_component c new)"
      "\<forall>r\<in>set (take k1 (rows_of_component c new)). row_started r < ?limit"
      using filter_sorted_drop [OF rows_of_component_sorted(2) [OF ids times]] by metis
    have young: "rows_of_component c (filter (\<lambda>r. ?limit \<le> row_started r) new) = drop k1 (rows_of_component c new)"
      using k1(1) by (simp add: rows_of_component_def conj_commute)
    have len: "length (rows_of_component c new) = length ?A - k0"
      using arg_cong [OF mine, of length] by simp
    show ?thesis
    proof (cases "c = ra_component_ref a \<and> MAX_RECOVERY_ATTEMPTS_PER_COMPONENT < length ?A - k0 - k1")
      case True
      let ?k = "length ?A - MAX_RECOVERY_ATTEMPTS_PER_COMPONENT"
      have sum: "length ?A - k0 - k1 - MAX_RECOVERY_ATTEMPTS_PER_COMPONENT + k1 + k0 = ?k"
        using True by linarith
      have kept: "rows_of_component c (prune_recovery a new)
          = drop (length ?A - k0 - k1 - MAX_RECOVERY_ATTEMPTS_PER_COMPONENT + k1) (rows_of_component c new)"
        unfolding prune_recovery_rows [OF ids times, of c a] young length_drop len using True by simp
      have "map rr_attempt (rows_of_component c (prune_recovery a new)) = drop ?k ?A"
        unfolding kept drop_map [symmetric] mine drop_drop sum ..
      moreover have "\<forall>x\<in>set (take ?k ?A). MAX_RECOVERY_ATTEMPTS_PER_COMPONENT < since (started x) c (as @ [a])"
        using True by (auto intro: followed_by_many [OF order])
      ultimately show ?thesis by (intro exI [of _ ?k]) auto
    next
      case False
      let ?k = "min (k0 + k1) (length ?A)"
      have "rows_of_component c (prune_recovery a new) = drop k1 (rows_of_component c new)"
        unfolding prune_recovery_rows [OF ids times, of c a] young length_drop len using False by auto
      then have "map rr_attempt (rows_of_component c (prune_recovery a new)) = drop ?k ?A"
        using mine by (simp flip: drop_map add: add.commute min_def)
      moreover have "too_old (as @ [a]) x \<or> MAX_RECOVERY_ATTEMPTS_PER_COMPONENT < since (started x) c (as @ [a])"
        if "x \<in> set (take ?k ?A)" for x
      proof -
        have "take ?k ?A = take k0 ?A @ take k1 (drop k0 ?A)" by (simp add: take_add min_def)
        then have "x \<in> set (take k0 (attempts_of c as)) \<or> x \<in> set (take k1 (drop k0 ?A))"
          using that unfolding taken by (metis Un_iff set_append)
        then consider "x \<in> set (take k0 (attempts_of c as))" | "x \<in> set (take k1 (drop k0 ?A))"
          by blast
        then show ?thesis
        proof cases
          case 1
          then show ?thesis
            using k0(3) too_old_snoc [OF order] since_snoc order_less_le_trans by blast
        next
          case 2
          then have "started x < ?limit" using k1(2) unfolding mine [symmetric] take_map by auto
          then show ?thesis by (simp add: too_old_def)
        qed
      qed
      ultimately show ?thesis by (intro exI [of _ ?k]) auto
    qed
  qed
  moreover have "sorted_wrt (<) (map rr_recovery_id (prune_recovery a new))"
    "sorted (map row_started (prune_recovery a new))"
    using ids times unfolding prune_recovery_def Let_def sorted_wrt_map
    by (auto intro!: sorted_wrt_filter)
  ultimately show ?thesis unfolding history_of_def new_def [symmetric] by blast
qed

lemma history_record_all:
  assumes "hd_recovery db0 = []" and "in_time_order as"
  shows "history_of as (hd_recovery (record_all db0 as))"
  using assms(2)
proof (induction as rule: rev_induct)
  case Nil
  then show ?case using assms(1) history_empty by (simp add: record_all_def)
next
  case (snoc a as)
  then show ?case
    using history_step [OF snoc.IH [OF in_time_order_snoc(1) [OF snoc.prems]] snoc.prems]
      in_time_order_snoc(3) [OF snoc.prems]
    by (simp add: record_all_def record_recovery_attempt_def)
qed

lemma evaluate_cong:
  "restarts_in_window now xs = restarts_in_window now ys \<Longrightarrow>
   evaluate_restart_budget now xs hs = evaluate_restart_budget now ys hs"
  by (simp add: evaluate_restart_budget_def)

lemma since_antimono: "t \<le> t' \<Longrightarrow> since t' c as \<le> since t c as"
proof -
  assume "t \<le> t'"
  then have "filter (\<lambda>a. t' \<le> started a) (attempts_of c as)
      = filter (\<lambda>a. t' \<le> started a) (filter (\<lambda>a. t \<le> started a) (attempts_of c as))"
    by (auto intro!: filter_cong)
  then show ?thesis unfolding since_def by (metis length_filter_le)
qed

lemma forgotten_outside_window:
  assumes "in_time_order as" "\<forall>a\<in>set as. started a \<le> now"
    and "since (sat_sub_i64 now RESTART_WINDOW_MS) c as \<le> MAX_RECOVERY_ATTEMPTS_PER_COMPONENT"
    and "too_old as x \<or> MAX_RECOVERY_ATTEMPTS_PER_COMPONENT < since (started x) c as"
  shows "\<not> sat_sub_i64 now RESTART_WINDOW_MS \<le> started x"
  using assms(4)
proof
  assume old: "too_old as x"
  then have "started (last as) \<le> now" using assms(2) by (simp add: too_old_def)
  then show ?thesis
    using old by (auto simp: too_old_def sat_sub_i64_def sat_i64_def RESTART_WINDOW_MS_def RECOVERY_HISTORY_MAX_AGE_MS_def)
next
  assume "MAX_RECOVERY_ATTEMPTS_PER_COMPONENT < since (started x) c as"
  then show ?thesis
    using assms(3) since_antimono [of "sat_sub_i64 now RESTART_WINDOW_MS" "started x" c as] by linarith
qed

text \<open>C37. The restart decision the runtime takes from its database, whose recovery history is pruned to
  thirty-two attempts of a component and seven days, is the decision on the whole history of
  attempts, when they were recorded in the order of time and the window holds no more than thirty-two
  attempts of the component of any kind.
\<close>

theorem restart_budget_from_store:
  assumes "hd_recovery db0 = []" and "in_time_order as" and "validate_component_ref c = Ok ()"
    and "\<forall>a\<in>set as. started a \<le> now"
    and "since (sat_sub_i64 now RESTART_WINDOW_MS) c as \<le> MAX_RECOVERY_ATTEMPTS_PER_COMPONENT"
  shows "restart_budget_for_internal_use False (record_all db0 as) c now healthy_since =
    Ok (evaluate_restart_budget now
      (map started (filter (\<lambda>a. ra_action_kind a = ActionRestart) (attempts_of c as))) healthy_since)"
proof -
  let ?A = "attempts_of c as" and ?from = "sat_sub_i64 now RESTART_WINDOW_MS"
  let ?Q = "\<lambda>a. ra_action_kind a = ActionRestart \<and> ?from \<le> started a"
  let ?rows = "rows_of_component c (hd_recovery (record_all db0 as))"
  obtain k where k: "map rr_attempt ?rows = drop k ?A"
    "\<forall>x\<in>set (take k ?A). too_old as x \<or> MAX_RECOVERY_ATTEMPTS_PER_COMPONENT < since (started x) c as"
    using history_record_all [OF assms(1,2)] unfolding history_of_def by meson
  have "filter ?Q (take k ?A) = []"
    using k(2) forgotten_outside_window [OF assms(2,4,5)] by (auto simp: filter_empty_conv)
  moreover have "filter ?Q ?A = filter ?Q (take k ?A) @ filter ?Q (drop k ?A)"
    by (simp flip: filter_append)
  ultimately have "map started (filter ?Q ?A) = map started (filter ?Q (map rr_attempt ?rows))"
    by (simp add: k(1))
  also have "\<dots> = map row_started (filter (\<lambda>r. ?Q (rr_attempt r)) ?rows)" by (simp add: filter_map o_def)
  finally have times: "map row_started (filter (\<lambda>r. ?Q (rr_attempt r)) ?rows) = map started (filter ?Q ?A)" ..
  have "restarts_in_window now (sort (map started (filter ?Q ?A)))
      = restarts_in_window now (map started (filter (\<lambda>a. ra_action_kind a = ActionRestart) ?A))"
    by (simp add: restarts_in_window_def filter_sort filter_map o_def conj_ac)
  then have "evaluate_restart_budget now (sort (map started (filter ?Q ?A))) healthy_since
      = evaluate_restart_budget now
          (map started (filter (\<lambda>a. ra_action_kind a = ActionRestart) ?A)) healthy_since"
    by (rule evaluate_cong)
  then show ?thesis
    using assms(3)
    by (simp add: restart_budget_for_internal_use_def restart_attempt_times_since_def times)
qed

subsection \<open>Three restarts\<close>

definition svc_attempt :: "RecoveryActionKind \<Rightarrow> int \<Rightarrow> RecoveryAttempt" where
  "svc_attempt kind t =
     \<lparr>ra_component_ref = ''svc'', ra_action_kind = kind, ra_attempt_number = 1, ra_started_at_ms = t,
      ra_finished_at_ms = None, ra_outcome = AttemptFailed, ra_reason_code = ReasonServiceNotRunning,
      ra_safe_summary = None\<rparr>"

definition empty_health :: HealthDb where
  "empty_health = \<lparr>hd_observations = [], hd_events = [], hd_recovery = []\<rparr>"

definition three_restarts :: "RecoveryAttempt list" where
  "three_restarts = map (svc_attempt ActionRestart) [1000, 2000, 7000]"

lemma svc_valid: "validate_recovery_attempt (svc_attempt kind t) = Ok ()"
  by (simp add: validate_recovery_attempt_def validate_component_ref_def health_validate_text_def
      MAX_HEALTH_COMPONENT_REF_BYTES_def svc_attempt_def) code_simp

theorem restart_budget_from_store_witness:
  "restart_budget_for_internal_use False (record_all empty_health three_restarts) ''svc'' 8000 None = Ok Exhausted"
proof -
  have order: "in_time_order three_restarts"
    by (auto simp: in_time_order_def three_restarts_def svc_valid) (simp_all add: svc_attempt_def i64_min_def i64_max_def)
  have few: "since (sat_sub_i64 8000 RESTART_WINDOW_MS) ''svc'' three_restarts \<le> MAX_RECOVERY_ATTEMPTS_PER_COMPONENT"
    by (simp add: since_def attempts_of_def three_restarts_def MAX_RECOVERY_ATTEMPTS_PER_COMPONENT_def)
  have "evaluate_restart_budget 8000 (map started (filter (\<lambda>a. ra_action_kind a = ActionRestart)
      (attempts_of ''svc'' three_restarts))) None = Exhausted"
    by code_simp
  moreover have "validate_component_ref ''svc'' = Ok ()" by code_simp
  moreover have "\<forall>a\<in>set three_restarts. started a \<le> 8000" by code_simp
  ultimately show ?thesis
    using restart_budget_from_store [of empty_health three_restarts "''svc''" 8000 None] order few
    by (simp add: empty_health_def)
qed

subsection \<open>The history stays bounded\<close>

lemma record_all_snoc:
  assumes "in_time_order (as @ [a])"
  shows "hd_recovery (record_all db0 (as @ [a])) = prune_recovery a (hd_recovery (record_all db0 as)
    @ [\<lparr>rr_recovery_id = next_recovery_id (hd_recovery (record_all db0 as)), rr_attempt = a\<rparr>])"
  using in_time_order_snoc(3) [OF assms] by (simp add: record_all_def record_recovery_attempt_def)

lemma recovery_history_bounded:
  assumes "hd_recovery db0 = []" and "in_time_order as"
  shows "length (rows_of_component c (hd_recovery (record_all db0 as))) \<le> MAX_RECOVERY_ATTEMPTS_PER_COMPONENT"
  using assms(2)
proof (induction as rule: rev_induct)
  case Nil
  then show ?case using assms(1) by (simp add: record_all_def rows_of_component_def)
next
  case (snoc a as)
  note before = in_time_order_snoc(1) [OF snoc.prems]
  let ?rows = "hd_recovery (record_all db0 as)"
  let ?new = "?rows @ [\<lparr>rr_recovery_id = next_recovery_id ?rows, rr_attempt = a\<rparr>]"
  let ?young = "filter (\<lambda>r. sat_sub_i64 (started a) RECOVERY_HISTORY_MAX_AGE_MS \<le> row_started r) ?new"
  have other: "length (rows_of_component c ?young) \<le> length (rows_of_component c ?rows)"
    if "c \<noteq> ra_component_ref a"
  proof -
    have "rows_of_component c ?young = filter (\<lambda>r. sat_sub_i64 (started a) RECOVERY_HISTORY_MAX_AGE_MS
        \<le> row_started r) (rows_of_component c ?rows)"
      using that by (auto simp: rows_of_component_def intro!: filter_cong)
    then show ?thesis by (simp add: length_filter_le)
  qed
  show ?case
    unfolding record_all_snoc [OF snoc.prems]
      prune_recovery_rows [OF history_snoc_sorted [OF history_record_all [OF assms(1) before] snoc.prems]]
    using snoc.IH [OF before] other by auto
qed

text \<open>
  The table's bound counts attempts of every kind, so probes push restarts out: after three restarts
  and thirty-two probes inside the window the runtime allows a fourth restart.
\<close>

lemma svc_in_time_order:
  assumes "sorted ts" "\<forall>t\<in>set ts. 0 \<le> t \<and> t \<le> 10000"
  shows "in_time_order (map (\<lambda>t. svc_attempt (kind t) t) ts)"
  using assms by (auto simp: in_time_order_def svc_valid o_def) (auto simp: svc_attempt_def i64_min_def i64_max_def o_def)

definition probing :: "RecoveryAttempt list" where
  "probing = map (\<lambda>t. svc_attempt (if t \<le> 7000 then ActionRestart else ActionProbe) t)
     ([1000, 2000, 7000] @ map (\<lambda>n. 8000 + int n) [0..<32])"

lemma probing_own: "attempts_of ''svc'' probing = probing"
  by (simp add: attempts_of_def probing_def svc_attempt_def)

lemma probing_order: "in_time_order probing"
  unfolding probing_def by (rule svc_in_time_order) (auto simp: sorted_append sorted_iff_nth_mono)

lemma probes_evict_restarts:
  "restart_budget_for_internal_use False (record_all empty_health probing) ''svc'' 9000 None = Ok (Allowed 1 1000)"
  "evaluate_restart_budget 9000 (map started (filter (\<lambda>a. ra_action_kind a = ActionRestart)
     (attempts_of ''svc'' probing))) None = Exhausted"
proof -
  let ?rows = "rows_of_component ''svc'' (hd_recovery (record_all empty_health probing))"
  have fresh: "hd_recovery empty_health = []" by (simp add: empty_health_def)
  obtain k where "map rr_attempt ?rows = drop k (attempts_of ''svc'' probing)"
    using history_record_all [OF fresh probing_order] unfolding history_of_def by meson
  then have k: "map rr_attempt ?rows = drop k probing" unfolding probing_own .
  have "length ?rows = 35 - k" using arg_cong [OF k, of length] by (simp add: probing_def)
  then have "3 \<le> k"
    using recovery_history_bounded [OF fresh probing_order, of "''svc''"]
    by (simp add: MAX_RECOVERY_ATTEMPTS_PER_COMPONENT_def)
  then have "drop k probing = drop (k - 3) (drop 3 probing)" by simp
  moreover have "\<forall>a\<in>set (drop 3 probing). ra_action_kind a = ActionProbe"
    by (simp add: probing_def svc_attempt_def)
  ultimately have probes: "\<forall>a\<in>set (map rr_attempt ?rows). ra_action_kind a = ActionProbe"
    unfolding k by (metis in_set_dropD)
  have "filter (\<lambda>r. ra_action_kind (rr_attempt r) = ActionRestart
      \<and> sat_sub_i64 9000 RESTART_WINDOW_MS \<le> row_started r) ?rows = []"
    using probes by (auto simp: filter_empty_conv)
  moreover have "validate_component_ref ''svc'' = Ok ()" by code_simp
  ultimately show "restart_budget_for_internal_use False (record_all empty_health probing) ''svc'' 9000 None
      = Ok (Allowed 1 1000)"
    by (simp add: restart_budget_for_internal_use_def restart_attempt_times_since_def evaluate_restart_budget_def
        restarts_in_window_def MAX_RESTART_ATTEMPTS_def RESTART_BACKOFF_MS_def)
  show "evaluate_restart_budget 9000 (map started (filter (\<lambda>a. ra_action_kind a = ActionRestart)
      (attempts_of ''svc'' probing))) None = Exhausted"
    unfolding probing_own
    by (simp add: probing_def svc_attempt_def evaluate_restart_budget_def restarts_in_window_def
        MAX_RESTART_ATTEMPTS_def RESTART_WINDOW_MS_def sat_sub_i64_def sat_i64_def i64_min_def i64_max_def)
qed

subsection \<open>Observations and their events\<close>

lemma record_observation_Ok:
  assumes "record_health_observation codec db ob = (db', Ok ())"
  obtains "validate_observation (hc_details_json codec) ob = Ok ()"
    "hd_observations db' = upsert_observation ob (hd_observations db)"
    "if observation_changed (bt_get (hd_observations db) (ho_component_ref ob)) ob
     then \<exists>evs row. append_significant_event (hc_to_json codec) (hd_events db) (health_event ob) = (evs, Ok row)
       \<and> hd_events db' = prune_health_events (ho_observed_at_ms ob) evs
     else hd_events db' = hd_events db"
proof -
  have v: "validate_observation (hc_details_json codec) ob = Ok ()"
    using assms by (cases "validate_observation (hc_details_json codec) ob") (auto simp: record_health_observation_def)
  obtain d where d: "hc_details_json codec (ho_safe_details ob) = Some d"
    using assms v by (cases "hc_details_json codec (ho_safe_details ob)") (auto simp: record_health_observation_def)
  obtain evs r where app: "append_significant_event (hc_to_json codec) (hd_events db) (health_event ob) = (evs, r)"
    by fastforce
  show thesis
    by (rule that [OF v])
      (use assms v d app in \<open>cases r; auto simp: record_health_observation_def Let_def split: if_splits\<close>)+
qed

text \<open>C40. A health observation whose change event is refused is stored all the same: the call reports
  the error, the observation is in the table, nothing is in the event log, and recording the same
  observation again succeeds without ever logging the change.
\<close>

theorem health_change_unlogged:
  assumes "record_health_observation codec db ob = (db1, Err e)"
    and "validate_observation (hc_details_json codec) ob = Ok ()"
    and "bt_sorted (hd_observations db)"
  shows "bt_get (hd_observations db1) (ho_component_ref ob)
      = bt_get (upsert_observation ob (hd_observations db)) (ho_component_ref ob)
    \<and> hd_events db1 = hd_events db
    \<and> (\<exists>db2. record_health_observation codec db1 ob = (db2, Ok ()) \<and> hd_events db2 = hd_events db)"
proof -
  obtain d where d: "hc_details_json codec (ho_safe_details ob) = Some d"
    using assms(2) by (cases "hc_details_json codec (ho_safe_details ob)")
      (auto simp: validate_observation_def result_simps split: if_splits)
  obtain evs r where app: "append_significant_event (hc_to_json codec) (hd_events db) (health_event ob) = (evs, r)"
    by fastforce
  have changed: "observation_changed (bt_get (hd_observations db) (ho_component_ref ob)) ob" and r: "r = Err e"
    and db1: "db1 = db\<lparr>hd_observations := upsert_observation ob (hd_observations db), hd_events := evs\<rparr>"
    using assms(1,2) d app
    by (cases r; auto simp: record_health_observation_def Let_def split: if_splits)+
  have evs: "evs = hd_events db" using append_event_cases [OF app] r by auto
  have get: "bt_get (hd_observations db1) (ho_component_ref ob)
      = Some (ob\<lparr>ho_last_healthy_at_ms := (case ho_last_healthy_at_ms ob of Some at_ms \<Rightarrow> Some at_ms
          | None \<Rightarrow> Option.bind (bt_get (hd_observations db) (ho_component_ref ob)) ho_last_healthy_at_ms)\<rparr>)"
    using assms(3) by (simp add: db1 upsert_observation_def btree_simps)
  then have "\<not> observation_changed (bt_get (hd_observations db1) (ho_component_ref ob)) ob"
    by (simp add: observation_changed_def)
  then have "\<exists>db2. record_health_observation codec db1 ob = (db2, Ok ()) \<and> hd_events db2 = hd_events db1"
    using assms(2) d by (simp add: record_health_observation_def)
  then show ?thesis by (simp add: db1 evs)
qed

lemma append_other_log:
  assumes "append_significant_event to_json evs e = (evs', Ok row)"
    and "(k, r) \<noteq> (ne_object_kind e, ne_object_ref e)"
  shows "object_events evs' k r = object_events evs k r"
  using assms(1)
proof (cases rule: append_event_cases)
  case (stored n evs1)
  then have evs1: "evs1 = evs @ [event_row e (i64_of_u64 n)]" using insert_event_Ok(2) by blast
  have "object_events [event_row e (i64_of_u64 n)] k r = []"
    using assms(2) by (auto simp: object_events_def of_object_def event_row_def)
  then show ?thesis using assms(2) by (auto simp: stored(4) object_events_prune evs1)
qed simp

lemma append_to_empty_log:
  assumes "append_significant_event to_json evs e = (evs', Ok row)"
    and "object_events evs (ne_object_kind e) (ne_object_ref e) = []"
  shows "object_events evs' (ne_object_kind e) (ne_object_ref e) = [event_row e 1]"
  using assms(1)
proof (cases rule: append_event_cases)
  case (stored n evs1)
  have n: "n = 1" using stored(1) assms(2) by (simp add: latest_sequence_def max_sequence_def)
  have "evs1 = evs @ [event_row e 1]"
    using insert_event_Ok(2) [OF stored(3)] stored(2) n by (simp add: i64_of_u64_def)
  moreover have "object_events [event_row e 1] (ne_object_kind e) (ne_object_ref e) = [event_row e 1]"
    by (simp add: object_events_def of_object_def event_row_def)
  ultimately show ?thesis
    using assms(2) by (simp add: stored(4) object_events_prune n MAX_SIGNIFICANT_EVENTS_PER_OBJECT_def)
qed simp

lemma object_events_prune_health:
  "object_events (prune_health_events t evs) ObjHealth r
     = filter (\<lambda>x. sat_sub_i64 t HEALTH_EVENT_MAX_AGE_MS \<le> sg_occurred_at_ms x) (object_events evs ObjHealth r)"
  by (auto simp: object_events_def of_object_def prune_health_events_def intro!: filter_cong)

text \<open>
  Age pruning removes events by their time and not from the front of one object's log, so it can empty
  a log; the next event of that object is numbered from the retained events, that is, from 1 again.
\<close>

text \<open>C39. Sequence numbers of health events start again. Recording an observation that changes one component
  prunes the health events by age: when it is made more than thirty days after every event of another
  component, the other's log is emptied. The other's next change is then logged with sequence number
  1, and a reader that resumes after any number it had seen is given neither that event nor a gap.
\<close>

theorem health_sequence_restarts:
  assumes "record_health_observation codec db a = (db1, Ok ())"
    and "observation_changed (bt_get (hd_observations db) (ho_component_ref a)) a"
    and "\<forall>x\<in>set (object_events (hd_events db) ObjHealth (ho_component_ref b)).
       sg_occurred_at_ms x < sat_sub_i64 (ho_observed_at_ms a) HEALTH_EVENT_MAX_AGE_MS"
    and "ho_component_ref b \<noteq> ho_component_ref a"
    and "record_health_observation codec db1 b = (db2, Ok ())"
    and "observation_changed (bt_get (hd_observations db1) (ho_component_ref b)) b"
    and "i64_min \<le> ho_observed_at_ms b" and "1 \<le> after" and "1 \<le> limit" and "limit \<le> 200"
  shows "map sg_sequence (object_events (hd_events db2) ObjHealth (ho_component_ref b)) = [1]
    \<and> (\<exists>page. significant_events_for_object (hd_events db2) ObjHealth (ho_component_ref b) (Some after) limit = Ok page
         \<and> pg_events page = [] \<and> \<not> pg_gap_before_page page)"
proof -
  let ?r = "ho_component_ref b"
  have ev: "ne_object_kind (health_event x) = ObjHealth" "ne_object_ref (health_event x) = ho_component_ref x" for x
    by (simp_all add: health_event_def)
  obtain evs1 row1 where a: "append_significant_event (hc_to_json codec) (hd_events db) (health_event a) = (evs1, Ok row1)"
    "hd_events db1 = prune_health_events (ho_observed_at_ms a) evs1"
    using assms(1,2) by (elim record_observation_Ok) auto
  have "object_events evs1 ObjHealth ?r = object_events (hd_events db) ObjHealth ?r"
    using append_other_log [OF a(1)] assms(4) by (simp add: ev)
  then have empty: "object_events (hd_events db1) ObjHealth ?r = []"
    using assms(3) by (auto simp: a(2) object_events_prune_health filter_empty_conv)
  obtain evs2 row2 where b: "append_significant_event (hc_to_json codec) (hd_events db1) (health_event b) = (evs2, Ok row2)"
    "hd_events db2 = prune_health_events (ho_observed_at_ms b) evs2"
    using assms(5,6) by (elim record_observation_Ok) auto
  have "sat_sub_i64 (ho_observed_at_ms b) HEALTH_EVENT_MAX_AGE_MS \<le> ho_observed_at_ms b"
    using assms(7) by (auto simp: sat_sub_i64_def sat_i64_def HEALTH_EVENT_MAX_AGE_MS_def)
  then have log: "object_events (hd_events db2) ObjHealth ?r = [event_row (health_event b) 1]"
    using append_to_empty_log [OF b(1), unfolded ev, OF empty]
    by (simp add: b(2) object_events_prune_health) (simp add: event_row_def health_event_def)
  have "validate_event (hc_to_json codec) (health_event b) = Ok ()"
    using b(1) by (auto simp: append_significant_event_def result_simps split: sum.splits)
  then have ref: "\<not> trim_is_empty ?r \<and> length ?r \<le> MAX_SIGNIFICANT_EVENT_REF_BYTES"
    by (auto simp: validate_event_def result_simps event_validate_nonempty_Ok ev)
  have "1 \<le> i64_of_u64 after" using assms(8) by (simp add: i64_of_u64_def i64_max_def)
  moreover have "\<not> sat_add_u64 after 1 < 1" using assms(8) by (simp add: sat_add_u64_def u64_max_def)
  moreover have "limit \<noteq> 0" "\<not> 200 < limit" using assms(9,10) by auto
  ultimately show ?thesis
    using ref
    by (simp add: log significant_events_for_object_def Let_def MAX_SIGNIFICANT_EVENT_PAGE_def min_sequence_def)
qed

subsection \<open>Witnesses\<close>

definition plain_codec :: HealthCodec where
  "plain_codec = \<lparr>hc_details_json = (\<lambda>_. Some ''{}''), hc_to_json = demo_to_json\<rparr>"

definition observed :: "string \<Rightarrow> HealthState \<Rightarrow> int \<Rightarrow> HealthObservation" where
  "observed r st t =
     \<lparr>ho_component_ref = r, ho_component_type = ComponentService, ho_owner = None, ho_health_state = st,
      ho_reason_code = ReasonReady, ho_summary = ''ok'', ho_source = ''test'', ho_observed_at_ms = t,
      ho_source_generation = None, ho_last_healthy_at_ms = None, ho_recovery_disposition = DisposeObserve,
      ho_recovery_attempt_count = 0, ho_safe_details = []\<rparr>"

theorem health_change_unlogged_witness:
  "hd_events (fst (record_health_observation plain_codec empty_health (observed ''token=a'' Healthy 1))) = []"
proof -
  let ?db = "fst (record_health_observation plain_codec empty_health (observed ''token=a'' Healthy 1))"
  have "snd (record_health_observation plain_codec empty_health (observed ''token=a'' Healthy 1))
      = Err (InvalidEventState ''significant event contains secret-like text'')" by code_simp
  then have "record_health_observation plain_codec empty_health (observed ''token=a'' Healthy 1)
      = (?db, Err (InvalidEventState ''significant event contains secret-like text''))"
    by (metis prod.collapse)
  moreover have "validate_observation (hc_details_json plain_codec) (observed ''token=a'' Healthy 1) = Ok ()"
    by code_simp
  moreover have "bt_sorted (hd_observations empty_health)" by (simp add: empty_health_def bt_sorted_def)
  ultimately have "hd_events ?db = hd_events empty_health"
    using health_change_unlogged [of plain_codec empty_health "observed ''token=a'' Healthy 1" ?db] by blast
  then show ?thesis by (simp add: empty_health_def)
qed

text \<open>One event of \<open>disk\<close> at time 0, then both components observed more than thirty days later.\<close>

definition disk_seen :: HealthDb where
  "disk_seen = empty_health\<lparr>hd_observations := [(''disk'', observed ''disk'' Healthy 0)],
     hd_events := [event_row (health_event (observed ''disk'' Healthy 0)) 5]\<rparr>"

definition net_seen :: HealthDb where
  "net_seen = empty_health\<lparr>hd_observations := [(''disk'', observed ''disk'' Healthy 0),
       (''net'', observed ''net'' Healthy 2600000000)],
     hd_events := [event_row (health_event (observed ''net'' Healthy 2600000000)) 1]\<rparr>"

definition disk_again :: HealthDb where
  "disk_again = net_seen\<lparr>hd_observations := [(''disk'', observed ''disk'' Degraded 2600000000),
       (''net'', observed ''net'' Healthy 2600000000)],
     hd_events := hd_events net_seen @ [event_row (health_event (observed ''disk'' Degraded 2600000000)) 1]\<rparr>"

lemma net_recorded:
  "record_health_observation plain_codec disk_seen (observed ''net'' Healthy 2600000000) = (net_seen, Ok ())"
  by code_simp

lemma disk_recorded:
  "record_health_observation plain_codec net_seen (observed ''disk'' Degraded 2600000000) = (disk_again, Ok ())"
  by code_simp

theorem health_sequence_restarts_witness:
  "map sg_sequence (object_events (hd_events disk_seen) ObjHealth ''disk'') = [5]
   \<and> map sg_sequence (object_events (hd_events disk_again) ObjHealth ''disk'') = [1]"
proof
  have log: "object_events (hd_events disk_seen) ObjHealth ''disk''
      = [event_row (health_event (observed ''disk'' Healthy 0)) 5]"
    by (simp add: disk_seen_def object_events_def of_object_def event_row_def health_event_def observed_def)
  then show "map sg_sequence (object_events (hd_events disk_seen) ObjHealth ''disk'') = [5]" by simp
  have "\<forall>x\<in>set (object_events (hd_events disk_seen) ObjHealth ''disk'').
      sg_occurred_at_ms x < sat_sub_i64 2600000000 HEALTH_EVENT_MAX_AGE_MS"
    by (simp add: log event_row_def health_event_def observed_def sat_sub_i64_def sat_i64_def i64_min_def
        i64_max_def HEALTH_EVENT_MAX_AGE_MS_def)
  moreover have "observation_changed (bt_get (hd_observations disk_seen) ''net'') (observed ''net'' Healthy 2600000000)"
    "observation_changed (bt_get (hd_observations net_seen) ''disk'') (observed ''disk'' Degraded 2600000000)"
    by (simp_all add: disk_seen_def net_seen_def bt_get_def observation_changed_def observed_def)
  ultimately show "map sg_sequence (object_events (hd_events disk_again) ObjHealth ''disk'') = [1]"
    using health_sequence_restarts [OF net_recorded _ _ _ disk_recorded, of 1 1]
    by (simp add: observed_def i64_min_def)
qed

end
