(* ===== verification/Spec2Isabelle.thy ===== *)
theory Spec2Isabelle
  imports Privd_Properties Task_Engine_Witnesses Framing Apid_Witnesses Task_Stream_Properties Event_Hub
    Health_Properties
begin

text \<open>
  A verification development for the Portus OS runtime, the Rust workspace under
  \<^verbatim>\<open>src/runtime/crates\<close>.

  \<^bold>\<open>The program.\<close> Three daemons serve local clients over Unix sockets, one JSON value per line.
  \<^verbatim>\<open>portus-privd\<close> decides and runs privileged operations under an administrator policy;
  \<^verbatim>\<open>portus-apid\<close> holds API credentials and spends them for clients the same policy allows; \<^verbatim>\<open>portusd\<close>
  runs tasks and keeps tasks, events and health in one SQLite database. Every security decision is written
  to an audit log. The libraries below them are the wire protocol (\<^verbatim>\<open>portus-protocol\<close>), the framing
  (\<^verbatim>\<open>portus-client\<close>), the policy (\<^verbatim>\<open>portus-policy\<close>), the audit sink (\<^verbatim>\<open>portus-audit\<close>), the database
  (\<^verbatim>\<open>portus-state\<close>), the task engine (\<^verbatim>\<open>portus-task\<close>), the credential contract
  (\<^verbatim>\<open>portus-protected-api\<close>) and health (\<^verbatim>\<open>portus-health\<close>).

  \<^bold>\<open>Conventions.\<close> \<open>Rust_Prelude\<close> holds what the sources use of Rust: results as sums with \<open>Ok\<close> and
  \<open>Err\<close>, \<open>and_then\<close> for the question mark, \<open>st_then\<close> for the same in code that changes state,
  saturating arithmetic on \<open>u64\<close> and \<open>i64\<close>, strings as byte lists, and ordered maps as sorted
  association lists. A struct is a record, an enum a datatype, a handler a function from the old state
  to the new state and a result. Code that is not in the repository (serde, TOML, SQLite faults, the HTTP
  client, the clock, process calls) is a field of a record of parameters, an argument of the
  definitions that use it. Time and identifiers are read through a counter, so each call may answer
  differently. \<open>Filesystem\<close> is the part of \<^verbatim>\<open>std::fs\<close> that is used, over a tree of inodes, with an
  environment that lets any call fail.

  \<^bold>\<open>Theories and sources.\<close>

  \<^item> \<open>Protocol_Enums\<close>, \<open>Protocol\<close>: the string enumerations, envelopes, errors, identifiers, audit records
    and stream frames of \<^verbatim>\<open>portus-protocol\<close>; \<open>Pagination\<close>: following a cursor to the end, a
    locale interpreted for event pages and task pages.
  \<^item> \<open>Policy\<close>, \<open>Policy_Mutation\<close>, \<open>Policy_Resolution\<close>: documents, validation, evaluation and mutation of
    \<^verbatim>\<open>portus-policy\<close> (\<^verbatim>\<open>model.rs\<close>, \<^verbatim>\<open>snapshot.rs\<close>, \<^verbatim>\<open>mutation.rs\<close>). \<open>Policy_Properties\<close>: evaluation refines an
    abstract decision, fails closed, and changes as granted and revoked.
  \<^item> \<open>Policy_Store\<close>, \<open>Policy_Reload\<close>, \<open>Policy_Store_Properties\<close>: trusted loading (\<^verbatim>\<open>snapshot.rs\<close>) and durable
    commit (\<^verbatim>\<open>portus-privd/src/repository.rs\<close>); committing is atomic and reloading gives back what
    was committed.
  \<^item> \<open>Audit_Sink\<close>, \<open>Audit_Properties\<close>: \<^verbatim>\<open>portus-audit\<close>; records are appended, the log stays within its
    bound and holds no secret-like text.
  \<^item> \<open>Privd\<close>, \<open>Privd_Properties\<close>: both dispatch paths of \<^verbatim>\<open>portus-privd/src/core.rs\<close>; nothing is executed
    without a policy decision that allows it, a change is durable before it is visible, administration
    needs root and is audited.
  \<^item> \<open>Protected_Api\<close>, \<open>Protected_Definitions\<close>: \<^verbatim>\<open>portus-protected-api\<close>. \<open>Credential_Store\<close>, \<open>Apid\<close>: \<^verbatim>\<open>store.rs\<close>,
    \<^verbatim>\<open>authorizer.rs\<close>, \<^verbatim>\<open>core.rs\<close> and \<^verbatim>\<open>upstream.rs\<close> of \<^verbatim>\<open>portus-apid\<close>. \<open>Apid_Properties\<close>, \<open>Apid_Secrecy\<close>,
    \<open>Apid_Witnesses\<close>: a secret leaves only for an allowed use, no answer or audit record depends on it, and
    the life of a credential follows an abstract machine. A protected request takes the store lock
    twice; \<open>execute_request_amid\<close> has what other connections do to the store in between as an argument,
    and \<open>execute_request\<close> is the case where they do nothing. The theorem on sending holds for every
    sequence of store calls in between, and says when the secret is the named provider's and when
    the request stays at its origin; two lemmas show both exceptions on concrete inputs.
  \<^item> \<open>Framing\<close>: \<^verbatim>\<open>portus-client/src/framing.rs\<close> and the admin reader of \<^verbatim>\<open>portus-apid/src/unix.rs\<close>.
    The loops are partial functions proved to return; how the bytes are chunked does not matter;
    what is written is what is read.
  \<^item> \<open>Event_Store\<close>, \<open>Event_Properties\<close>, \<open>Task_Store\<close>, \<open>Task_Properties\<close>: \<^verbatim>\<open>event.rs\<close> and \<^verbatim>\<open>task.rs\<close> of
    \<^verbatim>\<open>portus-state\<close>; logs are consecutive and bounded, transitions atomic, owners isolated.
  \<^item> \<open>Task_Engine\<close>, \<open>Task_Engine_Properties\<close>, \<open>Task_Launch\<close>, \<open>Task_Recovery\<close>, \<open>Task_Engine_Witnesses\<close>:
    \<^verbatim>\<open>portus-task\<close>; tasks follow the lifecycle, every logged event is announced once, a failed launch
    leaves nothing running, a restart settles every task. The read of \<open>notify_event\<close> after a commit
    does not fault in the model.
  \<^item> \<open>Runtime_Tasks\<close>, \<open>Task_Stream\<close>, \<open>Task_Stream_Properties\<close>: the task methods of \<^verbatim>\<open>portusd/src/core.rs\<close> and the
    event stream of \<^verbatim>\<open>portusd/src/unix.rs\<close>. The other connections are the environment: what
    each page read finds is arbitrary. Events are sent in sequence without gap or repetition; a
    stream over a finished task returns with everything delivered while other connections run any
    operations of the engine between its reads.
  \<^item> \<open>Event_Hub\<close>: \<^verbatim>\<open>portusd/src/events.rs\<close> with publishers and readers interleaved; every matching event
    is delivered in order or counted as missed.
  \<^item> \<open>Health\<close>, \<open>Health_Properties\<close>: \<^verbatim>\<open>portus-health\<close> and \<^verbatim>\<open>portus-state/src/health.rs\<close>; the restart budget bounds
    restarts and may be computed from the pruned history; two theorems state what the
    observation store does to the event log that its documentation does not say.

  \<^bold>\<open>How the parts meet.\<close> \<open>Privd\<close> and \<open>Apid\<close> call policy evaluation and the audit sink; \<open>Task_Engine\<close> works on the
  \<open>Task_Store\<close>, which logs through \<open>Event_Store\<close>; \<open>Runtime_Tasks\<close> calls the engine and the store;
  \<open>Task_Stream\<close> reads its pages and writes them with \<open>Framing\<close>; \<open>Health\<close> logs through \<open>Event_Store\<close>. The
  properties of the upper theories are about these compositions and not about one layer with the
  rest assumed.

  \<^bold>\<open>Loops and bounds.\<close> Loops over data are structural. \<open>read_frame_loop\<close>, \<open>read_secret_loop\<close> and \<open>stream_loop\<close>
  are partial functions in the option monad: the first two are proved to return whatever the peer sends,
  the third for a task that has ended. Following pages takes a number of requests as fuel, and one more
  than the number of elements is proved to be enough. Sequence numbers are naturals kept below the \<open>i64\<close> bound by the store's invariant; the hub's
  counters are 64-bit words that wrap.

  \<^bold>\<open>Not modelled.\<close> Socket creation, peer credentials, connection limits and threads of the three daemons
  (operating-system calls around the modelled cores); faults of the SQLite engine other than those the
  credential store handles; migrations (SQL text); the index, provider, artifact and visual
  subsystems with their tables and the methods of \<^verbatim>\<open>portusd/src/core.rs\<close> that serve them; the probes that
  read \<^verbatim>\<open>statvfs\<close> and \<^verbatim>\<open>/proc/meminfo\<close>; the command-line clients (argument parsing and output); the build
  and installation tools, which drive external programs. Zeroing of secrets in memory has no
  counterpart in a model of values.
\<close>

end
